(* ===== verification/Prelude.thy ===== *)
theory Prelude
  imports Main "HOL-Library.Word" "HOL-Library.List_Lexorder" "HOL-Library.Char_ord"
    "HOL-Library.Monad_Syntax"
begin

text \<open>
  Shared vocabulary of the development: the rule collections, C++ machine integers kept at
  their width, NUL-terminated strings, and the ordered association lists that stand for
  \<open>std::map\<close>. Nothing in this theory models a part of the program; the components import it.
\<close>

named_theorems irs_simps \<open>the setters of a registration set\<close>
named_theorems task_simps \<open>the callbacks of the registration task that end it\<close>

section \<open>Machine integers\<close>

text \<open>
  Conversion of a mathematical integer to a two's complement C++ \<open>int32_t\<close> or \<open>int64_t\<close>.
\<close>

definition s32 :: "int \<Rightarrow> int" where
  "s32 x = (x + 2147483648) mod 4294967296 - 2147483648"

definition s64 :: "int \<Rightarrow> int" where
  "s64 x = (x + 9223372036854775808) mod 18446744073709551616 - 9223372036854775808"

lemma s32_id: "- 2147483648 \<le> x \<Longrightarrow> x < 2147483648 \<Longrightarrow> s32 x = x"
  by (simp add: s32_def)

lemma s32_range: "- 2147483648 \<le> s32 x \<and> s32 x < 2147483648"
  by (simp add: s32_def)

lemma s32_idem [simp]: "s32 (s32 x) = s32 x"
  using s32_range [of x] by (simp add: s32_id)

lemma s64_id: "- 9223372036854775808 \<le> x \<Longrightarrow> x < 9223372036854775808 \<Longrightarrow> s64 x = x"
  by (simp add: s64_def)

lemma s32_mod: "s32 x mod 4294967296 = x mod 4294967296"
  unfolding s32_def by (simp add: mod_diff_left_eq)

lemma s64_mod: "s64 x mod 18446744073709551616 = x mod 18446744073709551616"
  unfolding s64_def by (simp add: mod_diff_left_eq)

lemma s32_cong: "x mod 4294967296 = y mod 4294967296 \<Longrightarrow> s32 x = s32 y"
  unfolding s32_def by (metis mod_add_left_eq)

lemma s32_s64 [simp]: "s32 (s64 x) = s32 x"
proof (rule s32_cong)
  have dvd: "(4294967296::int) dvd 18446744073709551616" by simp
  have "s64 x mod 4294967296 = s64 x mod 18446744073709551616 mod 4294967296"
    by (rule mod_mod_cancel [OF dvd, symmetric])
  also have "\<dots> = x mod 4294967296"
    by (simp only: s64_mod mod_mod_cancel [OF dvd])
  finally show "s64 x mod 4294967296 = x mod 4294967296" .
qed

text \<open>Adding and then subtracting the clock commutes with the narrowing.\<close>

lemma s32_add_diff: "s32 (s32 (t + n) - n) = s32 t"
proof (rule s32_cong)
  have "(s32 (t + n) - n) mod 4294967296 = (s32 (t + n) mod 4294967296 - n) mod 4294967296"
    by (simp add: mod_diff_left_eq)
  also have "\<dots> = (t + n - n) mod 4294967296"
    by (simp add: s32_mod mod_diff_left_eq)
  finally show "(s32 (t + n) - n) mod 4294967296 = t mod 4294967296" by simp
qed

lemma s32_add_narrow: "s32 (a + s32 b) = s32 (a + b)"
proof (rule s32_cong)
  have "(a + s32 b) mod 4294967296 = (a + s32 b mod 4294967296) mod 4294967296"
    by (simp add: mod_add_right_eq)
  also have "\<dots> = (a + b) mod 4294967296"
    by (simp add: s32_mod mod_add_right_eq)
  finally show "(a + s32 b) mod 4294967296 = (a + b) mod 4294967296" .
qed

section \<open>C strings\<close>

text \<open>
  \<open>c_str\<close> is what a C library sees of a \<open>std::string\<close> passed by \<open>c_str()\<close>: the bytes before
  the first NUL. \<open>char_at\<close> is \<open>std::string::operator[]\<close> on a constant string, which yields a
  NUL at the position one past the end.
\<close>

abbreviation NUL :: char where
  "NUL \<equiv> CHR 0x00"

definition c_str :: "string \<Rightarrow> string" where
  "c_str s = takeWhile (\<lambda>c. c \<noteq> NUL) s"

definition char_at :: "string \<Rightarrow> nat \<Rightarrow> char" where
  "char_at s i = (if i < length s then s ! i else NUL)"

definition no_nul :: "string \<Rightarrow> bool" where
  "no_nul s \<longleftrightarrow> NUL \<notin> set s"

lemma c_str_no_nul [simp]: "no_nul s \<Longrightarrow> c_str s = s"
  by (induction s) (auto simp: c_str_def no_nul_def)

lemma no_nul_c_str [simp]: "no_nul (c_str s)"
  by (auto simp: c_str_def no_nul_def dest: set_takeWhileD)

lemma char_at_append:
  "i = length xs \<Longrightarrow> char_at (xs @ c # ys) i = c"
  by (simp add: char_at_def nth_append)

section \<open>Ordered maps\<close>

text \<open>
  A \<open>std::map\<close> is an association list whose keys are strictly ascending; a loop over the map
  visits the list in order. \<open>omap_insert\<close> is \<open>m[k] = v\<close>, \<open>omap_emplace\<close> is \<open>m.emplace(k, v)\<close>,
  which leaves a present key alone, and \<open>omap_map\<close> is a loop that assigns \<open>entry.second\<close>.
\<close>

type_synonym ('k, 'v) omap = "('k \<times> 'v) list"

abbreviation omap_ok :: "('k::linorder, 'v) omap \<Rightarrow> bool" where
  "omap_ok m \<equiv> sorted_wrt (<) (map fst m)"

fun omap_insert :: "'k::linorder \<Rightarrow> 'v \<Rightarrow> ('k, 'v) omap \<Rightarrow> ('k, 'v) omap" where
  "omap_insert k v [] = [(k, v)]"
| "omap_insert k v ((l, u) # m) =
     (if k < l then (k, v) # (l, u) # m
      else if l < k then (l, u) # omap_insert k v m
      else (k, v) # m)"

definition omap_emplace :: "'k::linorder \<Rightarrow> 'v \<Rightarrow> ('k, 'v) omap \<Rightarrow> ('k, 'v) omap" where
  "omap_emplace k v m = (if map_of m k = None then omap_insert k v m else m)"

definition omap_map :: "('k \<Rightarrow> 'v \<Rightarrow> 'v) \<Rightarrow> ('k, 'v) omap \<Rightarrow> ('k, 'v) omap" where
  "omap_map f m = map (\<lambda>(k, v). (k, f k v)) m"

lemma set_fst_omap_insert: "fst ` set (omap_insert k v m) = insert k (fst ` set m)"
proof (induction k v m rule: omap_insert.induct)
  case (1 k v)
  then show ?case by simp
next
  case (2 k v l u m)
  then show ?case by (cases k l rule: linorder_cases) (simp_all add: insert_commute)
qed

lemma omap_ok_insert [simp, intro]: "omap_ok m \<Longrightarrow> omap_ok (omap_insert k v m)"
proof (induction m)
  case Nil
  then show ?case by simp
next
  case (Cons p m)
  obtain l u where p: "p = (l, u)" by (cases p)
  show ?case
    using Cons set_fst_omap_insert [of k v m] unfolding p by (fastforce simp: not_less)
qed

lemma map_of_omap_insert [simp]:
  "map_of (omap_insert k v m) = (map_of m)(k \<mapsto> v)" if "omap_ok m"
  using that
proof (induction m)
  case Nil
  then show ?case by simp
next
  case (Cons p m)
  obtain l u where p: "p = (l, u)" by (cases p)
  show ?case
    using Cons unfolding p by (auto simp: not_less fun_eq_iff)
qed

lemma omap_ok_emplace [simp, intro]: "omap_ok m \<Longrightarrow> omap_ok (omap_emplace k v m)"
  by (simp add: omap_emplace_def)

lemma map_of_omap_emplace:
  "omap_ok m \<Longrightarrow> map_of (omap_emplace k v m) =
     (case map_of m k of None \<Rightarrow> (map_of m)(k \<mapsto> v) | Some _ \<Rightarrow> map_of m)"
  by (auto simp: omap_emplace_def split: option.split)

lemma omap_ok_map [simp]: "omap_ok (omap_map f m) = omap_ok m"
  by (simp add: omap_map_def o_def case_prod_unfold)

lemma map_of_omap_map: "map_of (omap_map f m) k = map_option (f k) (map_of m k)"
  by (induction m) (auto simp: omap_map_def)

lemma omap_ok_distinct: "omap_ok m \<Longrightarrow> distinct (map fst m)"
  by (induction m) auto

lemma map_of_omap_iff: "omap_ok m \<Longrightarrow> (map_of m k = Some v) = ((k, v) \<in> set m)"
  by (simp add: omap_ok_distinct)

lemma omap_eqI:
  "omap_ok m \<Longrightarrow> omap_ok n \<Longrightarrow> map_of m = map_of n \<Longrightarrow> m = n"
proof (induction m arbitrary: n)
  case Nil
  then show ?case by (cases n) (auto simp: fun_eq_iff split: if_splits)
next
  case (Cons p m)
  obtain k v where p: "p = (k, v)" by (cases p)
  have hd: "map_of n k = Some v" using fun_cong [OF Cons.prems(3), of k] p by simp
  then obtain l u n' where n: "n = (l, u) # n'" by (cases n) auto
  have below: "x \<in> fst ` set m \<Longrightarrow> k < x" "y \<in> fst ` set n' \<Longrightarrow> l < y" for x y
    using Cons.prems(1,2) p n by auto
  have "l = k"
  proof (rule ccontr)
    assume ne: "l \<noteq> k"
    then have "k \<in> fst ` set n'" using hd n
      by (auto split: if_splits dest: map_of_SomeD intro: rev_image_eqI)
    then have "l < k" using below by blast
    moreover have "map_of (p # m) l = Some u" using fun_cong [OF Cons.prems(3), of l] n by simp
    then have "l \<in> fst ` set m" using ne p
      by (auto split: if_splits dest: map_of_SomeD intro: rev_image_eqI)
    then have "k < l" using below by blast
    ultimately show False by simp
  qed
  moreover have "map_of m = map_of n'"
  proof
    fix x
    have "map_of m k = None" "map_of n' k = None"
      using below \<open>l = k\<close> by (auto simp: map_of_eq_None_iff)
    then show "map_of m x = map_of n' x"
      using fun_cong [OF Cons.prems(3), of x] p n \<open>l = k\<close> by (cases "x = k") simp_all
  qed
  ultimately show ?case
    using Cons.IH [of n'] Cons.prems(1,2) hd p n by auto
qed

end
