(* ===== verification/Reg_Data.thy ===== *)
theory Reg_Data
  imports Prelude
begin

text \<open>
  The plain data the components exchange: registration states, charging addresses,
  authentication vectors, server capabilities and the status a store operation returns
  (\<open>include/reg_state.h\<close>, \<open>include/charging_addresses.h\<close>, \<open>include/authvector.h\<close>,
  \<open>include/servercapabilities.h\<close>; \<open>Store::Status\<close> as \<open>include/hss_cache.h\<close> and its users name it),
  and the sequence of calls made on a rapidjson writer.
\<close>

section \<open>Registration state and store status\<close>

datatype RegistrationState =
  REGISTERED | UNREGISTERED | NOT_REGISTERED | REG_UNCHANGED | REG_UNKNOWN

datatype status = OK | NOT_FOUND | DATA_CONTENTION | ERROR

type_synonym cas = "64 word"

section \<open>Charging addresses\<close>

record ChargingAddresses =
  ccfs :: "string list"
  ecfs :: "string list"

definition no_charging :: ChargingAddresses where
  "no_charging = \<lparr>ccfs = [], ecfs = []\<rparr>"

definition charging_empty :: "ChargingAddresses \<Rightarrow> bool" where
  "charging_empty a \<longleftrightarrow> ccfs a = [] \<and> ecfs a = []"

text \<open>
  \<open>ChargingAddresses::log_string\<close>. The indexed reads are under the size tests of the source.
\<close>

definition log_string :: "ChargingAddresses \<Rightarrow> string" where
  "log_string a =
     (case ccfs a of
        [] \<Rightarrow> ''''
      | c # cs \<Rightarrow> ''Primary CCF: '' @ c @
          (case cs of [] \<Rightarrow> '''' | c' # _ \<Rightarrow> '', Secondary CCF: '' @ c')) @
     (case ecfs a of
        [] \<Rightarrow> ''''
      | e # es \<Rightarrow> (if ccfs a \<noteq> [] then '', '' else '''') @ ''Primary ECF: '' @ e @
          (case es of [] \<Rightarrow> '''' | e' # _ \<Rightarrow> '', Secondary ECF: '' @ e'))"

section \<open>Authentication vectors\<close>

record DigestAuthVector =
  ha1 :: string
  realm :: string
  qop :: string

record AKAAuthVector =
  challenge :: string
  response :: string
  crypt_key :: string
  integrity_key :: string
  version :: int

text \<open>
  An \<open>AuthVector*\<close> held by an answer: a null pointer or one of the two subclasses.
\<close>

datatype AuthVector = DigestAV DigestAuthVector | AKAAV AKAAuthVector

definition new_DigestAuthVector :: DigestAuthVector where
  "new_DigestAuthVector = \<lparr>ha1 = '''', realm = '''', qop = ''''\<rparr>"

definition new_AKAAuthVector :: AKAAuthVector where
  "new_AKAAuthVector =
     \<lparr>challenge = '''', response = '''', crypt_key = '''', integrity_key = '''', version = 1\<rparr>"

section \<open>JSON writer calls and server capabilities\<close>

text \<open>
  What the program asks of a \<open>rapidjson::Writer\<close>, call by call. The text the writer makes of the
  calls is the library's business and a parameter of the model.
\<close>

datatype jevent =
    JStartObject | JEndObject | JStartArray | JEndArray
  | JString string | JBool bool | JInt int | JInt64 int

record ServerCapabilities =
  mandatory_capabilities :: "int list"
  optional_capabilities :: "int list"
  cap_server_name :: string

definition no_capabilities :: ServerCapabilities where
  "no_capabilities =
     \<lparr>mandatory_capabilities = [], optional_capabilities = [], cap_server_name = ''''\<rparr>"

definition JSON_MAN_CAP :: string where "JSON_MAN_CAP = ''mandatory-capabilities''"
definition JSON_OPT_CAP :: string where "JSON_OPT_CAP = ''optional-capabilities''"

definition write_capabilities :: "ServerCapabilities \<Rightarrow> jevent list" where
  "write_capabilities c =
     [JString JSON_MAN_CAP, JStartArray] @ map JInt (mandatory_capabilities c) @ [JEndArray] @
     [JString JSON_OPT_CAP, JStartArray] @ map JInt (optional_capabilities c) @ [JEndArray]"

end
