(* ===== verification/External.thy ===== *)
theory External
  imports Reg_Data
begin

text \<open>
  The code the program calls but the repository does not hold: the memcached-backed
  \<open>Store\<close> of cpp-common, the clock, LZ4, rapidjson and cpp-common's \<open>json_parse_utils.h\<close>. Each is
  a field of a record that the definitions take as an argument. The state \<open>'w\<close> is the world
  outside the process (the stores and the clock); every call maps a world to a result and a
  world, so the contents may change between calls, as they do when other nodes write. The
  predicates at the end state the documented behaviour that some theorems rely on.
\<close>

section \<open>The data store\<close>

text \<open>
  \<open>Store::get_data\<close>, \<open>set_data\<close>, \<open>set_data_without_cas\<close> and \<open>delete_data\<close> on a table and a key.
  The arguments for logging and formatting are left out.
\<close>

record 'w store_api =
  get_data :: "string \<Rightarrow> string \<Rightarrow> 'w \<Rightarrow> (status \<times> string \<times> cas) \<times> 'w"
  set_data :: "string \<Rightarrow> string \<Rightarrow> string \<Rightarrow> cas \<Rightarrow> int \<Rightarrow> 'w \<Rightarrow> status \<times> 'w"
  set_data_without_cas :: "string \<Rightarrow> string \<Rightarrow> string \<Rightarrow> int \<Rightarrow> 'w \<Rightarrow> status \<times> 'w"
  delete_data :: "string \<Rightarrow> string \<Rightarrow> 'w \<Rightarrow> status \<times> 'w"

section \<open>The libraries\<close>

text \<open>
  \<open>time0\<close> is \<open>time(0)\<close>. \<open>lz4_compress dict data n\<close> is \<open>LZ4_compress_fast_continue\<close> on a stream
  preloaded with \<open>dict\<close> and a buffer of \<open>n\<close> bytes: its return value and the bytes written.
  \<open>lz4_decompress dict data n\<close> is \<open>LZ4_decompress_safe_usingDict\<close> with a target of \<open>n\<close> bytes.
  \<open>json_write\<close> is the text a \<open>rapidjson::Writer\<close> makes of a sequence of calls, \<open>json_parse\<close> is
  \<open>Document::Parse\<close> (\<open>None\<close> on a parse error) into a document of type \<open>'j\<close>, and the other
  fields are the accessors of the document and the macros and helpers of
  \<open>json_parse_utils.h\<close>: the \<open>SAFE\<close> macros take the value their target had before, and
  \<open>json_get_bool\<close> is the value \<open>JSON_GET_BOOL_MEMBER\<close> leaves in its target.
\<close>

record ('w, 'j) ext =
  time0 :: "'w \<Rightarrow> int \<times> 'w"
  lz4_compress :: "string \<Rightarrow> string \<Rightarrow> nat \<Rightarrow> int \<times> string"
  lz4_decompress :: "string \<Rightarrow> string \<Rightarrow> nat \<Rightarrow> int \<times> string"
  json_write :: "jevent list \<Rightarrow> string"
  json_parse :: "string \<Rightarrow> 'j option"
  json_is_object :: "'j \<Rightarrow> bool"
  json_has_member :: "'j \<Rightarrow> string \<Rightarrow> bool"
  json_string_member :: "'j \<Rightarrow> string \<Rightarrow> string option"
  json_safe_get_string :: "'j \<Rightarrow> string \<Rightarrow> string \<Rightarrow> string"
  json_safe_get_int64 :: "'j \<Rightarrow> string \<Rightarrow> int \<Rightarrow> int"
  json_get_bool :: "'j \<Rightarrow> string \<Rightarrow> bool"
  extract_json_string_array :: "'j \<Rightarrow> string \<Rightarrow> string list"
  write_json_string_array :: "string \<Rightarrow> string list \<Rightarrow> jevent list"

section \<open>Documented behaviour\<close>

text \<open>
  JSON: an object written member by member, with distinct keys, parses back to an object with
  these members.
\<close>

datatype jvalue = VStr string | VBool bool | VInt int | VArr "string list"

fun jvalue_ok :: "jvalue \<Rightarrow> bool" where
  "jvalue_ok (VStr s) = no_nul s"
| "jvalue_ok (VBool b) = True"
| "jvalue_ok (VInt i) = (- 9223372036854775808 \<le> i \<and> i < 9223372036854775808)"
| "jvalue_ok (VArr ss) = list_all no_nul ss"

fun member_events :: "('w, 'j) ext \<Rightarrow> string \<times> jvalue \<Rightarrow> jevent list" where
  "member_events E (k, VStr s) = [JString k, JString s]"
| "member_events E (k, VBool b) = [JString k, JBool b]"
| "member_events E (k, VInt i) = [JString k, JInt64 i]"
| "member_events E (k, VArr ss) = write_json_string_array E k ss"

definition object_events :: "('w, 'j) ext \<Rightarrow> (string \<times> jvalue) list \<Rightarrow> jevent list" where
  "object_events E ms = JStartObject # concat (map (member_events E) ms) @ [JEndObject]"

definition members_ok :: "(string \<times> jvalue) list \<Rightarrow> bool" where
  "members_ok ms \<longleftrightarrow> distinct (map fst ms) \<and> (\<forall>(k, v) \<in> set ms. no_nul k \<and> jvalue_ok v)"

definition json_reads :: "('w, 'j) ext \<Rightarrow> (string \<times> jvalue) list \<Rightarrow> 'j \<Rightarrow> bool" where
  "json_reads E ms j \<longleftrightarrow>
     json_is_object E j \<and>
     (\<forall>k. json_has_member E j k \<longleftrightarrow> k \<in> fst ` set ms) \<and>
     (\<forall>k. json_string_member E j k =
        (case map_of ms k of Some (VStr s) \<Rightarrow> Some s | _ \<Rightarrow> None)) \<and>
     (\<forall>k d. json_safe_get_string E j k d =
        (case map_of ms k of Some (VStr s) \<Rightarrow> s | _ \<Rightarrow> d)) \<and>
     (\<forall>k d. json_safe_get_int64 E j k d =
        (case map_of ms k of Some (VInt i) \<Rightarrow> i | _ \<Rightarrow> d)) \<and>
     (\<forall>k b. map_of ms k = Some (VBool b) \<longrightarrow> json_get_bool E j k = b) \<and>
     (\<forall>k ss. map_of ms k = Some (VArr ss) \<longrightarrow> extract_json_string_array E j k = ss)"

definition json_contract :: "('w, 'j) ext \<Rightarrow> bool" where
  "json_contract E \<longleftrightarrow>
     (\<forall>ms. members_ok ms \<longrightarrow>
        no_nul (json_write E (object_events E ms)) \<and>
        json_write E (object_events E ms) \<noteq> [] \<and>
        (\<exists>j. json_parse E (json_write E (object_events E ms)) = Some j \<and> json_reads E ms j))"

text \<open>
  LZ4: a compressor that reports success wrote that many bytes, at least one, and decompressing
  them with the same dictionary into a target of the original size gives the original back.
\<close>

definition lz4_contract :: "('w, 'j) ext \<Rightarrow> bool" where
  "lz4_contract E \<longleftrightarrow>
     (\<forall>dict data n. data \<noteq> [] \<longrightarrow> fst (lz4_compress E dict data n) \<noteq> 0 \<longrightarrow>
        fst (lz4_compress E dict data n) = int (length (snd (lz4_compress E dict data n))) \<and>
        lz4_decompress E dict (snd (lz4_compress E dict data n)) (length data) =
          (int (length data), data))"

definition codec_contract :: "('w, 'j) ext \<Rightarrow> bool" where
  "codec_contract E \<longleftrightarrow> json_contract E \<and> lz4_contract E"

lemma json_contractD:
  "json_contract E \<Longrightarrow> members_ok ms \<Longrightarrow>
     no_nul (json_write E (object_events E ms)) \<and> json_write E (object_events E ms) \<noteq> [] \<and>
     (\<exists>j. json_parse E (json_write E (object_events E ms)) = Some j \<and> json_reads E ms j)"
  by (simp add: json_contract_def)

lemma lz4_contractD:
  assumes "lz4_contract E" and "data \<noteq> []" and "lz4_compress E dict data n = (c, out)" and "c \<noteq> 0"
  shows "c = int (length out)"
    and "lz4_decompress E dict out (length data) = (int (length data), data)"
  using assms unfolding lz4_contract_def by (metis fst_conv snd_conv)+

end
