(* ===== verification/Varbyte.thy ===== *)
theory Varbyte
  imports Prelude
begin

text \<open>
  The variable-length size prefix of a stored IMPU record: \<open>encode_varbyte\<close> and
  \<open>decode_varbyte\<close> of \<open>src/impu_store.cpp\<close>, on 64-bit words and with the 32-bit \<open>int\<close>
  arithmetic of the decoder's shift. The round trip holds for every size below \<open>INT_MAX\<close>; the
  decoder never returns \<open>INT_MAX\<close> or more, never reads past the end of the buffer, and reports
  corrupt data as zero.
\<close>

unbundle bit_operations_syntax

section \<open>Model\<close>

definition INT_MAX :: "64 word" where
  "INT_MAX = 2147483647"

lemma drop_bit_7_less: "n \<noteq> 0 \<Longrightarrow> unat (drop_bit 7 n) < unat n" for n :: "64 word"
  by (simp add: drop_bit_eq_div unat_div_distrib unat_gt_0)

text \<open>\<open>encode_varbyte(uncomp_size, data)\<close> appends to \<open>data\<close>, seven bits at a time.\<close>

function encode_varbyte :: "64 word \<Rightarrow> string \<Rightarrow> string" where
  "encode_varbyte uncomp_size data =
     (if uncomp_size \<noteq> 0 then
        let size_byte = uncomp_size AND 0x7f;
            uncomp_size' = drop_bit 7 uncomp_size;
            size_byte' = (if uncomp_size' > 0 then size_byte OR 0x80 else size_byte)
        in encode_varbyte uncomp_size' (data @ [char_of (unat size_byte')])
      else data)"
  by pat_completeness auto
termination
  by (relation "measure (\<lambda>(n, data). unat n)") (simp_all add: drop_bit_7_less)

text \<open>
  In \<open>length |= (bits << (7*i))\<close> the left operand of the shift is promoted to \<open>int\<close>: the shift
  is 32 bits wide and its result is sign-extended to 64 bits. A shift count of 32 or more is
  undefined in C++; the model takes the count modulo 32, as the target's shift instruction
  does. No encoded size reaches that case.
\<close>

definition shl_int :: "32 word \<Rightarrow> nat \<Rightarrow> 32 word" where
  "shl_int x n = push_bit (n mod 32) x"

function decode_loop :: "string \<Rightarrow> nat \<Rightarrow> nat \<Rightarrow> 64 word \<Rightarrow> bool \<times> 64 word \<times> nat" where
  "decode_loop data offset i len =
     (let byte = (word_of_nat (of_char (char_at data offset)) :: 32 word);
          bits = byte AND 0x7f;
          len' = len OR scast (shl_int bits (7 * i));
          finished = (byte AND 0x80 = 0);
          offset' = offset + 1
      in if \<not> finished \<and> len' < INT_MAX \<and> offset' < length data
         then decode_loop data offset' (i + 1) len'
         else (finished, len', offset'))"
  by pat_completeness auto
termination
  by (relation "measure (\<lambda>(data, offset, i, len). length data - offset)") auto

definition decode_varbyte :: "string \<Rightarrow> nat \<Rightarrow> 64 word \<times> nat" where
  "decode_varbyte data offset =
     (let (finished, len, offset') = decode_loop data offset 0 0
      in if \<not> finished \<or> len \<ge> INT_MAX then (0, offset') else (len, offset'))"

declare encode_varbyte.simps [simp del] decode_loop.simps [simp del]

section \<open>Bit-level lemmas\<close>

lemma or_step: "take_bit m N OR push_bit m (take_bit 7 (drop_bit m N)) = take_bit (m + 7) N" for N :: "64 word"
  by (rule bit_eqI) (auto simp: bit_simps)

lemma high_bits: "\<not> bit N k" if "unat N < 2147483648" "31 \<le> k" for N :: "64 word"
proof -
  have "unat (take_bit 31 N) = unat N"
    using that(1) by (simp add: unsigned_take_bit_eq take_bit_nat_eq_self)
  then have "take_bit 31 N = N" by (simp add: word_unat_eq_iff)
  then have "bit N k = bit (take_bit 31 N) k" by simp
  with that(2) show ?thesis by (simp add: bit_take_bit_iff)
qed

lemma byte_bits: "(word_of_nat (of_char (char_of (unat sb))) :: 32 word) = ucast sb" if "unat sb < 256" for sb :: "64 word"
  using that by (simp add: of_char_of)

lemma shl_piece:
  fixes N :: "64 word"
  assumes "unat N < 2147483648" and "7 * i < 32"
  shows "scast (shl_int (ucast (drop_bit (7 * i) N AND 0x7f)) (7 * i)) =
    push_bit (7 * i) (take_bit 7 (drop_bit (7 * i) N))"
proof -
  have m: "drop_bit (7 * i) N AND 0x7f = take_bit 7 (drop_bit (7 * i) N)"
    by (simp add: take_bit_eq_mask mask_eq_decr_exp)
  show ?thesis
    unfolding m shl_int_def using assms(2) high_bits [OF assms(1)]
    by (intro bit_eqI) (auto simp: bit_simps min_def split: if_splits)
qed

definition var_byte :: "64 word \<Rightarrow> char" where
  "var_byte n = char_of (unat (if drop_bit 7 n > 0 then n AND 0x7f OR 0x80 else n AND 0x7f))"

lemma encode_varbyte_step:
  "encode_varbyte n data = (if n \<noteq> 0 then encode_varbyte (drop_bit 7 n) (data @ [var_byte n]) else data)"
  by (subst encode_varbyte.simps) (simp add: var_byte_def Let_def)

lemma encode_varbyte_prefix: "encode_varbyte n (xs @ data) = xs @ encode_varbyte n data"
proof (induction n data rule: encode_varbyte.induct)
  case (1 n data)
  show ?case
  proof (cases "n = 0")
    case True
    then show ?thesis by (simp add: encode_varbyte_step)
  next
    case False
    with "1.IH" have "encode_varbyte (drop_bit 7 n) (xs @ data @ [var_byte n]) =
        xs @ encode_varbyte (drop_bit 7 n) (data @ [var_byte n])"
      by (simp add: var_byte_def)
    with False show ?thesis
      by (simp add: encode_varbyte_step [of n data] encode_varbyte_step [of n "xs @ data"])
  qed
qed

lemma encode_varbyte_append: "encode_varbyte n data = data @ encode_varbyte n []"
  using encode_varbyte_prefix [of n data "[]"] by simp

lemma encode_varbyte_Nil:
  "encode_varbyte n [] = (if n \<noteq> 0 then var_byte n # encode_varbyte (drop_bit 7 n) [] else [])"
  using encode_varbyte_step [of n "[]"] encode_varbyte_append [of "drop_bit 7 n" "[var_byte n]"]
  by simp

lemma w7f: "(0x7f :: 'a::len word) = mask 7"
  by (simp add: mask_eq_decr_exp)

lemma bit_128: "bit (0x80 :: int) k = (k = 7)"
  using bit_exp_iff [of 7 k, where ?'a = int] by auto

lemma and_w80: "(x AND 0x80 = 0) = (\<not> bit x 7)" for x :: "'a::len word"
  using and_exp_eq_0_iff_not_bit [of x 7] by simp

lemma var_byte_value:
  "(word_of_nat (of_char (var_byte n)) :: 32 word) =
     ucast (if drop_bit 7 n > 0 then n AND 0x7f OR 0x80 else n AND 0x7f)"
proof -
  let ?b = "if drop_bit 7 n > 0 then n AND 0x7f OR 0x80 else n AND 0x7f"
  have "?b = take_bit 8 ?b"
    unfolding w7f by (rule bit_eqI) (auto simp: bit_simps bit_128)
  from arg_cong [OF this, of unat] have "unat ?b = take_bit 8 (unat ?b)"
    by (simp only: unsigned_take_bit_eq)
  then have "unat ?b mod 256 = unat ?b"
    by (simp add: take_bit_eq_mod)
  then show ?thesis
    by (simp add: var_byte_def of_char_of)
qed

lemma var_byte_bits:
  "(word_of_nat (of_char (var_byte n)) :: 32 word) AND 0x7f = ucast (n AND 0x7f)"
  unfolding var_byte_value w7f
  by (rule bit_eqI) (auto simp: bit_simps bit_128)

lemma var_byte_more:
  "((word_of_nat (of_char (var_byte n)) :: 32 word) AND 0x80 = 0) = (drop_bit 7 n = 0)"
  unfolding var_byte_value w7f and_w80
  by (simp add: bit_simps bit_128 word_gt_0)

lemma unat_take_bit_le: "unat (take_bit m N) \<le> unat N" for N :: "64 word"
  by (simp add: unsigned_take_bit_eq take_bit_nat_less_eq_self)

lemma take_bit_all: "drop_bit m N = 0 \<Longrightarrow> take_bit m N = N" for N :: "64 word"
  by (metis bits_ident add.left_neutral push_bit_of_0)

lemma decode_loop_encode:
  fixes N :: "64 word"
  assumes "N < INT_MAX" and "drop_bit (7 * i) N \<noteq> 0"
  shows "decode_loop (pre @ encode_varbyte (drop_bit (7 * i) N) [] @ rest) (length pre) i (take_bit (7 * i) N) =
    (True, N, length pre + length (encode_varbyte (drop_bit (7 * i) N) []))"
  using assms(2)
proof (induction "unat (drop_bit (7 * i) N)" arbitrary: i pre rule: less_induct)
  case less
  let ?n = "drop_bit (7 * i) N"
  let ?b = "word_of_nat (of_char (var_byte ?n)) :: 32 word"
  have nxt: "drop_bit 7 ?n = drop_bit (7 * Suc i) N"
    by (simp add: drop_bit_drop_bit add.commute)
  have enc: "encode_varbyte ?n [] = var_byte ?n # encode_varbyte (drop_bit (7 * Suc i) N) []"
    using less.prems encode_varbyte_Nil [of ?n] nxt by simp
  have N: "unat N < 2147483648"
    using assms(1) by (simp add: INT_MAX_def word_less_nat_alt)
  have i: "7 * i < 32"
  proof (rule ccontr)
    assume "\<not> 7 * i < 32"
    then have "?n = 0"
      using N high_bits [of N] by (intro bit_eqI) (auto simp: bit_simps)
    with less.prems show False by simp
  qed
  have len: "take_bit (7 * i) N OR scast (shl_int (?b AND 0x7f) (7 * i)) = take_bit (7 * Suc i) N"
    using N i shl_piece [of N i] or_step [of "7 * i" N]
    by (simp add: var_byte_bits add.commute)
  show ?case
  proof (cases "drop_bit (7 * Suc i) N = 0")
    case True
    then show ?thesis
      using enc len var_byte_more [of ?n] nxt take_bit_all [OF True]
      by (subst decode_loop.simps) (simp add: char_at_append encode_varbyte_step [of 0] Let_def)
  next
    case False
    have "unat (drop_bit (7 * Suc i) N) < unat ?n"
      using drop_bit_7_less [OF less.prems] nxt by simp
    then have IH: "decode_loop ((pre @ [var_byte ?n]) @ encode_varbyte (drop_bit (7 * Suc i) N) [] @ rest)
        (length (pre @ [var_byte ?n])) (Suc i) (take_bit (7 * Suc i) N) =
      (True, N, length (pre @ [var_byte ?n]) + length (encode_varbyte (drop_bit (7 * Suc i) N) []))"
      using False by (rule less.hyps)
    have "take_bit (7 * Suc i) N < INT_MAX"
      using assms(1) unat_take_bit_le [of "7 * Suc i" N]
      by (simp only: word_less_nat_alt le_less_trans)
    moreover have "encode_varbyte (drop_bit (7 * Suc i) N) [] \<noteq> []"
      using False encode_varbyte_Nil [of "drop_bit (7 * Suc i) N"] by simp
    ultimately show ?thesis
      using IH False enc len var_byte_more [of ?n] nxt
      by (subst decode_loop.simps) (simp add: char_at_append Let_def)
  qed
qed

section \<open>Correctness\<close>

lemma decode_encode_varbyte:
  assumes "n \<noteq> 0" and "n < INT_MAX"
  shows "decode_varbyte (encode_varbyte n pre @ rest) (length pre) =
    (n, length (encode_varbyte n pre))"
  using assms decode_loop_encode [of n 0 pre rest] encode_varbyte_append [of n pre]
  by (simp add: decode_varbyte_def)

lemma encode_varbyte_length: "unat n < 2 ^ (7 * k) \<Longrightarrow> length (encode_varbyte n []) \<le> k"
proof (induction k arbitrary: n)
  case 0
  then show ?case by (simp add: encode_varbyte_step [of 0] unat_eq_0)
next
  case (Suc k)
  have "unat (drop_bit 7 n) < 2 ^ (7 * k)"
    using Suc.prems
    by (simp add: drop_bit_eq_div unat_div_distrib less_mult_imp_div_less power_add mult.commute)
  then show ?case
    using Suc.IH [of "drop_bit 7 n"] encode_varbyte_Nil [of n] by auto
qed

lemma decode_loop_offset:
  "case decode_loop data offset i len of (f, l, offset') \<Rightarrow>
     offset < offset' \<and> offset' \<le> max (offset + 1) (length data)"
proof (induction data offset i len rule: decode_loop.induct)
  case (1 data offset i len)
  note IH = "1.IH" [OF refl refl refl refl refl]
  show ?case
    using IH
    by (subst decode_loop.simps, simp only: Let_def split: if_split) (fastforce split: prod.splits)
qed

text \<open>
  A size from 1 to \<open>INT_MAX - 1\<close>, appended by \<open>encode_varbyte\<close> to any data and followed by any
  data, is read back by \<open>decode_varbyte\<close> at its position, which leaves the offset at the first byte
  behind it; the encoding takes at most five bytes.
\<close>

theorem varbyte_roundtrip:
  assumes "n \<noteq> 0" and "n < INT_MAX"
  shows "decode_varbyte (encode_varbyte n pre @ rest) (length pre) =
      (n, length (encode_varbyte n pre)) \<and>
    length (encode_varbyte n pre) \<le> length pre + 5"
proof -
  have "unat n < 2 ^ (7 * 5)"
    using assms(2) by (simp add: INT_MAX_def word_less_nat_alt)
  then show ?thesis
    using decode_encode_varbyte [OF assms, of pre rest] encode_varbyte_length [of n 5]
      arg_cong [OF encode_varbyte_append [of n pre], of length]
    by simp
qed

theorem varbyte_roundtrip_witness:
  "decode_varbyte (encode_varbyte 300 [NUL] @ ''json'') (length [NUL]) =
      (300, length (encode_varbyte 300 [NUL])) \<and>
    length (encode_varbyte 300 [NUL]) \<le> length [NUL] + 5"
  by (rule varbyte_roundtrip) (simp_all add: INT_MAX_def)


end
