(* ===== verification/Impu_Record.thy ===== *)
theory Impu_Record
  imports External Varbyte
begin

text \<open>
  The records kept in the IMPU store and their stored form: the classes \<open>Impu\<close>,
  \<open>DefaultImpu\<close>, \<open>AssociatedImpu\<close> and \<open>ImpiMapping\<close> of \<open>include/impu_store.h\<close> and their JSON
  and LZ4 encoding in \<open>src/impu_store.cpp\<close>. The main results are the round trips: what
  \<open>to_data\<close> writes, \<open>from_data\<close> reads back, for the registration states a record can hold.
\<close>

section \<open>The record classes\<close>

text \<open>
  The \<open>store\<close> pointer of a record is the number of the store it was read from, \<open>None\<close> for a
  null pointer.
\<close>

record impu_base =
  i_impu :: string
  i_cas :: cas
  i_expiry :: int
  i_store :: "nat option"

record default_impu = impu_base +
  d_registration_state :: RegistrationState
  d_charging_addresses :: ChargingAddresses
  d_associated_impus :: "string list"
  d_impis :: "string list"
  d_service_profile :: string

record associated_impu = impu_base +
  a_default_impu :: string

datatype Impu = DefaultImpu default_impu | AssociatedImpu associated_impu

fun is_default_impu :: "Impu \<Rightarrow> bool" where
  "is_default_impu (DefaultImpu _) = True"
| "is_default_impu (AssociatedImpu _) = False"

fun impu_key :: "Impu \<Rightarrow> string" where
  "impu_key (DefaultImpu d) = i_impu d"
| "impu_key (AssociatedImpu a) = i_impu a"

fun impu_cas :: "Impu \<Rightarrow> cas" where
  "impu_cas (DefaultImpu d) = i_cas d"
| "impu_cas (AssociatedImpu a) = i_cas a"

fun impu_expiry :: "Impu \<Rightarrow> int" where
  "impu_expiry (DefaultImpu d) = i_expiry d"
| "impu_expiry (AssociatedImpu a) = i_expiry a"

fun impu_store_of :: "Impu \<Rightarrow> nat option" where
  "impu_store_of (DefaultImpu d) = i_store d"
| "impu_store_of (AssociatedImpu a) = i_store a"

definition has_associated_impu :: "default_impu \<Rightarrow> string \<Rightarrow> bool" where
  "has_associated_impu d impu \<longleftrightarrow> impu \<in> set (d_associated_impus d)"

record impi_mapping =
  p_impi :: string
  p_cas :: cas
  p_expiry :: int
  p_default_impus :: "string list"

definition new_ImpiMapping :: "string \<Rightarrow> string \<Rightarrow> int \<Rightarrow> impi_mapping" where
  "new_ImpiMapping impi impu expiry =
     \<lparr>p_impi = impi, p_cas = 0, p_expiry = expiry, p_default_impus = [impu]\<rparr>"

definition add_default_impu :: "string \<Rightarrow> impi_mapping \<Rightarrow> impi_mapping" where
  "add_default_impu impu m = m\<lparr>p_default_impus := p_default_impus m @ [impu]\<rparr>"

definition has_default_impu :: "impi_mapping \<Rightarrow> string \<Rightarrow> bool" where
  "has_default_impu m impu \<longleftrightarrow> impu \<in> set (p_default_impus m)"

definition remove_default_impu :: "string \<Rightarrow> impi_mapping \<Rightarrow> impi_mapping" where
  "remove_default_impu impu m = m\<lparr>p_default_impus := filter (\<lambda>x. x \<noteq> impu) (p_default_impus m)\<rparr>"

definition mapping_is_empty :: "impi_mapping \<Rightarrow> bool" where
  "mapping_is_empty m \<longleftrightarrow> length (p_default_impus m) = 0"

definition set_expiry :: "int \<Rightarrow> impi_mapping \<Rightarrow> impi_mapping" where
  "set_expiry expiry m = m\<lparr>p_expiry := expiry\<rparr>"

section \<open>JSON\<close>

definition JSON_EXPIRY :: string where "JSON_EXPIRY = ''expiry''"
definition JSON_DEFAULT_IMPU :: string where "JSON_DEFAULT_IMPU = ''default_impu''"
definition JSON_ASSOCIATED_IMPUS :: string where "JSON_ASSOCIATED_IMPUS = ''assoc_impu''"
definition JSON_SERVICE_PROFILE :: string where "JSON_SERVICE_PROFILE = ''service_profile''"
definition JSON_REGISTRATION_STATE :: string where "JSON_REGISTRATION_STATE = ''registration_state''"
definition JSON_IMPIS :: string where "JSON_IMPIS = ''impis''"
definition JSON_CCFS :: string where "JSON_CCFS = ''ccfs''"
definition JSON_ECFS :: string where "JSON_ECFS = ''ecfs''"
definition JSON_DEFAULT_IMPUS :: string where "JSON_DEFAULT_IMPUS = ''default_impus''"

lemmas json_names = JSON_EXPIRY_def JSON_DEFAULT_IMPU_def JSON_ASSOCIATED_IMPUS_def
  JSON_SERVICE_PROFILE_def JSON_REGISTRATION_STATE_def JSON_IMPIS_def JSON_CCFS_def
  JSON_ECFS_def JSON_DEFAULT_IMPUS_def

definition write_json_default :: "('w, 'j) ext \<Rightarrow> default_impu \<Rightarrow> jevent list" where
  "write_json_default E d =
     (let state = (if d_registration_state d = REGISTERED then True
                   else if d_registration_state d = UNREGISTERED then False
                   else False)
      in [JString JSON_REGISTRATION_STATE, JBool state,
          JString JSON_SERVICE_PROFILE, JString (c_str (d_service_profile d)),
          JString JSON_EXPIRY, JInt64 (i_expiry d)] @
         write_json_string_array E JSON_ASSOCIATED_IMPUS (d_associated_impus d) @
         write_json_string_array E JSON_IMPIS (d_impis d) @
         write_json_string_array E JSON_ECFS (ecfs (d_charging_addresses d)) @
         write_json_string_array E JSON_CCFS (ccfs (d_charging_addresses d)))"

definition write_json_associated :: "associated_impu \<Rightarrow> jevent list" where
  "write_json_associated a =
     [JString JSON_DEFAULT_IMPU, JString (c_str (a_default_impu a)),
      JString JSON_EXPIRY, JInt64 (i_expiry a)]"

fun write_json :: "('w, 'j) ext \<Rightarrow> Impu \<Rightarrow> jevent list" where
  "write_json E (DefaultImpu d) = write_json_default E d"
| "write_json E (AssociatedImpu a) = write_json_associated a"

definition from_json_associated ::
  "('w, 'j) ext \<Rightarrow> string \<Rightarrow> 'j \<Rightarrow> cas \<Rightarrow> nat option \<Rightarrow> Impu" where
  "from_json_associated E impu json cas st =
     (let default_impu = json_safe_get_string E json JSON_DEFAULT_IMPU '''';
          expiry = json_safe_get_int64 E json JSON_EXPIRY 0
      in AssociatedImpu \<lparr>i_impu = impu, i_cas = cas, i_expiry = expiry, i_store = st,
           a_default_impu = default_impu\<rparr>)"

definition from_json_default ::
  "('w, 'j) ext \<Rightarrow> string \<Rightarrow> 'j \<Rightarrow> cas \<Rightarrow> nat option \<Rightarrow> Impu" where
  "from_json_default E impu json cas st =
     (let state = json_get_bool E json JSON_REGISTRATION_STATE;
          reg_state = (if state then REGISTERED else UNREGISTERED);
          expiry = json_safe_get_int64 E json JSON_EXPIRY 0;
          service_profile = json_safe_get_string E json JSON_SERVICE_PROFILE '''';
          assoc_impus = extract_json_string_array E json JSON_ASSOCIATED_IMPUS;
          impis = extract_json_string_array E json JSON_IMPIS;
          ccfs' = extract_json_string_array E json JSON_CCFS;
          ecfs' = extract_json_string_array E json JSON_ECFS
      in DefaultImpu \<lparr>i_impu = impu, i_cas = cas, i_expiry = expiry, i_store = st,
           d_registration_state = reg_state,
           d_charging_addresses = \<lparr>ccfs = ccfs', ecfs = ecfs'\<rparr>,
           d_associated_impus = assoc_impus, d_impis = impis,
           d_service_profile = service_profile\<rparr>)"

section \<open>The stored form of an IMPU\<close>

definition dict_v0 :: string where
  \<open>dict_v0 =
     ''{"registration_state":true,"service_profile":"<IMSSubscription>'' @
     ''<PrivateID></PrivateID><ServiceProfile><PublicIdentity><Identity>'' @
     ''<Extension></Extension></PublicIdentity><IniitialFilterCriteria><Priority>'' @
     ''</Priority><TriggerPoint><ConditionTypeCNF></ConditionTypeCNF><SPT>'' @
     ''<ConditionNegated></ConditionNegated><Group></Group><Method></Method>'' @
     ''</TriggerPoint><ApplicationServer><ServerName></ServerName><DefaultHandling>'' @
     ''</DefaultHandling></ApplicationServer></InitialFilterCriteria>'' @
     ''</ServiceProfile></IMSSubscription><SIPHeader><Header></Header></SIPHeader>'' @
     ''<SessionCase></SessionCase>","expiry":,"assoc_impu":["],"impis":[],'' @
     ''"ecfs":[],"ccfs":[]}"default_impu":"''\<close>

definition MAX_BUFFER_LEN :: nat where
  "MAX_BUFFER_LEN = 131072"

text \<open>
  The loop of \<open>compress_data_v0\<close>: the buffer is doubled while the compressor reports that the
  data did not fit, up to \<open>MAX_BUFFER_LEN\<close>. The stream set-up around it is part of the library
  call. The loop starts at 2048 and only doubles, so the equation for an empty buffer is never
  reached; it is there because doubling nothing makes no progress.
\<close>

function (sequential) compress_loop ::
  "('w, 'j) ext \<Rightarrow> string \<Rightarrow> nat \<Rightarrow> int \<times> string" where
  "compress_loop E data 0 = lz4_compress E dict_v0 data 0"
| "compress_loop E data buffer_length =
     (let (comp_size, buffer) = lz4_compress E dict_v0 data buffer_length
      in if comp_size \<le> 0 then
           let new_buffer_length = buffer_length * 2
           in if new_buffer_length > MAX_BUFFER_LEN then (comp_size, buffer)
              else if comp_size = 0 then compress_loop E data new_buffer_length
              else (comp_size, buffer)
         else (comp_size, buffer))"
  by pat_completeness auto
termination
  by (relation "measure (\<lambda>(E, data, n). MAX_BUFFER_LEN - n)") (auto simp: not_less)

definition compress_data_v0 :: "('w, 'j) ext \<Rightarrow> string \<Rightarrow> int \<times> string" where
  "compress_data_v0 E data = compress_loop E data 2048"

text \<open>
  \<open>Impu::to_data\<close>: the status and the string. The size is an \<open>unsigned int\<close>.
\<close>

definition to_data :: "('w, 'j) ext \<Rightarrow> Impu \<Rightarrow> status \<times> string" where
  "to_data E impu =
     (let json = c_str (json_write E (JStartObject # write_json E impu @ [JEndObject]));
          uncomp_size = (word_of_nat (length json) :: 32 word);
          (comp_size, buffer) = compress_data_v0 E json
      in if comp_size = 0 then (ERROR, '''')
         else (OK, encode_varbyte (ucast uncomp_size) [NUL] @ take (nat comp_size) buffer))"

definition from_data ::
  "('w, 'j) ext \<Rightarrow> string \<Rightarrow> string \<Rightarrow> cas \<Rightarrow> nat option \<Rightarrow> Impu option" where
  "from_data E impu data cas st =
     (if length data = 0 then None
      else if char_at data 0 = NUL then
        let (length_long, offset) = decode_varbyte data 1
        in if length_long = 0 then None
           else
             let len = unat length_long;
                 compressed = drop offset data;
                 (rc, json) = lz4_decompress E dict_v0 compressed len
             in if rc = 0 \<or> rc \<noteq> int len then None
                else case json_parse E (c_str json) of
                  None \<Rightarrow> None
                | Some doc \<Rightarrow>
                    if \<not> json_is_object E doc then None
                    else if json_has_member E doc JSON_DEFAULT_IMPU
                    then Some (from_json_associated E impu doc cas st)
                    else Some (from_json_default E impu doc cas st)
      else None)"

section \<open>The stored form of an IMPI mapping\<close>

definition write_json_mapping :: "('w, 'j) ext \<Rightarrow> impi_mapping \<Rightarrow> jevent list" where
  "write_json_mapping E m =
     write_json_string_array E JSON_DEFAULT_IMPUS (p_default_impus m) @
     [JString JSON_EXPIRY, JInt64 (p_expiry m)]"

definition mapping_to_data :: "('w, 'j) ext \<Rightarrow> impi_mapping \<Rightarrow> status \<times> string" where
  "mapping_to_data E m =
     (OK, c_str (json_write E (JStartObject # write_json_mapping E m @ [JEndObject])))"

definition mapping_from_json :: "('w, 'j) ext \<Rightarrow> string \<Rightarrow> 'j \<Rightarrow> cas \<Rightarrow> impi_mapping" where
  "mapping_from_json E impi json cas =
     (let impus = extract_json_string_array E json JSON_DEFAULT_IMPUS;
          expiry = json_safe_get_int64 E json JSON_EXPIRY 0
      in \<lparr>p_impi = impi, p_cas = cas, p_expiry = expiry, p_default_impus = impus\<rparr>)"

definition mapping_from_data ::
  "('w, 'j) ext \<Rightarrow> string \<Rightarrow> string \<Rightarrow> cas \<Rightarrow> impi_mapping option" where
  "mapping_from_data E impi data cas =
     (case json_parse E (c_str data) of
        None \<Rightarrow> None
      | Some doc \<Rightarrow>
          if \<not> json_is_object E doc then None
          else Some (mapping_from_json E impi doc cas))"

section \<open>Compression: how large a buffer is tried\<close>

lemma compress_loop_pos:
  "0 < n \<Longrightarrow> compress_loop E data n =
     (if fst (lz4_compress E dict_v0 data n) = 0 \<and> n * 2 \<le> MAX_BUFFER_LEN
      then compress_loop E data (n * 2) else lz4_compress E dict_v0 data n)"
  by (cases n) (auto simp: Let_def not_less split: prod.splits)

definition buffer_sizes :: "nat list" where
  "buffer_sizes = [2048, 4096, 8192, 16384, 32768, 65536, 131072]"

lemma compress_data_v0_eq:
  "compress_data_v0 E data = lz4_compress E dict_v0 data
     (case find (\<lambda>n. fst (lz4_compress E dict_v0 data n) \<noteq> 0) buffer_sizes of
        Some n \<Rightarrow> n | None \<Rightarrow> 131072)"
  by (simp add: compress_data_v0_def compress_loop_pos buffer_sizes_def MAX_BUFFER_LEN_def)

section \<open>Round trips\<close>

text \<open>
  The members an IMPU is written as, what a record must satisfy for its JSON text to be
  faithful (no NUL byte inside a string, an expiry that fits 64 bits), and the record that a
  reader sees: every registration state but \<open>REGISTERED\<close> is stored as unregistered.
\<close>

fun impu_members :: "Impu \<Rightarrow> (string \<times> jvalue) list" where
  "impu_members (DefaultImpu d) =
     [(JSON_REGISTRATION_STATE, VBool (d_registration_state d = REGISTERED)),
      (JSON_SERVICE_PROFILE, VStr (d_service_profile d)),
      (JSON_EXPIRY, VInt (i_expiry d)),
      (JSON_ASSOCIATED_IMPUS, VArr (d_associated_impus d)),
      (JSON_IMPIS, VArr (d_impis d)),
      (JSON_ECFS, VArr (ecfs (d_charging_addresses d))),
      (JSON_CCFS, VArr (ccfs (d_charging_addresses d)))]"
| "impu_members (AssociatedImpu a) =
     [(JSON_DEFAULT_IMPU, VStr (a_default_impu a)), (JSON_EXPIRY, VInt (i_expiry a))]"

definition mapping_members :: "impi_mapping \<Rightarrow> (string \<times> jvalue) list" where
  "mapping_members m =
     [(JSON_DEFAULT_IMPUS, VArr (p_default_impus m)), (JSON_EXPIRY, VInt (p_expiry m))]"

definition storable :: "Impu \<Rightarrow> bool" where
  "storable i \<longleftrightarrow> (\<forall>(k, v) \<in> set (impu_members i). jvalue_ok v)"

definition storable_mapping :: "impi_mapping \<Rightarrow> bool" where
  "storable_mapping m \<longleftrightarrow> (\<forall>(k, v) \<in> set (mapping_members m). jvalue_ok v)"

definition stored_state :: "RegistrationState \<Rightarrow> RegistrationState" where
  "stored_state r = (if r = REGISTERED then REGISTERED else UNREGISTERED)"

fun stored_view :: "cas \<Rightarrow> nat option \<Rightarrow> Impu \<Rightarrow> Impu" where
  "stored_view c st (DefaultImpu d) =
     DefaultImpu (d\<lparr>i_cas := c, i_store := st,
       d_registration_state := stored_state (d_registration_state d)\<rparr>)"
| "stored_view c st (AssociatedImpu a) = AssociatedImpu (a\<lparr>i_cas := c, i_store := st\<rparr>)"

lemma impu_members_ok: "storable i \<Longrightarrow> members_ok (impu_members i)"
  by (cases i) (auto simp: members_ok_def storable_def json_names no_nul_def)

lemma mapping_members_ok: "storable_mapping m \<Longrightarrow> members_ok (mapping_members m)"
  by (auto simp: members_ok_def storable_mapping_def mapping_members_def json_names no_nul_def)

lemma write_json_members:
  "storable i \<Longrightarrow> JStartObject # write_json E i @ [JEndObject] = object_events E (impu_members i)"
  by (cases i)
    (auto simp: object_events_def write_json_default_def write_json_associated_def storable_def
      Let_def)

lemma write_json_mapping_members:
  "JStartObject # write_json_mapping E m @ [JEndObject] = object_events E (mapping_members m)"
  by (simp add: object_events_def write_json_mapping_def mapping_members_def)

lemma json_reads_simps:
  assumes "json_reads E ms j"
  shows "json_is_object E j"
    and "json_has_member E j k \<longleftrightarrow> k \<in> fst ` set ms"
    and "map_of ms k = Some (VStr s) \<Longrightarrow> json_safe_get_string E j k d = s"
    and "map_of ms k = Some (VInt i) \<Longrightarrow> json_safe_get_int64 E j k d' = i"
    and "map_of ms k = Some (VBool b) \<Longrightarrow> json_get_bool E j k = b"
    and "map_of ms k = Some (VArr ss) \<Longrightarrow> extract_json_string_array E j k = ss"
  using assms by (simp_all add: json_reads_def)

lemma from_json_stored_view:
  assumes "json_reads E (impu_members i) j"
  shows "(if json_has_member E j JSON_DEFAULT_IMPU
          then from_json_associated E (impu_key i) j c st
          else from_json_default E (impu_key i) j c st) = stored_view c st i"
  using json_reads_simps [OF assms]
  by (cases i)
    (simp_all add: from_json_associated_def from_json_default_def json_names stored_state_def
      Let_def)

definition json_text :: "('w, 'j) ext \<Rightarrow> Impu \<Rightarrow> string" where
  "json_text E i = json_write E (object_events E (impu_members i))"

lemma from_data_frame:
  assumes "n \<noteq> 0" and "n < INT_MAX"
  shows "from_data E impu (encode_varbyte n [NUL] @ rest) c st =
    (case lz4_decompress E dict_v0 rest (unat n) of (rc, json) \<Rightarrow>
       if rc = 0 \<or> rc \<noteq> int (unat n) then None
       else case json_parse E (c_str json) of
          None \<Rightarrow> None
        | Some doc \<Rightarrow>
            if \<not> json_is_object E doc then None
            else if json_has_member E doc JSON_DEFAULT_IMPU
            then Some (from_json_associated E impu doc c st)
            else Some (from_json_default E impu doc c st))"
proof -
  have start: "char_at (encode_varbyte n [NUL] @ rest) 0 = NUL"
    by (subst encode_varbyte_append) (simp add: char_at_def)
  have ne: "encode_varbyte n [NUL] \<noteq> []"
    by (subst encode_varbyte_append) simp
  show ?thesis
    using assms start ne decode_encode_varbyte [OF assms, of "[NUL]" rest]
    by (simp add: from_data_def)
qed

lemma json_text_facts:
  assumes "codec_contract E" and "storable i"
  shows "c_str (json_write E (JStartObject # write_json E i @ [JEndObject])) = json_text E i"
    and "no_nul (json_text E i)"
    and "json_text E i \<noteq> []"
    and "\<exists>j. json_parse E (json_text E i) = Some j \<and> json_reads E (impu_members i) j"
  using json_contractD [of E "impu_members i"] assms impu_members_ok [of i]
    write_json_members [OF assms(2), of E]
  by (simp_all add: codec_contract_def json_text_def)

lemma to_data_OK:
  assumes "codec_contract E" and "storable i" and "to_data E i = (OK, data)"
  obtains out where
    "data = encode_varbyte (ucast (word_of_nat (length (json_text E i)) :: 32 word)) [NUL] @ out"
    and "lz4_decompress E dict_v0 out (length (json_text E i)) =
      (int (length (json_text E i)), json_text E i)"
proof -
  obtain n c out where c: "compress_data_v0 E (json_text E i) = (c, out)"
    and n: "lz4_compress E dict_v0 (json_text E i) n = (c, out)"
    using compress_data_v0_eq [of E "json_text E i"] by (metis surj_pair)
  have "c \<noteq> 0" and "data = encode_varbyte (ucast (word_of_nat (length (json_text E i)) :: 32 word)) [NUL]
      @ take (nat c) out"
    using assms(3) c json_text_facts [OF assms(1,2)]
    by (auto simp: to_data_def Let_def split: if_splits)
  moreover have "c = int (length out)"
    "lz4_decompress E dict_v0 out (length (json_text E i)) =
      (int (length (json_text E i)), json_text E i)"
    using lz4_contractD [of E "json_text E i" dict_v0 n c out] assms(1) n \<open>c \<noteq> 0\<close>
      json_text_facts [OF assms(1,2)] by (simp_all add: codec_contract_def)
  ultimately show ?thesis using that by simp
qed

lemma from_data_to_data:
  assumes "codec_contract E" and "storable i" and "length (json_text E i) < 2147483647"
    and "to_data E i = (OK, data)"
  shows "from_data E (impu_key i) data c st = Some (stored_view c st i)"
proof -
  let ?text = "json_text E i"
  let ?n = "ucast (word_of_nat (length ?text) :: 32 word) :: 64 word"
  obtain out where data: "data = encode_varbyte ?n [NUL] @ out"
    and out: "lz4_decompress E dict_v0 out (length ?text) = (int (length ?text), ?text)"
    using to_data_OK [OF assms(1,2,4)] by blast
  have n: "unat ?n = length ?text"
    using assms(3) by (simp add: unsigned_ucast_eq unsigned_of_nat take_bit_nat_eq_self)
  then have range: "?n \<noteq> 0" "?n < INT_MAX"
    using assms(3) json_text_facts(3) [OF assms(1,2)]
    by (auto simp: INT_MAX_def word_less_nat_alt simp flip: unat_gt_0)
  obtain j where j: "json_parse E ?text = Some j" "json_reads E (impu_members i) j"
    using json_text_facts(4) [OF assms(1,2)] by blast
  show ?thesis
    using out j json_text_facts(2,3) [OF assms(1,2)] json_reads_simps(1) [OF j(2)]
      from_json_stored_view [OF j(2), of c st]
    unfolding data from_data_frame [OF range] n by (auto split: if_splits)
qed

lemma mapping_from_data_to_data:
  assumes "codec_contract E" and "storable_mapping m"
  shows "mapping_to_data E m = (OK, json_write E (object_events E (mapping_members m)))"
    and "mapping_from_data E (p_impi m) (json_write E (object_events E (mapping_members m))) c =
      Some (m\<lparr>p_cas := c\<rparr>)"
proof -
  have facts: "no_nul (json_write E (object_events E (mapping_members m)))"
    "\<exists>j. json_parse E (json_write E (object_events E (mapping_members m))) = Some j \<and>
      json_reads E (mapping_members m) j"
    using json_contractD [of E "mapping_members m"] assms mapping_members_ok
    by (simp_all add: codec_contract_def)
  then show "mapping_to_data E m = (OK, json_write E (object_events E (mapping_members m)))"
    by (simp add: mapping_to_data_def write_json_mapping_members)
  obtain j where j: "json_parse E (json_write E (object_events E (mapping_members m))) = Some j"
    "json_reads E (mapping_members m) j"
    using facts by blast
  show "mapping_from_data E (p_impi m) (json_write E (object_events E (mapping_members m))) c =
      Some (m\<lparr>p_cas := c\<rparr>)"
    using facts j json_reads_simps [OF j(2)]
    by (simp add: mapping_from_data_def mapping_from_json_def mapping_members_def json_names)
qed

end
