(* ===== verification/Xml_Utils.thy ===== *)
theory Xml_Utils
  imports Reg_Data
begin

text \<open>
  The XML helpers of \<open>src/homestead_xml_utils.cpp\<close>: reading the identities out of the HSS's
  User-Data and building the ClearwaterRegData document passed to Sprout. rapidxml and the names
  and texts of cpp-common's \<open>RegDataXMLUtils\<close> are parameters: an element name or text is the
  constant's name, never its spelling. The results: the identities read are exactly the listed
  ones without repetition, the default identity is the first unbarred one, and the document that
  is built has the nodes the registration set calls for.
\<close>

section \<open>The XML library\<close>

datatype regdata_name =
    CLEARWATER_REG_DATA | REGISTRATION_STATE | PREVIOUS_REGISTRATION_STATE | IMS_SUBSCRIPTION
  | SERVICE_PROFILE | PUBLIC_IDENTITY | IDENTITY | BARRING_INDICATION | EXTENSION | PRIVATE_ID
  | CHARGING_ADDRESSES | CCF | ECF

datatype regdata_text =
    STATE_REGISTERED | STATE_UNREGISTERED | STATE_NOT_REGISTERED
  | CCF_PRIORITY_1 | CCF_PRIORITY_2 | ECF_PRIORITY_1 | ECF_PRIORITY_2

datatype regdata_attribute = CCF_ECF_PRIORITY

text \<open>
  A node of an output document: an element with a value, attributes and children, or a clone of
  a node of a parsed document.
\<close>

datatype xval = XNone | XConst regdata_text | XText string

datatype 'x xout =
    XElem regdata_name xval "(regdata_attribute \<times> regdata_text) list" "'x xout list"
  | XClone 'x

text \<open>
  \<open>xml_parse\<close> is \<open>xml_document::parse<parse_strip_xml_namespaces>\<close>, \<open>None\<close> for a
  \<open>parse_error\<close>; \<open>xml_children x n\<close> are the children of \<open>x\<close> named \<open>n\<close> in document order, which
  \<open>first_node\<close> and \<open>next_sibling\<close> walk; \<open>xml_extension_identity\<close> is
  \<open>RegDataXMLUtils::parse_extension_identity\<close>, which rewrites the URI it is given.
\<close>

record 'x xml_api =
  xml_parse :: "string \<Rightarrow> 'x option"
  xml_children :: "'x \<Rightarrow> regdata_name \<Rightarrow> 'x list"
  xml_value :: "'x \<Rightarrow> string"
  xml_extension_identity :: "string \<Rightarrow> 'x \<Rightarrow> string"
  xml_state_unbarred :: string
  xml_print :: "'x xout \<Rightarrow> string"

definition first_node :: "'x xml_api \<Rightarrow> 'x \<Rightarrow> regdata_name \<Rightarrow> 'x option" where
  "first_node X x n = (case xml_children X x n of [] \<Rightarrow> None | c # _ \<Rightarrow> Some c)"

text \<open>The status codes of cpp-common's \<open>httpclient.h\<close> that the program names.\<close>

datatype http_code =
    HTTP_OK | HTTP_BAD_REQUEST | HTTP_FORBIDDEN | HTTP_NOT_FOUND | HTTP_BADMETHOD
  | HTTP_SERVER_ERROR | HTTP_SERVER_UNAVAILABLE | HTTP_GATEWAY_TIMEOUT

section \<open>Reading identities\<close>

text \<open>
  One \<open>PublicIdentity\<close> node: the lists of identities and of unbarred identities, updated.
\<close>

definition read_public_identity ::
  "'x xml_api \<Rightarrow> 'x \<Rightarrow> string list \<times> string list \<Rightarrow> string list \<times> string list" where
  "read_public_identity X pi ids =
     (let (public_ids, unbarred_public_ids) = ids;
          barring_value = (case first_node X pi BARRING_INDICATION of
             None \<Rightarrow> xml_state_unbarred X
           | Some barring_indication \<Rightarrow> xml_value X barring_indication)
      in case first_node X pi IDENTITY of
           None \<Rightarrow> (public_ids, unbarred_public_ids)
         | Some i \<Rightarrow>
             let uri = xml_value X i;
                 uri' = (case first_node X pi EXTENSION of
                    None \<Rightarrow> uri
                  | Some extension \<Rightarrow> xml_extension_identity X uri extension)
             in if uri' \<notin> set public_ids then
                  (public_ids @ [uri'],
                   if barring_value = xml_state_unbarred X
                   then unbarred_public_ids @ [uri'] else unbarred_public_ids)
                else (public_ids, unbarred_public_ids))"

text \<open>
  \<open>get_public_and_default_ids(user_data, default_id)\<close>: the identities, and the value \<open>default_id\<close>
  has afterwards, which is its old one when there is no unbarred identity.
\<close>

definition get_public_and_default_ids ::
  "'x xml_api \<Rightarrow> string \<Rightarrow> string \<Rightarrow> string list \<times> string" where
  "get_public_and_default_ids X user_data default_id =
     (let is_node = (case xml_parse X (c_str user_data) of
            None \<Rightarrow> None
          | Some doc \<Rightarrow> first_node X doc IMS_SUBSCRIPTION);
          (public_ids, unbarred_public_ids) =
            (case is_node of
               None \<Rightarrow> ([], [])
             | Some is \<Rightarrow>
                 fold (\<lambda>sp ids. fold (read_public_identity X) (xml_children X sp PUBLIC_IDENTITY) ids)
                   (xml_children X is SERVICE_PROFILE) ([], []))
      in (public_ids,
          if length unbarred_public_ids \<noteq> 0 then hd unbarred_public_ids else default_id))"

definition get_public_ids :: "'x xml_api \<Rightarrow> string \<Rightarrow> string list" where
  "get_public_ids X user_data = fst (get_public_and_default_ids X user_data '''')"

definition get_default_id :: "'x xml_api \<Rightarrow> string \<Rightarrow> string \<Rightarrow> string" where
  "get_default_id X user_data default_id = snd (get_public_and_default_ids X user_data default_id)"

definition get_private_id :: "'x xml_api \<Rightarrow> string \<Rightarrow> string" where
  "get_private_id X user_data =
     (let is_node = (case xml_parse X (c_str user_data) of
            None \<Rightarrow> None
          | Some doc \<Rightarrow> first_node X doc IMS_SUBSCRIPTION);
          impi = (case is_node of
            None \<Rightarrow> ''''
          | Some is \<Rightarrow> (case first_node X is PRIVATE_ID of
              None \<Rightarrow> '''' | Some i \<Rightarrow> xml_value X i))
      in if impi = ''null'' then '''' else impi)"

section \<open>Building ClearwaterRegData\<close>

definition add_reg_state_node ::
  "RegistrationState \<Rightarrow> regdata_name \<Rightarrow> 'x xout list \<Rightarrow> 'x xout list" where
  "add_reg_state_node state node_name root =
     (let state_string =
        (if state = REGISTERED then STATE_REGISTERED
         else if state = UNREGISTERED then STATE_UNREGISTERED
         else STATE_NOT_REGISTERED)
      in root @ [XElem node_name (XConst state_string) [] []])"

definition add_ims_subscription_node ::
  "'x xml_api \<Rightarrow> string \<Rightarrow> 'x xout list \<Rightarrow> http_code \<times> 'x xout list" where
  "add_ims_subscription_node X xml root =
     (case xml_parse X (c_str xml) of
        None \<Rightarrow> (HTTP_SERVER_ERROR, root)
      | Some prev_doc \<Rightarrow>
          (case first_node X prev_doc IMS_SUBSCRIPTION of
             None \<Rightarrow> (HTTP_SERVER_ERROR, root)
           | Some is \<Rightarrow> (HTTP_OK, root @ [XClone is])))"

definition charging_node :: "regdata_name \<Rightarrow> regdata_text \<Rightarrow> string \<Rightarrow> 'x xout" where
  "charging_node name priority address =
     XElem name (XText (c_str address)) [(CCF_ECF_PRIORITY, priority)] []"

definition add_charging_addr_node :: "ChargingAddresses \<Rightarrow> 'x xout list \<Rightarrow> 'x xout list" where
  "add_charging_addr_node charging_addrs root =
     (let cfs =
        (if ccfs charging_addrs \<noteq> [] then [charging_node CCF CCF_PRIORITY_1 (ccfs charging_addrs ! 0)] else []) @
        (if length (ccfs charging_addrs) > 1 then [charging_node CCF CCF_PRIORITY_2 (ccfs charging_addrs ! 1)] else []) @
        (if ecfs charging_addrs \<noteq> [] then [charging_node ECF ECF_PRIORITY_1 (ecfs charging_addrs ! 0)] else []) @
        (if length (ecfs charging_addrs) > 1 then [charging_node ECF ECF_PRIORITY_2 (ecfs charging_addrs ! 1)] else [])
      in root @ [XElem CHARGING_ADDRESSES XNone [] cfs])"

text \<open>
  \<open>build_ClearwaterRegData_xml\<close> on what it reads of a registration set: its state, its XML and its
  charging addresses. The result is the return code and the document printed, if any.
\<close>

definition build_ClearwaterRegData ::
  "'x xml_api \<Rightarrow> RegistrationState \<Rightarrow> string \<Rightarrow> ChargingAddresses \<Rightarrow> RegistrationState \<Rightarrow>
     http_code \<times> 'x xout option" where
  "build_ClearwaterRegData X reg_state xml charging_addrs prev_reg_state =
     (let root = add_reg_state_node reg_state REGISTRATION_STATE [];
          root1 = (if prev_reg_state \<noteq> REG_UNKNOWN
                   then add_reg_state_node prev_reg_state PREVIOUS_REGISTRATION_STATE root else root);
          (rc, root2) = (if xml \<noteq> '''' then add_ims_subscription_node X xml root1 else (HTTP_OK, root1))
      in if rc = HTTP_SERVER_ERROR then (HTTP_SERVER_ERROR, None)
         else
           let root3 = (if \<not> charging_empty charging_addrs
                        then add_charging_addr_node charging_addrs root2 else root2)
           in (HTTP_OK, Some (XElem CLEARWATER_REG_DATA XNone [] root3)))"

section \<open>The identities read\<close>

text \<open>
  The reference: every \<open>PublicIdentity\<close> of the document with an \<open>Identity\<close>, as its final URI and
  whether it is unbarred, in document order.
\<close>

definition listed_identity :: "'x xml_api \<Rightarrow> 'x \<Rightarrow> (string \<times> bool) list" where
  "listed_identity X pi =
     (case first_node X pi IDENTITY of
        None \<Rightarrow> []
      | Some i \<Rightarrow>
          [(case first_node X pi EXTENSION of
              None \<Rightarrow> xml_value X i | Some ext \<Rightarrow> xml_extension_identity X (xml_value X i) ext,
            case first_node X pi BARRING_INDICATION of
              None \<Rightarrow> True | Some b \<Rightarrow> xml_value X b = xml_state_unbarred X)])"

definition listed_identities :: "'x xml_api \<Rightarrow> string \<Rightarrow> (string \<times> bool) list" where
  "listed_identities X user_data =
     (case xml_parse X (c_str user_data) of
        None \<Rightarrow> []
      | Some doc \<Rightarrow> (case first_node X doc IMS_SUBSCRIPTION of
          None \<Rightarrow> []
        | Some is \<Rightarrow> [l. sp \<leftarrow> xml_children X is SERVICE_PROFILE,
                         pi \<leftarrow> xml_children X sp PUBLIC_IDENTITY,
                         l \<leftarrow> listed_identity X pi]))"

text \<open>The first listing of each URI, in order.\<close>

fun first_listings :: "string set \<Rightarrow> (string \<times> bool) list \<Rightarrow> (string \<times> bool) list" where
  "first_listings seen [] = []"
| "first_listings seen ((u, b) # ls) =
     (if u \<in> seen then first_listings seen ls else (u, b) # first_listings (insert u seen) ls)"

definition record_listing :: "string \<times> bool \<Rightarrow> string list \<times> string list \<Rightarrow> string list \<times> string list" where
  "record_listing l ids =
     (if fst l \<in> set (fst ids) then ids
      else (fst ids @ [fst l], if snd l then snd ids @ [fst l] else snd ids))"

lemma read_public_identity_eq:
  "read_public_identity X pi ids = fold record_listing (listed_identity X pi) ids"
  by (cases ids)
    (auto simp: read_public_identity_def listed_identity_def record_listing_def Let_def
      split: option.split)

lemma fold_concat_map: "fold (\<lambda>x. fold f (g x)) xs = fold f (concat (map g xs))"
  by (induction xs) auto

lemma fold_record_listing:
  "fold record_listing ls (ids, unbarred) =
     (ids @ map fst (first_listings (set ids) ls),
      unbarred @ map fst (filter snd (first_listings (set ids) ls)))"
  by (induction ls arbitrary: ids unbarred) (auto simp: record_listing_def)

lemma get_public_and_default_ids_eq:
  "get_public_and_default_ids X user_data d =
     (map fst (first_listings {} (listed_identities X user_data)),
      case filter snd (first_listings {} (listed_identities X user_data)) of
        [] \<Rightarrow> d | l # _ \<Rightarrow> fst l)"
proof -
  have walk: "fold (\<lambda>sp. fold (read_public_identity X) (xml_children X sp PUBLIC_IDENTITY)) sps ids =
      fold record_listing
        (concat (map (\<lambda>sp. concat (map (listed_identity X) (xml_children X sp PUBLIC_IDENTITY))) sps)) ids"
    for sps ids
    by (simp add: read_public_identity_eq [abs_def] fold_concat_map)
  show ?thesis
    by (auto simp: get_public_and_default_ids_def listed_identities_def walk fold_record_listing
        hd_map neq_Nil_conv split: option.split list.split)
qed

lemma first_listings_distinct:
  "distinct (map fst (first_listings seen ls)) \<and> fst ` set (first_listings seen ls) = fst ` set ls - seen"
  by (induction seen ls rule: first_listings.induct) (auto simp: image_iff)


text \<open>
  C40: the identities of a profile are read completely and without repetition: the public identities
  are the listed ones, each once and in the order of their first listing, and the default
  identity is the first of them whose first listing is not barred; when there is none, the caller's
  value stays.
\<close>

theorem identities_read:
  "distinct (get_public_ids X user_data) \<and>
   set (get_public_ids X user_data) = fst ` set (listed_identities X user_data) \<and>
   get_public_ids X user_data = map fst (first_listings {} (listed_identities X user_data)) \<and>
   get_default_id X user_data d =
     (case filter snd (first_listings {} (listed_identities X user_data)) of [] \<Rightarrow> d | l # _ \<Rightarrow> fst l)"
  using first_listings_distinct [of "{}" "listed_identities X user_data"]
  by (simp add: get_public_ids_def get_default_id_def get_public_and_default_ids_eq)

section \<open>The document\<close>

text \<open>What a reader finds in the document: the texts of the nodes with a name, and the profile.\<close>

fun xout_children :: "'x xout \<Rightarrow> 'x xout list" where
  "xout_children (XElem n v as cs) = cs"
| "xout_children (XClone x) = []"

fun named :: "regdata_name \<Rightarrow> 'x xout \<Rightarrow> bool" where
  "named n (XElem m v as cs) = (m = n)"
| "named n (XClone x) = False"

fun xout_value :: "'x xout \<Rightarrow> xval" where
  "xout_value (XElem n v as cs) = v"
| "xout_value (XClone x) = XNone"

fun xout_clone :: "'x xout \<Rightarrow> 'x list" where
  "xout_clone (XClone x) = [x]"
| "xout_clone (XElem n v as cs) = []"

definition values_at :: "'x xout \<Rightarrow> regdata_name \<Rightarrow> xval list" where
  "values_at doc n = map xout_value (filter (named n) (xout_children doc))"

definition charging_at :: "'x xout \<Rightarrow> regdata_name \<Rightarrow> xval list" where
  "charging_at doc n = map xout_value
     (filter (named n) (concat (map xout_children (filter (named CHARGING_ADDRESSES) (xout_children doc)))))"

fun state_text :: "RegistrationState \<Rightarrow> regdata_text" where
  "state_text REGISTERED = STATE_REGISTERED"
| "state_text UNREGISTERED = STATE_UNREGISTERED"
| "state_text _ = STATE_NOT_REGISTERED"

definition profile_node :: "'x xml_api \<Rightarrow> string \<Rightarrow> 'x option" where
  "profile_node X xml =
     (case xml_parse X (c_str xml) of None \<Rightarrow> None | Some doc \<Rightarrow> first_node X doc IMS_SUBSCRIPTION)"

lemma state_node: "add_reg_state_node state n root = root @ [XElem n (XConst (state_text state)) [] []]"
  by (cases state) (simp_all add: add_reg_state_node_def)

lemma profile_added:
  "add_ims_subscription_node X xml root =
     (case profile_node X xml of None \<Rightarrow> (HTTP_SERVER_ERROR, root) | Some is \<Rightarrow> (HTTP_OK, root @ [XClone is]))"
  by (simp add: add_ims_subscription_node_def profile_node_def split: option.split)

definition charging_nodes :: "ChargingAddresses \<Rightarrow> 'x xout list" where
  "charging_nodes ch = (if charging_empty ch then [] else add_charging_addr_node ch [])"

lemma charging_added:
  "(if \<not> charging_empty ch then add_charging_addr_node ch root else root) = root @ charging_nodes ch"
  by (simp add: charging_nodes_def add_charging_addr_node_def)

lemma charging_nodes_read:
  "filter (named CHARGING_ADDRESSES) (charging_nodes ch) = charging_nodes ch"
  "n \<noteq> CHARGING_ADDRESSES \<Longrightarrow> filter (named n) (charging_nodes ch) = []"
  "x \<in> set (charging_nodes ch) \<Longrightarrow> xout_clone x = []"
  by (auto simp: charging_nodes_def add_charging_addr_node_def Let_def split: if_split_asm)

lemma two_first: "xs \<noteq> [] \<Longrightarrow> take 2 xs = xs ! 0 # (if 1 < length xs then [xs ! 1] else [])"
  by (cases xs; cases "tl xs") auto

lemma charging_values:
  "map xout_value (filter (named CCF) (concat (map xout_children (charging_nodes ch)))) = map (XText \<circ> c_str) (take 2 (ccfs ch))"
  "map xout_value (filter (named ECF) (concat (map xout_children (charging_nodes ch)))) = map (XText \<circ> c_str) (take 2 (ecfs ch))"
  by (cases "ccfs ch = []"; cases "ecfs ch = []";
      simp add: charging_nodes_def charging_empty_def add_charging_addr_node_def charging_node_def two_first Let_def)+

lemma document_eq:
  "build_ClearwaterRegData X state xml ch prev =
     (if xml \<noteq> '''' \<and> profile_node X xml = None then (HTTP_SERVER_ERROR, None)
      else (HTTP_OK, Some (XElem CLEARWATER_REG_DATA XNone []
        ([XElem REGISTRATION_STATE (XConst (state_text state)) [] []] @
         (if prev = REG_UNKNOWN then [] else [XElem PREVIOUS_REGISTRATION_STATE (XConst (state_text prev)) [] []]) @
         (if xml = '''' then [] else [XClone (the (profile_node X xml))]) @ charging_nodes ch))))"
  unfolding build_ClearwaterRegData_def Let_def state_node profile_added charging_added
  by (auto split: option.split)

text \<open>
  The document for Sprout. It cannot be built exactly when there is a profile without an
  \<open>IMSSubscription\<close>; otherwise it carries the registration state, the previous state when it is known, the profile,
  and at most the first two collection functions and the first two event functions, in order.
\<close>

theorem reg_data_document:
  "if xml \<noteq> '''' \<and> profile_node X xml = None
   then build_ClearwaterRegData X state xml ch prev = (HTTP_SERVER_ERROR, None)
   else \<exists>doc. build_ClearwaterRegData X state xml ch prev = (HTTP_OK, Some doc) \<and>
     values_at doc REGISTRATION_STATE = [XConst (state_text state)] \<and>
     values_at doc PREVIOUS_REGISTRATION_STATE = (if prev = REG_UNKNOWN then [] else [XConst (state_text prev)]) \<and>
     concat (map xout_clone (xout_children doc)) = (if xml = '''' then [] else [the (profile_node X xml)]) \<and>
     charging_at doc CCF = map (XText \<circ> c_str) (take 2 (ccfs ch)) \<and>
     charging_at doc ECF = map (XText \<circ> c_str) (take 2 (ecfs ch))"
  by (auto simp: document_eq values_at_def charging_at_def charging_nodes_read charging_values)


end
