(* ===== verification/Implicit_Reg_Set.thy ===== *)
theory Implicit_Reg_Set
  imports Impu_Record Xml_Utils
begin

text \<open>
  The implicit registration set the handlers work on:
  \<open>MemcachedImplicitRegistrationSet\<close> of \<open>include/memcached_cache.h\<close> and
  \<open>src/memcached_cache.cpp\<close>. It tracks for every IMPI and associated IMPU whether it was added,
  left alone or deleted, and which fields the caller set, so that a conflicting write can be merged
  with what the store holds. The results: every operation keeps the tracking maps well formed, the
  merge keeps what the caller set and takes the rest from the store, and a set built from a stored
  record turns back into that record.
\<close>

section \<open>State\<close>

datatype State = ADDED | UNCHANGED | DELETED

type_synonym Data = "(string, State) omap"

text \<open>
  The fields of the class; \<open>_store\<close> is the number of a store, \<open>None\<close> for a null pointer. The
  member \<open>_changed\<close> is never read or written by the program and is left out.
\<close>

record mirs =
  m_default_impu :: string
  m_store :: "nat option"
  m_cas :: cas
  m_ttl :: int
  m_refreshed :: bool
  m_existing :: bool
  m_impis :: Data
  m_associated_impus :: Data
  m_ims_sub_xml :: string
  m_ims_sub_xml_set :: bool
  m_charging_addresses :: ChargingAddresses
  m_charging_addresses_set :: bool
  m_registration_state :: RegistrationState
  m_registration_state_set :: bool

type_synonym 'w clk = "'w \<Rightarrow> int \<times> 'w"

section \<open>Tracked data\<close>

definition get_elements_in_state :: "Data \<Rightarrow> State \<Rightarrow> string list" where
  "get_elements_in_state data status = map fst (filter (\<lambda>entry. snd entry = status) data)"

definition has_changed_data :: "Data \<Rightarrow> bool" where
  "has_changed_data data \<longleftrightarrow> (\<exists>pair \<in> set data. snd pair = ADDED \<or> snd pair = DELETED)"

text \<open>The elements that are not deleted: the loop of \<open>get_associated_impis\<close> and \<open>get_associated_impus\<close>.\<close>

definition present_elements :: "Data \<Rightarrow> string list" where
  "present_elements data =
     map fst (filter (\<lambda>entry. snd entry = UNCHANGED \<or> snd entry = ADDED) data)"

definition set_elements :: "string list \<Rightarrow> Data \<Rightarrow> string \<Rightarrow> Data" where
  "set_elements updated data ignore =
     fold (\<lambda>entry data. if entry \<noteq> ignore then
              (case map_of data entry of
                 None \<Rightarrow> omap_insert entry ADDED data
               | Some st \<Rightarrow> if st = DELETED then omap_insert entry ADDED data else data)
            else data)
       updated (omap_map (\<lambda>k st. if k \<notin> set updated then DELETED else st) data)"

definition merge_data_sets :: "Data \<Rightarrow> string list \<Rightarrow> Data" where
  "merge_data_sets data added =
     omap_map (\<lambda>k st. if st = UNCHANGED \<and> k \<notin> set added then DELETED else st)
       (fold (\<lambda>key data. if map_of data key = None then omap_insert key UNCHANGED data else data)
          added data)"

definition delete_tracked :: "Data \<Rightarrow> Data" where
  "delete_tracked data = omap_map (\<lambda>k st. DELETED) data"

section \<open>Construction\<close>

text \<open>
  The set for a stored default IMPU. The TTL is an \<open>int32_t\<close>.
\<close>

definition mirs_of_impu :: "'w clk \<Rightarrow> default_impu \<Rightarrow> 'w \<Rightarrow> mirs \<times> 'w" where
  "mirs_of_impu clk default_impu w =
     (let assoc = fold (\<lambda>impu data. omap_insert impu UNCHANGED data) (d_associated_impus default_impu) [];
          impis = fold (\<lambda>impi data. omap_insert impi UNCHANGED data) (d_impis default_impu) [];
          (t, w1) = clk w
      in (\<lparr>m_default_impu = i_impu default_impu,
           m_store = i_store default_impu,
           m_cas = i_cas default_impu,
           m_ttl = s32 (i_expiry default_impu - t),
           m_refreshed = False,
           m_existing = True,
           m_impis = impis,
           m_associated_impus = assoc,
           m_ims_sub_xml = d_service_profile default_impu,
           m_ims_sub_xml_set = False,
           m_charging_addresses = d_charging_addresses default_impu,
           m_charging_addresses_set = False,
           m_registration_state = d_registration_state default_impu,
           m_registration_state_set = False\<rparr>, w1))"

text \<open>
  The set for a subscriber about whom nothing is known. The constructor leaves \<open>_ttl\<close> and
  \<open>_registration_state\<close> uninitialised: their indeterminate values are arguments.
\<close>

definition new_mirs :: "int \<Rightarrow> RegistrationState \<Rightarrow> mirs" where
  "new_mirs any_ttl any_state =
     \<lparr>m_default_impu = '''', m_store = None, m_cas = 0, m_ttl = any_ttl, m_refreshed = True,
      m_existing = False, m_impis = [], m_associated_impus = [], m_ims_sub_xml = '''',
      m_ims_sub_xml_set = False, m_charging_addresses = no_charging,
      m_charging_addresses_set = False, m_registration_state = any_state,
      m_registration_state_set = False\<rparr>"

section \<open>Reading\<close>

definition get_associated_impis :: "mirs \<Rightarrow> string list" where
  "get_associated_impis irs = present_elements (m_impis irs)"

definition get_associated_impus :: "mirs \<Rightarrow> string list" where
  "get_associated_impus irs = present_elements (m_associated_impus irs)"

definition has_changed_impis :: "mirs \<Rightarrow> bool" where
  "has_changed_impis irs = has_changed_data (m_impis irs)"

definition has_changed_impus :: "mirs \<Rightarrow> bool" where
  "has_changed_impus irs = has_changed_data (m_associated_impus irs)"

definition has_changed :: "mirs \<Rightarrow> bool" where
  "has_changed irs \<longleftrightarrow>
     \<not> m_existing irs \<or> m_refreshed irs \<or> m_ims_sub_xml_set irs \<or>
     m_charging_addresses_set irs \<or> m_registration_state_set irs \<or>
     has_changed_impus irs \<or> has_changed_impis irs"

definition impis_in :: "mirs \<Rightarrow> State \<Rightarrow> string list" where
  "impis_in irs status = get_elements_in_state (m_impis irs) status"

definition impus_in :: "mirs \<Rightarrow> State \<Rightarrow> string list" where
  "impus_in irs status = get_elements_in_state (m_associated_impus irs) status"

section \<open>Writing\<close>

definition set_reg_state :: "RegistrationState \<Rightarrow> mirs \<Rightarrow> mirs" where
  "set_reg_state state irs = irs\<lparr>m_registration_state_set := True, m_registration_state := state\<rparr>"

definition set_charging_addresses :: "ChargingAddresses \<Rightarrow> mirs \<Rightarrow> mirs" where
  "set_charging_addresses addresses irs =
     irs\<lparr>m_charging_addresses_set := True, m_charging_addresses := addresses\<rparr>"

definition set_ttl :: "int \<Rightarrow> mirs \<Rightarrow> mirs" where
  "set_ttl ttl irs = irs\<lparr>m_refreshed := True, m_ttl := ttl\<rparr>"

definition mark_as_refreshed :: "mirs \<Rightarrow> mirs" where
  "mark_as_refreshed irs = irs\<lparr>m_refreshed := True\<rparr>"

definition set_ims_sub_xml :: "'x xml_api \<Rightarrow> string \<Rightarrow> mirs \<Rightarrow> mirs" where
  "set_ims_sub_xml X xml irs =
     (let irs1 = irs\<lparr>m_ims_sub_xml_set := True, m_ims_sub_xml := xml\<rparr>;
          (assoc_impus, default_impu) = get_public_and_default_ids X xml '''';
          irs2 = (if m_default_impu irs1 \<noteq> default_impu
                  then irs1\<lparr>m_default_impu := default_impu\<rparr> else irs1)
      in irs2\<lparr>m_associated_impus := set_elements assoc_impus (m_associated_impus irs2) default_impu\<rparr>)"

definition add_associated_impi :: "string \<Rightarrow> mirs \<Rightarrow> mirs" where
  "add_associated_impi impi irs = irs\<lparr>m_impis := omap_insert impi ADDED (m_impis irs)\<rparr>"

lemmas irs_setters [irs_simps] =
  new_mirs_def set_reg_state_def set_charging_addresses_def set_ttl_def set_ims_sub_xml_def add_associated_impi_def

definition delete_associated_impi :: "string \<Rightarrow> mirs \<Rightarrow> mirs" where
  "delete_associated_impi impi irs = irs\<lparr>m_impis := omap_insert impi DELETED (m_impis irs)\<rparr>"

definition delete_assoc_impus :: "mirs \<Rightarrow> mirs" where
  "delete_assoc_impus irs = irs\<lparr>m_associated_impus := delete_tracked (m_associated_impus irs)\<rparr>"

definition delete_impis :: "mirs \<Rightarrow> mirs" where
  "delete_impis irs = irs\<lparr>m_impis := delete_tracked (m_impis irs)\<rparr>"

section \<open>To and from stored records\<close>

text \<open>\<open>_ttl + now\<close> is an addition of two \<open>int\<close>s; it is wrapped here, where C++ leaves the overflow undefined.\<close>

definition create_impu :: "'w clk \<Rightarrow> mirs \<Rightarrow> cas \<Rightarrow> nat option \<Rightarrow> 'w \<Rightarrow> default_impu \<times> 'w" where
  "create_impu clk irs cas st w =
     (let impis = get_associated_impis irs;
          impus = get_associated_impus irs;
          (t, w1) = clk w;
          now = s32 t
      in (\<lparr>i_impu = m_default_impu irs, i_cas = cas, i_expiry = s32 (m_ttl irs + now), i_store = st,
           d_registration_state = m_registration_state irs,
           d_charging_addresses = m_charging_addresses irs,
           d_associated_impus = impus, d_impis = impis,
           d_service_profile = m_ims_sub_xml irs\<rparr>, w1))"

definition get_impu_of :: "'w clk \<Rightarrow> mirs \<Rightarrow> 'w \<Rightarrow> default_impu \<times> 'w" where
  "get_impu_of clk irs w = create_impu clk irs 0 None w"

definition get_impu_from_impu :: "'w clk \<Rightarrow> mirs \<Rightarrow> Impu \<Rightarrow> 'w \<Rightarrow> default_impu \<times> 'w" where
  "get_impu_from_impu clk irs with_cas w =
     create_impu clk irs (impu_cas with_cas) (impu_store_of with_cas) w"

definition get_impu_for_store :: "'w clk \<Rightarrow> mirs \<Rightarrow> nat \<Rightarrow> 'w \<Rightarrow> default_impu option \<times> 'w" where
  "get_impu_for_store clk irs store w =
     (if m_store irs = Some store
      then let (d, w1) = create_impu clk irs (m_cas irs) (m_store irs) w in (Some d, w1)
      else (None, w))"

definition update_from_impu_from_store :: "'w clk \<Rightarrow> default_impu \<Rightarrow> mirs \<Rightarrow> 'w \<Rightarrow> mirs \<times> 'w" where
  "update_from_impu_from_store clk impu irs w =
     (let irs1 = (if \<not> m_registration_state_set irs
                  then irs\<lparr>m_registration_state := d_registration_state impu\<rparr> else irs);
          irs2 = (if \<not> m_ims_sub_xml_set irs1
                  then irs1\<lparr>m_ims_sub_xml := d_service_profile impu\<rparr> else irs1);
          irs3 = (if \<not> m_charging_addresses_set irs2
                  then irs2\<lparr>m_charging_addresses := d_charging_addresses impu\<rparr> else irs2);
          irs4 = irs3\<lparr>m_impis := merge_data_sets (m_impis irs3) (d_impis impu)\<rparr>
      in if m_refreshed irs4 then
           (irs4\<lparr>m_associated_impus :=
              fold (\<lambda>assoc_impu data. omap_emplace assoc_impu DELETED data)
                (d_associated_impus impu) (m_associated_impus irs4)\<rparr>, w)
         else
           let (t, w1) = clk w; now = s32 t
           in (irs4\<lparr>m_ttl := s32 (i_expiry impu - now),
                m_associated_impus :=
                  merge_data_sets (m_associated_impus irs4) (d_associated_impus impu)\<rparr>, w1))"

section \<open>What the tracked data say\<close>

definition alive :: "State option \<Rightarrow> bool" where
  "alive s \<longleftrightarrow> s = Some UNCHANGED \<or> s = Some ADDED"

lemma not_DELETED: "s \<noteq> DELETED \<longleftrightarrow> s = UNCHANGED \<or> s = ADDED"
  by (cases s) auto

lemma set_present_elements:
  "omap_ok data \<Longrightarrow> k \<in> set (present_elements data) \<longleftrightarrow> alive (map_of data k)"
  by (force simp: present_elements_def alive_def map_of_omap_iff)

lemma sorted_filter_keys:
  "omap_ok data \<Longrightarrow> sorted_wrt (<) (map fst (filter P data))"
  by (induction data) auto

lemma sorted_present_elements: "omap_ok data \<Longrightarrow> sorted_wrt (<) (present_elements data)"
  unfolding present_elements_def by (rule sorted_filter_keys)

lemma set_elements_in_state:
  "omap_ok data \<Longrightarrow> k \<in> set (get_elements_in_state data st) \<longleftrightarrow> map_of data k = Some st"
  by (force simp: get_elements_in_state_def map_of_omap_iff)

lemma distinct_elements_in_state:
  "omap_ok data \<Longrightarrow> distinct (get_elements_in_state data st)"
  using sorted_filter_keys [of data "\<lambda>entry. snd entry = st"]
  by (simp add: get_elements_in_state_def strict_sorted_iff)

text \<open>Each loop over a map, as a function of the state every key had before.\<close>

lemma fold_insert_unchanged:
  "omap_ok m \<Longrightarrow> omap_ok (fold (\<lambda>k data. omap_insert k UNCHANGED data) ks m) \<and>
     map_of (fold (\<lambda>k data. omap_insert k UNCHANGED data) ks m) k =
       (if k \<in> set ks then Some UNCHANGED else map_of m k)"
  by (induction ks arbitrary: m) auto

lemma fold_emplace_deleted:
  "omap_ok m \<Longrightarrow> omap_ok (fold (\<lambda>k data. omap_emplace k DELETED data) ks m) \<and>
     map_of (fold (\<lambda>k data. omap_emplace k DELETED data) ks m) k =
       (case map_of m k of None \<Rightarrow> if k \<in> set ks then Some DELETED else None | Some s \<Rightarrow> Some s)"
  by (induction ks arbitrary: m) (auto simp: map_of_omap_emplace split: option.split)

lemma merge_data_sets_map:
  assumes "omap_ok m"
  shows "omap_ok (merge_data_sets m ks)"
    and "map_of (merge_data_sets m ks) k =
      (case map_of m k of
         None \<Rightarrow> if k \<in> set ks then Some UNCHANGED else None
       | Some s \<Rightarrow> if s = UNCHANGED \<and> k \<notin> set ks then Some DELETED else Some s)"
proof -
  let ?f = "fold (\<lambda>key data. if map_of data key = None then omap_insert key UNCHANGED data else data) ks"
  have "omap_ok (?f m) \<and> map_of (?f m) k =
      (case map_of m k of None \<Rightarrow> if k \<in> set ks then Some UNCHANGED else None | Some s \<Rightarrow> Some s)"
    using assms by (induction ks arbitrary: m) (auto split: option.split)
  then show "omap_ok (merge_data_sets m ks)"
    and "map_of (merge_data_sets m ks) k =
      (case map_of m k of
         None \<Rightarrow> if k \<in> set ks then Some UNCHANGED else None
       | Some s \<Rightarrow> if s = UNCHANGED \<and> k \<notin> set ks then Some DELETED else Some s)"
    by (auto simp: merge_data_sets_def map_of_omap_map split: option.split)
qed

lemma set_elements_map:
  assumes "omap_ok m"
  shows "omap_ok (set_elements ks m ign)"
    and "map_of (set_elements ks m ign) k =
      (if k \<notin> set ks then map_option (\<lambda>_. DELETED) (map_of m k)
       else if k = ign then map_of m k
       else case map_of m k of
         None \<Rightarrow> Some ADDED | Some s \<Rightarrow> Some (if s = DELETED then ADDED else s))"
proof -
  let ?g = "\<lambda>entry data. if entry \<noteq> ign then
      (case map_of data entry of None \<Rightarrow> omap_insert entry ADDED data
        | Some st \<Rightarrow> if st = DELETED then omap_insert entry ADDED data else data) else data"
  have "omap_ok (fold ?g us n) \<and> map_of (fold ?g us n) k =
      (if k \<in> set us \<and> k \<noteq> ign then
         case map_of n k of None \<Rightarrow> Some ADDED | Some s \<Rightarrow> Some (if s = DELETED then ADDED else s)
       else map_of n k)" if "omap_ok n" for us n
    using that by (induction us arbitrary: n) (auto split: option.split)
  from this [of "omap_map (\<lambda>k st. if k \<notin> set ks then DELETED else st) m" ks]
  show "omap_ok (set_elements ks m ign)"
    and "map_of (set_elements ks m ign) k =
      (if k \<notin> set ks then map_option (\<lambda>_. DELETED) (map_of m k)
       else if k = ign then map_of m k
       else case map_of m k of
         None \<Rightarrow> Some ADDED | Some s \<Rightarrow> Some (if s = DELETED then ADDED else s))"
    using assms by (auto simp: set_elements_def map_of_omap_map split: option.split)
qed

lemma delete_tracked_map [simp]:
  "omap_ok (delete_tracked m) = omap_ok m"
  "map_of (delete_tracked m) k = map_option (\<lambda>_. DELETED) (map_of m k)"
  by (simp_all add: delete_tracked_def map_of_omap_map)

lemmas tracked_maps = merge_data_sets_map set_elements_map fold_insert_unchanged
  fold_emplace_deleted

section \<open>The invariant\<close>

text \<open>
  The tracking maps are ordered maps and the TTL is an \<open>int32_t\<close>.
\<close>

definition mirs_ok :: "mirs \<Rightarrow> bool" where
  "mirs_ok irs \<longleftrightarrow> omap_ok (m_impis irs) \<and> omap_ok (m_associated_impus irs) \<and>
     - 2147483648 \<le> m_ttl irs \<and> m_ttl irs < 2147483648"

lemma mirs_ok_update [intro]:
  "mirs_ok irs \<Longrightarrow> mirs_ok (fst (update_from_impu_from_store clk d irs w))"
  by (auto simp: mirs_ok_def update_from_impu_from_store_def tracked_maps s32_range Let_def
      split: prod.split)

lemma mirs_ok_of_impu [intro]: "mirs_ok (fst (mirs_of_impu clk d w))"
  by (simp add: mirs_ok_def mirs_of_impu_def tracked_maps s32_range Let_def split: prod.split)

lemma mirs_ok_delete [intro]: "mirs_ok irs \<Longrightarrow> mirs_ok (delete_assoc_impus irs)"
  "mirs_ok irs \<Longrightarrow> mirs_ok (delete_impis irs)" "mirs_ok irs \<Longrightarrow> mirs_ok (mark_as_refreshed irs)"
  by (simp_all add: mirs_ok_def delete_assoc_impus_def delete_impis_def mark_as_refreshed_def)

lemma mirs_ok_set [intro]: "mirs_ok irs \<Longrightarrow> mirs_ok (set_ims_sub_xml X xml irs)"
  "mirs_ok irs \<Longrightarrow> mirs_ok (set_reg_state st irs)"
  "mirs_ok irs \<Longrightarrow> mirs_ok (set_charging_addresses ca irs)"
  "mirs_ok irs \<Longrightarrow> mirs_ok (add_associated_impi impi irs)"
  "mirs_ok irs \<Longrightarrow> mirs_ok (delete_associated_impi impi irs)"
  "mirs_ok irs \<Longrightarrow> - 2147483648 \<le> ttl \<Longrightarrow> ttl < 2147483648 \<Longrightarrow> mirs_ok (set_ttl ttl irs)"
  by (auto simp: mirs_ok_def set_ims_sub_xml_def set_reg_state_def set_charging_addresses_def
      add_associated_impi_def delete_associated_impi_def set_ttl_def tracked_maps Let_def
      split: prod.split)

section \<open>Merging and rebuilding\<close>

lemma present_merged:
  assumes "omap_ok m"
  shows "set (present_elements (merge_data_sets m ks)) =
    {k. map_of m k = Some ADDED} \<union> {k \<in> set ks. map_of m k \<noteq> Some DELETED}"
  using assms
  by (auto simp: set_present_elements merge_data_sets_map alive_def not_DELETED
      split: option.splits if_splits)

lemma present_emplaced:
  assumes "omap_ok m"
  shows "set (present_elements (fold (\<lambda>k data. omap_emplace k DELETED data) ks m)) =
    set (present_elements m)"
proof -
  note F = fold_emplace_deleted [OF assms, of ks]
  have "alive (map_of (fold (\<lambda>k data. omap_emplace k DELETED data) ks m) k) = alive (map_of m k)" for k
    using F [of k] by (auto simp: alive_def split: option.splits)
  then show ?thesis
    using F assms by (auto simp: set_present_elements)
qed

lemma update_fields:
  "m_registration_state (fst (update_from_impu_from_store clk d irs w)) =
     (if m_registration_state_set irs then m_registration_state irs else d_registration_state d)"
  "m_ims_sub_xml (fst (update_from_impu_from_store clk d irs w)) =
     (if m_ims_sub_xml_set irs then m_ims_sub_xml irs else d_service_profile d)"
  "m_charging_addresses (fst (update_from_impu_from_store clk d irs w)) =
     (if m_charging_addresses_set irs then m_charging_addresses irs else d_charging_addresses d)"
  "m_impis (fst (update_from_impu_from_store clk d irs w)) = merge_data_sets (m_impis irs) (d_impis d)"
  "m_associated_impus (fst (update_from_impu_from_store clk d irs w)) =
     (if m_refreshed irs
      then fold (\<lambda>k data. omap_emplace k DELETED data) (d_associated_impus d) (m_associated_impus irs)
      else merge_data_sets (m_associated_impus irs) (d_associated_impus d))"
  "m_ttl (fst (update_from_impu_from_store clk d irs w)) =
     (if m_refreshed irs then m_ttl irs else s32 (i_expiry d - s32 (fst (clk w))))"
  "m_default_impu (fst (update_from_impu_from_store clk d irs w)) = m_default_impu irs"
  "m_refreshed (fst (update_from_impu_from_store clk d irs w)) = m_refreshed irs"
  "m_existing (fst (update_from_impu_from_store clk d irs w)) = m_existing irs"
  "m_store (fst (update_from_impu_from_store clk d irs w)) = m_store irs"
  "m_cas (fst (update_from_impu_from_store clk d irs w)) = m_cas irs"
  by (simp_all add: update_from_impu_from_store_def Let_def split: prod.split)

lemma of_impu_fields [simp]:
  "m_default_impu (fst (mirs_of_impu clk d w)) = i_impu d"
  "m_store (fst (mirs_of_impu clk d w)) = i_store d"
  "m_cas (fst (mirs_of_impu clk d w)) = i_cas d"
  "m_ttl (fst (mirs_of_impu clk d w)) = s32 (i_expiry d - fst (clk w))"
  "m_refreshed (fst (mirs_of_impu clk d w)) = False"
  "m_existing (fst (mirs_of_impu clk d w)) = True"
  "m_ims_sub_xml (fst (mirs_of_impu clk d w)) = d_service_profile d"
  "m_charging_addresses (fst (mirs_of_impu clk d w)) = d_charging_addresses d"
  "m_registration_state (fst (mirs_of_impu clk d w)) = d_registration_state d"
  "m_ims_sub_xml_set (fst (mirs_of_impu clk d w)) = False"
  "m_charging_addresses_set (fst (mirs_of_impu clk d w)) = False"
  "m_registration_state_set (fst (mirs_of_impu clk d w)) = False"
  "snd (mirs_of_impu clk d w) = snd (clk w)"
  by (simp_all add: mirs_of_impu_def Let_def split: prod.split)

text \<open>The elements of a record come back in key order, each once.\<close>

lemma sorted_list_unique:
  "sorted_wrt (<) xs \<Longrightarrow> sorted_wrt (<) ys \<Longrightarrow> set xs = set ys \<Longrightarrow> xs = ys"
  for xs ys :: "'a::linorder list"
  by (simp add: strict_sorted_iff sorted_distinct_set_unique)

lemma present_of_impu:
  "present_elements (fold (\<lambda>k data. omap_insert k UNCHANGED data) ks []) = sorted_list_of_set (set ks)"
proof (rule sorted_list_unique)
  let ?m = "fold (\<lambda>k data. omap_insert k UNCHANGED data) ks ([] :: Data)"
  have ok: "omap_ok ?m" and map: "map_of ?m k = (if k \<in> set ks then Some UNCHANGED else None)" for k
    using fold_insert_unchanged [of "[]" ks] by auto
  show "sorted_wrt (<) (present_elements ?m)" by (rule sorted_present_elements [OF ok])
  show "set (present_elements ?m) = set (sorted_list_of_set (set ks))"
    using map by (auto simp: set_present_elements [OF ok] alive_def split: if_splits)
qed simp

lemma of_impu_elements:
  "get_associated_impis (fst (mirs_of_impu clk d w)) = sorted_list_of_set (set (d_impis d))"
  "get_associated_impus (fst (mirs_of_impu clk d w)) = sorted_list_of_set (set (d_associated_impus d))"
  using present_of_impu
  by (simp_all add: get_associated_impis_def get_associated_impus_def mirs_of_impu_def Let_def
      split: prod.split)

lemma has_changed_data_iff:
  "omap_ok m \<Longrightarrow> has_changed_data m \<longleftrightarrow> (\<exists>k s. map_of m k = Some s \<and> s \<noteq> UNCHANGED)"
proof -
  assume "omap_ok m"
  moreover have "s \<noteq> UNCHANGED \<longleftrightarrow> s = ADDED \<or> s = DELETED" for s by (cases s) auto
  ultimately show ?thesis by (force simp: has_changed_data_def map_of_omap_iff)
qed

text \<open>A record to exercise the properties below.\<close>

definition sample_record :: default_impu where
  "sample_record = \<lparr>i_impu = ''sip:a'', i_cas = 7, i_expiry = 1000, i_store = Some 1,
     d_registration_state = REGISTERED, d_charging_addresses = \<lparr>ccfs = [''ccf''], ecfs = []\<rparr>,
     d_associated_impus = [''sip:b'', ''sip:c''], d_impis = [''i1'', ''i2''],
     d_service_profile = ''xml''\<rparr>"

section \<open>Properties\<close>



text \<open>
  C20: merging a stored record into a registration set (\<open>update_from_impu_from_store\<close>) keeps every
  field the caller has set and takes the others from the record. The IMPIs afterwards are those the
  caller added and those of the record that the caller did not delete. When the set was refreshed,
  the caller's associated IMPUs and TTL stand and the record's other associated IMPUs are marked for
  deletion; otherwise the associated IMPUs are merged like the IMPIs and the TTL is the record's.
\<close>

theorem merge_from_store:
  assumes "mirs_ok irs" and "update_from_impu_from_store clk d irs w = (irs', w')"
  shows "m_registration_state irs' =
      (if m_registration_state_set irs then m_registration_state irs else d_registration_state d) \<and>
    m_ims_sub_xml irs' = (if m_ims_sub_xml_set irs then m_ims_sub_xml irs else d_service_profile d) \<and>
    m_charging_addresses irs' =
      (if m_charging_addresses_set irs then m_charging_addresses irs else d_charging_addresses d) \<and>
    set (get_associated_impis irs') = {k. map_of (m_impis irs) k = Some ADDED} \<union>
      {k \<in> set (d_impis d). map_of (m_impis irs) k \<noteq> Some DELETED} \<and>
    (if m_refreshed irs
     then set (get_associated_impus irs') = set (get_associated_impus irs) \<and>
       set (d_associated_impus d) - set (get_associated_impus irs) \<subseteq> set (impus_in irs' DELETED) \<and>
       m_ttl irs' = m_ttl irs
     else set (get_associated_impus irs') = {k. map_of (m_associated_impus irs) k = Some ADDED} \<union>
       {k \<in> set (d_associated_impus d). map_of (m_associated_impus irs) k \<noteq> Some DELETED} \<and>
       m_ttl irs' = s32 (i_expiry d - s32 (fst (clk w))))"
proof -
  have ok: "omap_ok (m_impis irs)" "omap_ok (m_associated_impus irs)"
    using assms(1) by (simp_all add: mirs_ok_def)
  have irs'_def: "irs' = fst (update_from_impu_from_store clk d irs w)"
    using assms(2) by simp
  note F = fold_emplace_deleted [OF ok(2), of "d_associated_impus d"]
  have "k \<in> set (impus_in irs' DELETED)"
    if "m_refreshed irs" "k \<in> set (d_associated_impus d)" "k \<notin> set (get_associated_impus irs)" for k
  proof -
    have "\<not> alive (map_of (m_associated_impus irs) k)"
      using that(3) ok by (simp add: get_associated_impus_def set_present_elements)
    then have "map_of (m_associated_impus irs') k = Some DELETED"
      using F [of k] that(1,2) not_DELETED
      by (auto simp: irs'_def update_fields alive_def split: option.splits)
    then show ?thesis
      using F that(1) by (simp add: impus_in_def set_elements_in_state irs'_def update_fields)
  qed
  then show ?thesis
    using ok by (auto simp: irs'_def update_fields get_associated_impis_def get_associated_impus_def
        present_merged present_emplaced)
qed

theorem merge_from_store_witness:
  "set (get_associated_impis (fst (update_from_impu_from_store (\<lambda>w. (100, w)) sample_record
      (delete_associated_impi ''i1'' (add_associated_impi ''i3'' (new_mirs 300 REGISTERED))) ()))) =
    {''i2'', ''i3''}"
proof -
  let ?irs = "delete_associated_impi ''i1'' (add_associated_impi ''i3'' (new_mirs 300 REGISTERED))"
  have maps: "m_impis ?irs = [(''i1'', DELETED), (''i3'', ADDED)]"
    by (simp add: new_mirs_def add_associated_impi_def delete_associated_impi_def)
  have ok: "mirs_ok ?irs"
    by (simp add: mirs_ok_def new_mirs_def add_associated_impi_def delete_associated_impi_def)
  show ?thesis
    using merge_from_store [OF ok prod.collapse [symmetric], of "\<lambda>w. (100, w)" sample_record "()"]
    by (auto simp: maps sample_record_def split: if_splits)
qed

text \<open>
  A registration set built from a stored record and turned into a record again, with the clock
  unchanged in between, is that record, provided its lists are in key order (as every record the
  cache writes has them) and its expiry and the clock fit 32 bits.
\<close>

theorem irs_of_record_roundtrip:
  assumes "sorted_wrt (<) (d_impis d)" and "sorted_wrt (<) (d_associated_impus d)"
    and "- 2147483648 \<le> i_expiry d" and "i_expiry d < 2147483648"
    and "clk w = (t, w1)" and "clk w1 = (t, w2)"
  shows "create_impu clk (fst (mirs_of_impu clk d w)) (i_cas d) (i_store d) (snd (mirs_of_impu clk d w)) =
    (d, w2)"
proof -
  have lists: "sorted_list_of_set (set xs) = xs" if "sorted_wrt (<) xs" for xs :: "string list"
    using that by (simp add: strict_sorted_iff sorted_list_of_set_sort_remdups sorted_sort_id distinct_remdups_id)
  have "s32 (s32 (i_expiry d - t) + s32 t) = i_expiry d"
  proof -
    have "(s32 (i_expiry d - t) + s32 t) mod 4294967296 =
        (s32 (i_expiry d - t) mod 4294967296 + s32 t mod 4294967296) mod 4294967296"
      by (simp add: mod_add_eq)
    also have "\<dots> = i_expiry d mod 4294967296"
      by (simp add: s32_mod mod_add_eq)
    finally show ?thesis
      using s32_cong [of "s32 (i_expiry d - t) + s32 t" "i_expiry d"] s32_id [OF assms(3,4)] by simp
  qed
  then show ?thesis
    using assms(5,6) lists [OF assms(1)] lists [OF assms(2)]
    by (simp add: create_impu_def of_impu_elements)
qed

theorem irs_of_record_roundtrip_witness:
  "create_impu (\<lambda>w. (100, w)) (fst (mirs_of_impu (\<lambda>w. (100, w)) sample_record ())) 7 (Some 1)
     (snd (mirs_of_impu (\<lambda>w. (100, w)) sample_record ())) = (sample_record, ())"
  using irs_of_record_roundtrip [of sample_record "\<lambda>w. (100, w)" "()" 100 "()" "()"]
  by (simp add: sample_record_def)

end
