(* ===== verification/Impu_Store.thy ===== *)
theory Impu_Store
  imports Impu_Record
begin

text \<open>
  The operations of the class \<open>ImpuStore\<close> (\<open>src/impu_store.cpp\<close>) over the external data store.
  The methods are virtual, and the cache calls them through a pointer: an \<open>ImpuStore*\<close> is a
  record of operations, and \<open>impu_store_ops\<close> is the record the class itself provides. The
  locale \<open>impu_repository\<close> is the contract the cache relies on, stated over the decoded contents;
  it is interpreted on \<open>impu_store_ops\<close> for every data store that behaves as documented.
\<close>

section \<open>Model\<close>

text \<open>An \<open>ImpuStore\<close> object: its identity (a pointer value) and its \<open>Store*\<close>.\<close>

record 'w impu_store =
  s_id :: nat
  s_store :: "'w store_api"

definition get_impu ::
  "('w, 'j) ext \<Rightarrow> 'w impu_store \<Rightarrow> string \<Rightarrow> 'w \<Rightarrow> (status \<times> Impu option) \<times> 'w" where
  "get_impu E S impu w =
     (let ((status, data, cas), w1) = get_data (s_store S) ''impu'' impu w
      in if status = OK then
           case from_data E impu data cas (Some (s_id S)) of
             None \<Rightarrow> ((ERROR, None), w1)
           | Some temp_impu \<Rightarrow> ((OK, Some temp_impu), w1)
         else ((status, None), w1))"

definition set_impu_without_cas ::
  "('w, 'j) ext \<Rightarrow> 'w impu_store \<Rightarrow> Impu \<Rightarrow> 'w \<Rightarrow> status \<times> 'w" where
  "set_impu_without_cas E S impu w =
     (let (status, data) = to_data E impu
      in if status = OK then
           let (t, w1) = time0 E w; now = s32 t
           in set_data_without_cas (s_store S) ''impu'' (impu_key impu) data
                (s64 (impu_expiry impu - now)) w1
         else (status, w))"

definition add_impu ::
  "('w, 'j) ext \<Rightarrow> 'w impu_store \<Rightarrow> Impu \<Rightarrow> 'w \<Rightarrow> status \<times> 'w" where
  "add_impu E S impu w =
     (let (status, data) = to_data E impu
      in if status = OK then
           let (t, w1) = time0 E w; now = s32 t
           in set_data (s_store S) ''impu'' (impu_key impu) data 0
                (s64 (impu_expiry impu - now)) w1
         else (status, w))"

definition set_impu ::
  "('w, 'j) ext \<Rightarrow> 'w impu_store \<Rightarrow> Impu \<Rightarrow> 'w \<Rightarrow> status \<times> 'w" where
  "set_impu E S impu w =
     (let (status, data) = to_data E impu
      in if status = OK then
           let (t, w1) = time0 E w; now = s32 t
           in set_data (s_store S) ''impu'' (impu_key impu) data (impu_cas impu)
                (s64 (impu_expiry impu - now)) w1
         else (status, w))"

definition delete_impu ::
  "'w impu_store \<Rightarrow> Impu \<Rightarrow> 'w \<Rightarrow> status \<times> 'w" where
  "delete_impu S impu w = delete_data (s_store S) ''impu'' (impu_key impu) w"

definition get_impi_mapping ::
  "('w, 'j) ext \<Rightarrow> 'w impu_store \<Rightarrow> string \<Rightarrow> 'w \<Rightarrow> (status \<times> impi_mapping option) \<times> 'w" where
  "get_impi_mapping E S impi w =
     (let ((status, data, cas), w1) = get_data (s_store S) ''impi_mapping'' impi w
      in if status = OK then
           case mapping_from_data E impi data cas of
             None \<Rightarrow> ((ERROR, None), w1)
           | Some mapping \<Rightarrow> ((OK, Some mapping), w1)
         else ((status, None), w1))"

definition set_impi_mapping ::
  "('w, 'j) ext \<Rightarrow> 'w impu_store \<Rightarrow> impi_mapping \<Rightarrow> 'w \<Rightarrow> status \<times> 'w" where
  "set_impi_mapping E S mapping w =
     (let (status, data) = mapping_to_data E mapping
      in if status = OK then
           let (t, w1) = time0 E w; now = s32 t
           in set_data (s_store S) ''impi_mapping'' (p_impi mapping) data (p_cas mapping)
                (s64 (p_expiry mapping - now)) w1
         else (status, w))"

definition delete_impi_mapping ::
  "'w impu_store \<Rightarrow> impi_mapping \<Rightarrow> 'w \<Rightarrow> status \<times> 'w" where
  "delete_impi_mapping S mapping w =
     delete_data (s_store S) ''impi_mapping'' (p_impi mapping) w"

text \<open>The virtual methods behind an \<open>ImpuStore*\<close>.\<close>

record 'w impu_ops =
  op_id :: nat
  op_get_impu :: "string \<Rightarrow> 'w \<Rightarrow> (status \<times> Impu option) \<times> 'w"
  op_set_impu_without_cas :: "Impu \<Rightarrow> 'w \<Rightarrow> status \<times> 'w"
  op_add_impu :: "Impu \<Rightarrow> 'w \<Rightarrow> status \<times> 'w"
  op_set_impu :: "Impu \<Rightarrow> 'w \<Rightarrow> status \<times> 'w"
  op_delete_impu :: "Impu \<Rightarrow> 'w \<Rightarrow> status \<times> 'w"
  op_get_impi_mapping :: "string \<Rightarrow> 'w \<Rightarrow> (status \<times> impi_mapping option) \<times> 'w"
  op_set_impi_mapping :: "impi_mapping \<Rightarrow> 'w \<Rightarrow> status \<times> 'w"
  op_delete_impi_mapping :: "impi_mapping \<Rightarrow> 'w \<Rightarrow> status \<times> 'w"

definition impu_store_ops :: "('w, 'j) ext \<Rightarrow> 'w impu_store \<Rightarrow> 'w impu_ops" where
  "impu_store_ops E S = \<lparr>
     op_id = s_id S,
     op_get_impu = get_impu E S,
     op_set_impu_without_cas = set_impu_without_cas E S,
     op_add_impu = add_impu E S,
     op_set_impu = set_impu E S,
     op_delete_impu = delete_impu S,
     op_get_impi_mapping = get_impi_mapping E S,
     op_set_impi_mapping = set_impi_mapping E S,
     op_delete_impi_mapping = delete_impi_mapping S\<rparr>"

section \<open>Documented behaviour of the data store\<close>

text \<open>
  A quiet data store: the contents, seen through \<open>V\<close> as a map from store, table and key to data
  and CAS value, change only by the calls made here, and the clock does not tick meanwhile. A
  CAS value of zero stands for an absent entry; a write with a CAS value that does not match
  fails with \<open>DATA_CONTENTION\<close> and changes nothing.
\<close>

type_synonym contents = "nat \<times> string \<times> string \<Rightarrow> (string \<times> cas) option"

definition cas_matches :: "(string \<times> cas) option \<Rightarrow> cas \<Rightarrow> bool" where
  "cas_matches entry c = (case entry of None \<Rightarrow> c = 0 | Some (d, c') \<Rightarrow> c = c')"

definition clock :: "('w, 'j) ext \<Rightarrow> 'w \<Rightarrow> int" where
  "clock E w = fst (time0 E w)"

definition same_view :: "('w, 'j) ext \<Rightarrow> ('w \<Rightarrow> contents) \<Rightarrow> 'w \<Rightarrow> 'w \<Rightarrow> bool" where
  "same_view E V w w' \<longleftrightarrow> V w' = V w \<and> clock E w' = clock E w"

definition stored_as ::
  "('w, 'j) ext \<Rightarrow> ('w \<Rightarrow> contents) \<Rightarrow> nat \<times> string \<times> string \<Rightarrow> string \<Rightarrow> 'w \<Rightarrow> 'w \<Rightarrow> bool" where
  "stored_as E V x d w w' \<longleftrightarrow>
     (\<exists>c. c \<noteq> 0 \<and> V w' = (V w)(x \<mapsto> (d, c))) \<and> clock E w' = clock E w"

definition store_contract ::
  "('w, 'j) ext \<Rightarrow> ('w \<Rightarrow> contents) \<Rightarrow> 'w impu_store \<Rightarrow> bool" where
  "store_contract E V S \<longleftrightarrow>
     (\<forall>w. same_view E V w (snd (time0 E w))) \<and>
     (\<forall>w x d c. V w x = Some (d, c) \<longrightarrow> c \<noteq> 0) \<and>
     (\<forall>t k w. same_view E V w (snd (get_data (s_store S) t k w)) \<and>
        (case V w (s_id S, t, k) of
           None \<Rightarrow> fst (fst (get_data (s_store S) t k w)) = NOT_FOUND
         | Some (d, c) \<Rightarrow> fst (get_data (s_store S) t k w) = (OK, d, c))) \<and>
     (\<forall>t k d c e w. 0 < e \<longrightarrow>
        (if cas_matches (V w (s_id S, t, k)) c
         then fst (set_data (s_store S) t k d c e w) = OK \<and>
              stored_as E V (s_id S, t, k) d w (snd (set_data (s_store S) t k d c e w))
         else fst (set_data (s_store S) t k d c e w) = DATA_CONTENTION \<and>
              same_view E V w (snd (set_data (s_store S) t k d c e w)))) \<and>
     (\<forall>t k d e w. 0 < e \<longrightarrow>
        fst (set_data_without_cas (s_store S) t k d e w) = OK \<and>
        stored_as E V (s_id S, t, k) d w (snd (set_data_without_cas (s_store S) t k d e w))) \<and>
     (\<forall>t k w. fst (delete_data (s_store S) t k w) = OK \<and>
        V (snd (delete_data (s_store S) t k w)) = (V w)((s_id S, t, k) := None) \<and>
        clock E (snd (delete_data (s_store S) t k w)) = clock E w)"


lemma store_contractD:
  assumes "store_contract E V S"
  shows "same_view E V w (snd (time0 E w))"
    and "same_view E V w (snd (get_data (s_store S) t k w))"
    and "V w (s_id S, t, k) = None \<Longrightarrow> fst (fst (get_data (s_store S) t k w)) = NOT_FOUND"
    and "V w (s_id S, t, k) = Some (d, c) \<Longrightarrow> fst (get_data (s_store S) t k w) = (OK, d, c)"
    and "0 < e \<Longrightarrow> cas_matches (V w (s_id S, t, k)) c \<Longrightarrow>
      fst (set_data (s_store S) t k d c e w) = OK \<and>
      stored_as E V (s_id S, t, k) d w (snd (set_data (s_store S) t k d c e w))"
    and "0 < e \<Longrightarrow> \<not> cas_matches (V w (s_id S, t, k)) c \<Longrightarrow>
      fst (set_data (s_store S) t k d c e w) = DATA_CONTENTION \<and>
      same_view E V w (snd (set_data (s_store S) t k d c e w))"
    and "0 < e \<Longrightarrow> fst (set_data_without_cas (s_store S) t k d e w) = OK \<and>
      stored_as E V (s_id S, t, k) d w (snd (set_data_without_cas (s_store S) t k d e w))"
    and "fst (delete_data (s_store S) t k w) = OK \<and>
      V (snd (delete_data (s_store S) t k w)) = (V w)((s_id S, t, k) := None) \<and>
      clock E (snd (delete_data (s_store S) t k w)) = clock E w"
    and "V w x = Some (d, c) \<Longrightarrow> c \<noteq> 0"
proof -
  have get: "same_view E V w (snd (get_data (s_store S) t k w)) \<and>
      (case V w (s_id S, t, k) of
         None \<Rightarrow> fst (fst (get_data (s_store S) t k w)) = NOT_FOUND
       | Some (d, c) \<Rightarrow> fst (get_data (s_store S) t k w) = (OK, d, c))" for t k
    using assms by (simp only: store_contract_def)
  then show "same_view E V w (snd (get_data (s_store S) t k w))"
    and "V w (s_id S, t, k) = None \<Longrightarrow> fst (fst (get_data (s_store S) t k w)) = NOT_FOUND"
    and "V w (s_id S, t, k) = Some (d, c) \<Longrightarrow> fst (get_data (s_store S) t k w) = (OK, d, c)"
    using get [of t k] by simp_all
  show "V w x = Some (d, c) \<Longrightarrow> c \<noteq> 0"
    using conjunct1 [OF conjunct2 [OF assms [unfolded store_contract_def]]] by blast
qed (use assms in \<open>auto simp: store_contract_def\<close>)

section \<open>The contract the cache relies on\<close>

text \<open>
  The abstract view of the world: what reading each IMPU and each IMPI mapping of each store
  returns, and the clock. The four updates are what the write operations do to it.
\<close>

record repo_view =
  r_impu :: "nat \<Rightarrow> string \<Rightarrow> status \<times> Impu option"
  r_map :: "nat \<Rightarrow> string \<Rightarrow> status \<times> impi_mapping option"
  r_now :: int

definition put_impu :: "nat \<Rightarrow> cas \<Rightarrow> Impu \<Rightarrow> repo_view \<Rightarrow> repo_view" where
  "put_impu n c i v = v\<lparr>r_impu := (r_impu v)(n := (r_impu v n)
     (impu_key i := (OK, Some (stored_view c (Some n) i))))\<rparr>"

definition drop_impu :: "nat \<Rightarrow> string \<Rightarrow> repo_view \<Rightarrow> repo_view" where
  "drop_impu n k v = v\<lparr>r_impu := (r_impu v)(n := (r_impu v n)(k := (NOT_FOUND, None)))\<rparr>"

definition put_map :: "nat \<Rightarrow> cas \<Rightarrow> impi_mapping \<Rightarrow> repo_view \<Rightarrow> repo_view" where
  "put_map n c m v = v\<lparr>r_map := (r_map v)(n := (r_map v n)
     (p_impi m := (OK, Some (m\<lparr>p_cas := c\<rparr>))))\<rparr>"

definition drop_map :: "nat \<Rightarrow> string \<Rightarrow> repo_view \<Rightarrow> repo_view" where
  "drop_map n k v = v\<lparr>r_map := (r_map v)(n := (r_map v n)(k := (NOT_FOUND, None)))\<rparr>"

text \<open>
  Whether a write with a CAS value goes through: the entry it replaces has that value, or there
  is none and the value is zero.
\<close>

fun cas_fresh :: "status \<times> cas option \<Rightarrow> cas \<Rightarrow> bool" where
  "cas_fresh (_, Some c') c = (c = c')"
| "cas_fresh (_, None) c = (c = 0)"

definition impu_cas_ok :: "repo_view \<Rightarrow> nat \<Rightarrow> string \<Rightarrow> cas \<Rightarrow> bool" where
  "impu_cas_ok v n k c = cas_fresh (map_prod id (map_option impu_cas) (r_impu v n k)) c"

definition map_cas_ok :: "repo_view \<Rightarrow> nat \<Rightarrow> string \<Rightarrow> cas \<Rightarrow> bool" where
  "map_cas_ok v n k c = cas_fresh (map_prod id (map_option p_cas) (r_map v n k)) c"

text \<open>
  The locale: \<open>time\<close> is the clock, \<open>ops e s\<close> the virtual methods of the store \<open>s\<close>, \<open>good\<close> the
  assumption under which the laws hold, \<open>fits\<close> the records that can be written at a time. An
  entry that cannot be decoded reads as \<open>ERROR\<close>; nothing is promised of a write over it.
\<close>

locale impu_repository =
  fixes time :: "'e \<Rightarrow> 'w \<Rightarrow> int \<times> 'w"
    and ops :: "'e \<Rightarrow> 's \<Rightarrow> 'w impu_ops"
    and view :: "'e \<Rightarrow> 'w \<Rightarrow> repo_view"
    and good :: "'e \<Rightarrow> 's \<Rightarrow> bool"
    and fits :: "'e \<Rightarrow> int \<Rightarrow> Impu \<Rightarrow> bool"
    and fits_mapping :: "'e \<Rightarrow> int \<Rightarrow> impi_mapping \<Rightarrow> bool"
  assumes time_law: "good e s \<Longrightarrow>
      fst (time e w) = r_now (view e w) \<and> view e (snd (time e w)) = view e w"
    and get_impu_law: "good e s \<Longrightarrow>
      fst (op_get_impu (ops e s) k w) = r_impu (view e w) (op_id (ops e s)) k \<and>
      view e (snd (op_get_impu (ops e s) k w)) = view e w"
    and get_mapping_law: "good e s \<Longrightarrow>
      fst (op_get_impi_mapping (ops e s) k w) = r_map (view e w) (op_id (ops e s)) k \<and>
      view e (snd (op_get_impi_mapping (ops e s) k w)) = view e w"
    and blind_set_law: "good e s \<Longrightarrow> fits e (r_now (view e w)) i \<Longrightarrow>
      \<exists>c. c \<noteq> 0 \<and> fst (op_set_impu_without_cas (ops e s) i w) = OK \<and>
        view e (snd (op_set_impu_without_cas (ops e s) i w)) =
          put_impu (op_id (ops e s)) c i (view e w)"
    and add_impu_law: "good e s \<Longrightarrow> fits e (r_now (view e w)) i \<Longrightarrow>
      fst (r_impu (view e w) (op_id (ops e s)) (impu_key i)) \<noteq> ERROR \<Longrightarrow>
      (if impu_cas_ok (view e w) (op_id (ops e s)) (impu_key i) 0
       then \<exists>c. c \<noteq> 0 \<and> fst (op_add_impu (ops e s) i w) = OK \<and>
         view e (snd (op_add_impu (ops e s) i w)) = put_impu (op_id (ops e s)) c i (view e w)
       else fst (op_add_impu (ops e s) i w) = DATA_CONTENTION \<and>
         view e (snd (op_add_impu (ops e s) i w)) = view e w)"
    and set_impu_law: "good e s \<Longrightarrow> fits e (r_now (view e w)) i \<Longrightarrow>
      fst (r_impu (view e w) (op_id (ops e s)) (impu_key i)) \<noteq> ERROR \<Longrightarrow>
      (if impu_cas_ok (view e w) (op_id (ops e s)) (impu_key i) (impu_cas i)
       then \<exists>c. c \<noteq> 0 \<and> fst (op_set_impu (ops e s) i w) = OK \<and>
         view e (snd (op_set_impu (ops e s) i w)) = put_impu (op_id (ops e s)) c i (view e w)
       else fst (op_set_impu (ops e s) i w) = DATA_CONTENTION \<and>
         view e (snd (op_set_impu (ops e s) i w)) = view e w)"
    and delete_impu_law: "good e s \<Longrightarrow>
      fst (op_delete_impu (ops e s) i w) = OK \<and>
      view e (snd (op_delete_impu (ops e s) i w)) =
        drop_impu (op_id (ops e s)) (impu_key i) (view e w)"
    and set_mapping_law: "good e s \<Longrightarrow> fits_mapping e (r_now (view e w)) m \<Longrightarrow>
      fst (r_map (view e w) (op_id (ops e s)) (p_impi m)) \<noteq> ERROR \<Longrightarrow>
      (if map_cas_ok (view e w) (op_id (ops e s)) (p_impi m) (p_cas m)
       then \<exists>c. c \<noteq> 0 \<and> fst (op_set_impi_mapping (ops e s) m w) = OK \<and>
         view e (snd (op_set_impi_mapping (ops e s) m w)) =
           put_map (op_id (ops e s)) c m (view e w)
       else fst (op_set_impi_mapping (ops e s) m w) = DATA_CONTENTION \<and>
         view e (snd (op_set_impi_mapping (ops e s) m w)) = view e w)"
    and delete_mapping_law: "good e s \<Longrightarrow>
      fst (op_delete_impi_mapping (ops e s) m w) = OK \<and>
      view e (snd (op_delete_impi_mapping (ops e s) m w)) =
        drop_map (op_id (ops e s)) (p_impi m) (view e w)"
    and impu_shape: "good e s \<Longrightarrow> r_impu (view e w) n k = (u, x) \<Longrightarrow>
      (case x of
         None \<Rightarrow> u = NOT_FOUND \<or> u = ERROR
       | Some i \<Rightarrow> u = OK \<and> impu_key i = k \<and> impu_store_of i = Some n \<and> impu_cas i \<noteq> 0)"
    and mapping_shape: "good e s \<Longrightarrow> r_map (view e w) n k = (u, y) \<Longrightarrow>
      (case y of None \<Rightarrow> u = NOT_FOUND \<or> u = ERROR | Some m \<Rightarrow> u = OK \<and> p_impi m = k \<and> p_cas m \<noteq> 0)"
    and fits_stored: "fits e t (stored_view c st i) = fits e t i"
    and fits_mapping_cas: "fits_mapping e t (m\<lparr>p_cas := c\<rparr>) = fits_mapping e t m"

section \<open>\<open>ImpuStore\<close> keeps the contract\<close>

text \<open>
  The environment of the interpretation is a pair of the libraries and the view of the data
  stores' raw contents; a store is good when the libraries and the data store behave as
  documented.
\<close>

definition read_impu :: "('w, 'j) ext \<Rightarrow> contents \<Rightarrow> nat \<Rightarrow> string \<Rightarrow> status \<times> Impu option" where
  "read_impu E cs n k =
     (case cs (n, ''impu'', k) of
        None \<Rightarrow> (NOT_FOUND, None)
      | Some (d, c) \<Rightarrow> (case from_data E k d c (Some n) of
          None \<Rightarrow> (ERROR, None) | Some i \<Rightarrow> (OK, Some i)))"

definition read_mapping ::
  "('w, 'j) ext \<Rightarrow> contents \<Rightarrow> nat \<Rightarrow> string \<Rightarrow> status \<times> impi_mapping option" where
  "read_mapping E cs n k =
     (case cs (n, ''impi_mapping'', k) of
        None \<Rightarrow> (NOT_FOUND, None)
      | Some (d, c) \<Rightarrow> (case mapping_from_data E k d c of
          None \<Rightarrow> (ERROR, None) | Some m \<Rightarrow> (OK, Some m)))"

definition ims_view ::
  "('w, 'j) ext \<times> ('w \<Rightarrow> contents) \<Rightarrow> 'w \<Rightarrow> repo_view" where
  "ims_view e w = \<lparr>r_impu = read_impu (fst e) (snd e w), r_map = read_mapping (fst e) (snd e w),
     r_now = clock (fst e) w\<rparr>"

definition ims_good :: "('w, 'j) ext \<times> ('w \<Rightarrow> contents) \<Rightarrow> 'w impu_store \<Rightarrow> bool" where
  "ims_good e S \<longleftrightarrow> codec_contract (fst e) \<and> store_contract (fst e) (snd e) S"

definition ims_fits :: "('w, 'j) ext \<times> ('w \<Rightarrow> contents) \<Rightarrow> int \<Rightarrow> Impu \<Rightarrow> bool" where
  "ims_fits e now i \<longleftrightarrow> storable i \<and> length (json_text (fst e) i) < 2147483647 \<and>
     fst (to_data (fst e) i) = OK \<and> 0 < s64 (impu_expiry i - s32 now)"

definition ims_fits_mapping ::
  "('w, 'j) ext \<times> ('w \<Rightarrow> contents) \<Rightarrow> int \<Rightarrow> impi_mapping \<Rightarrow> bool" where
  "ims_fits_mapping e now m \<longleftrightarrow> storable_mapping m \<and> 0 < s64 (p_expiry m - s32 now)"


lemma view_frame:
  "ims_view (E, V) w' = ims_view (E, V) w" if "same_view E V w w'"
  using that by (simp add: ims_view_def same_view_def)

lemma view_put_impu:
  assumes "codec_contract E" and "storable i" and "length (json_text E i) < 2147483647"
    and "to_data E i = (OK, d)" and "V w' = (V w)((n, ''impu'', impu_key i) \<mapsto> (d, c))"
    and "clock E w' = clock E w"
  shows "ims_view (E, V) w' = put_impu n c i (ims_view (E, V) w)"
proof -
  have "from_data E (impu_key i) d c (Some n) = Some (stored_view c (Some n) i)"
    using from_data_to_data [OF assms(1-4)] .
  then show ?thesis
    using assms(5,6)
    by (auto simp: ims_view_def put_impu_def read_impu_def read_mapping_def fun_eq_iff)
qed

lemma view_put_map:
  assumes "codec_contract E" and "storable_mapping m"
    and "V w' = (V w)((n, ''impi_mapping'', p_impi m) \<mapsto> (snd (mapping_to_data E m), c))"
    and "clock E w' = clock E w"
  shows "ims_view (E, V) w' = put_map n c m (ims_view (E, V) w)"
  using assms mapping_from_data_to_data(1) [OF assms(1,2)]
    mapping_from_data_to_data(2) [OF assms(1,2), of c]
  by (auto simp: ims_view_def put_map_def read_impu_def read_mapping_def fun_eq_iff)

lemma view_drop_impu:
  "ims_view (E, V) w' = drop_impu n k (ims_view (E, V) w)"
  if "V w' = (V w)((n, ''impu'', k) := None)" "clock E w' = clock E w"
  using that by (auto simp: ims_view_def drop_impu_def read_impu_def read_mapping_def fun_eq_iff)

lemma view_drop_map:
  "ims_view (E, V) w' = drop_map n k (ims_view (E, V) w)"
  if "V w' = (V w)((n, ''impi_mapping'', k) := None)" "clock E w' = clock E w"
  using that by (auto simp: ims_view_def drop_map_def read_impu_def read_mapping_def fun_eq_iff)

lemma same_view_clock: "same_view E V w w' \<Longrightarrow> V w' = V w \<and> clock E w' = clock E w"
  by (simp add: same_view_def)

lemma stored_as_D:
  "stored_as E V x d w w' \<Longrightarrow>
    (\<exists>c. c \<noteq> 0 \<and> V w' = (V w)(x \<mapsto> (d, c))) \<and> clock E w' = clock E w"
  by (simp add: stored_as_def)

lemma from_data_cas: "from_data E k d c st = Some i \<Longrightarrow>
    impu_cas i = c \<and> impu_key i = k \<and> impu_store_of i = st"
  unfolding from_data_def from_json_associated_def from_json_default_def Let_def
  by (simp split: if_splits prod.splits option.splits) auto

lemma cas_matches_read_impu:
  "fst (read_impu E cs n k) \<noteq> ERROR \<Longrightarrow>
     cas_matches (cs (n, ''impu'', k)) c =
       cas_fresh (map_prod id (map_option impu_cas) (read_impu E cs n k)) c"
  by (auto simp: read_impu_def cas_matches_def from_data_cas split: option.splits)

lemma cas_matches_read_mapping:
  "fst (read_mapping E cs n k) \<noteq> ERROR \<Longrightarrow>
     cas_matches (cs (n, ''impi_mapping'', k)) c =
       cas_fresh (map_prod id (map_option p_cas) (read_mapping E cs n k)) c"
  by (auto simp: read_mapping_def cas_matches_def mapping_from_data_def mapping_from_json_def
      Let_def split: option.splits if_splits prod.splits)


lemmas op_simps = impu_store_ops_def get_impu_def set_impu_without_cas_def add_impu_def
  set_impu_def delete_impu_def get_impi_mapping_def set_impi_mapping_def delete_impi_mapping_def

lemma after_time:
  assumes "store_contract E V S"
  shows "V (snd (time0 E w)) = V w" and "clock E (snd (time0 E w)) = clock E w"
    and "fst (time0 E w) = clock E w"
  using store_contractD(1) [OF assms, of w] by (simp_all add: same_view_def clock_def)

text \<open>One CAS write of an IMPU, the common part of \<open>add_impu\<close> and \<open>set_impu\<close>.\<close>

lemma impu_write_law:
  fixes c :: cas
  assumes good: "ims_good (E, V) S" and fits: "ims_fits (E, V) (clock E w) i"
    and readable: "fst (r_impu (ims_view (E, V) w) (s_id S) (impu_key i)) \<noteq> ERROR"
  defines "r \<equiv> set_data (s_store S) ''impu'' (impu_key i) (snd (to_data E i)) c
      (s64 (impu_expiry i - s32 (fst (time0 E w)))) (snd (time0 E w))"
  shows "if impu_cas_ok (ims_view (E, V) w) (s_id S) (impu_key i) c
    then \<exists>c'. c' \<noteq> 0 \<and> fst r = OK \<and> ims_view (E, V) (snd r) = put_impu (s_id S) c' i (ims_view (E, V) w)
    else fst r = DATA_CONTENTION \<and> ims_view (E, V) (snd r) = ims_view (E, V) w"
proof -
  have E: "codec_contract E" and S: "store_contract E V S"
    using good by (simp_all add: ims_good_def)
  note T = after_time [OF S, of w]
  have f: "storable i" "length (json_text E i) < 2147483647" "fst (to_data E i) = OK"
    "0 < s64 (impu_expiry i - s32 (clock E w))"
    using fits by (simp_all add: ims_fits_def)
  have d: "to_data E i = (OK, snd (to_data E i))"
    using f(3) by (metis prod.collapse)
  have m: "cas_matches (V w (s_id S, ''impu'', impu_key i)) c =
      impu_cas_ok (ims_view (E, V) w) (s_id S) (impu_key i) c"
    using readable cas_matches_read_impu [of E "V w" "s_id S" "impu_key i"]
    by (simp add: impu_cas_ok_def ims_view_def)
  have e: "0 < s64 (impu_expiry i - s32 (fst (time0 E w)))"
    using f(4) T by simp
  show ?thesis
  proof (cases "impu_cas_ok (ims_view (E, V) w) (s_id S) (impu_key i) c")
    case True
    with m T have "cas_matches (V (snd (time0 E w)) (s_id S, ''impu'', impu_key i)) c" by simp
    from store_contractD(5) [OF S e this, where d = "snd (to_data E i)"] obtain c' where "c' \<noteq> 0" "fst r = OK"
      "V (snd r) = (V w)((s_id S, ''impu'', impu_key i) \<mapsto> (snd (to_data E i), c'))"
      "clock E (snd r) = clock E w"
      unfolding r_def using T by (auto simp: stored_as_def)
    with True show ?thesis
      using view_put_impu [OF E f(1,2) d] by auto
  next
    case False
    with m T have "\<not> cas_matches (V (snd (time0 E w)) (s_id S, ''impu'', impu_key i)) c" by simp
    from store_contractD(6) [OF S e this, where d = "snd (to_data E i)"] show ?thesis
      using False T view_frame [of E V w "snd r"] unfolding r_def by (simp add: same_view_def)
  qed
qed

lemma mapping_write_law:
  assumes good: "ims_good (E, V) S" and fits: "ims_fits_mapping (E, V) (clock E w) m"
    and readable: "fst (r_map (ims_view (E, V) w) (s_id S) (p_impi m)) \<noteq> ERROR"
  defines "r \<equiv> set_impi_mapping E S m w"
  shows "if map_cas_ok (ims_view (E, V) w) (s_id S) (p_impi m) (p_cas m)
    then \<exists>c'. c' \<noteq> 0 \<and> fst r = OK \<and> ims_view (E, V) (snd r) = put_map (s_id S) c' m (ims_view (E, V) w)
    else fst r = DATA_CONTENTION \<and> ims_view (E, V) (snd r) = ims_view (E, V) w"
proof -
  have E: "codec_contract E" and S: "store_contract E V S"
    using good by (simp_all add: ims_good_def)
  note T = after_time [OF S, of w]
  have f: "storable_mapping m" "0 < s64 (p_expiry m - s32 (fst (time0 E w)))"
    using fits T by (simp_all add: ims_fits_mapping_def)
  have r: "r = set_data (s_store S) ''impi_mapping'' (p_impi m) (snd (mapping_to_data E m))
      (p_cas m) (s64 (p_expiry m - s32 (fst (time0 E w)))) (snd (time0 E w))"
    by (simp add: r_def set_impi_mapping_def mapping_to_data_def case_prod_unfold Let_def)
  have match: "cas_matches (V w (s_id S, ''impi_mapping'', p_impi m)) c =
      map_cas_ok (ims_view (E, V) w) (s_id S) (p_impi m) c" for c
    using readable cas_matches_read_mapping [of E "V w" "s_id S" "p_impi m"]
    by (simp add: map_cas_ok_def ims_view_def)
  show ?thesis
  proof (cases "map_cas_ok (ims_view (E, V) w) (s_id S) (p_impi m) (p_cas m)")
    case True
    with match T have
      "cas_matches (V (snd (time0 E w)) (s_id S, ''impi_mapping'', p_impi m)) (p_cas m)" by simp
    then have A: "fst r = OK \<and> stored_as E V (s_id S, ''impi_mapping'', p_impi m)
        (snd (mapping_to_data E m)) (snd (time0 E w)) (snd r)"
      unfolding r by (rule store_contractD(5) [OF S f(2)])
    then obtain c' where c: "c' \<noteq> 0" "V (snd r) =
        (V w)((s_id S, ''impi_mapping'', p_impi m) \<mapsto> (snd (mapping_to_data E m), c'))"
      "clock E (snd r) = clock E w"
      using stored_as_D [of E V _ _ "snd (time0 E w)" "snd r"] unfolding T(1,2) by blast
    show ?thesis
      using True A c(1) view_put_map [of E m V "snd r" w, OF E f(1) c(2,3)] by auto
  next
    case False
    with match T have
      "\<not> cas_matches (V (snd (time0 E w)) (s_id S, ''impi_mapping'', p_impi m)) (p_cas m)" by simp
    then have "fst r = DATA_CONTENTION \<and> same_view E V (snd (time0 E w)) (snd r)"
      unfolding r by (rule store_contractD(6) [OF S f(2)])
    then show ?thesis
      using False T view_frame [of E V w "snd r"] by (simp add: same_view_def)
  qed
qed


lemma read_law:
  assumes "ims_good (E, V) S"
  shows "fst (get_impu E S k w) = r_impu (ims_view (E, V) w) (s_id S) k"
    and "ims_view (E, V) (snd (get_impu E S k w)) = ims_view (E, V) w"
    and "fst (get_impi_mapping E S k w) = r_map (ims_view (E, V) w) (s_id S) k"
    and "ims_view (E, V) (snd (get_impi_mapping E S k w)) = ims_view (E, V) w"
proof -
  have S: "store_contract E V S"
    using assms by (simp add: ims_good_def)
  note get = store_contractD(3,4) [OF S] view_frame [OF store_contractD(2) [OF S]]
  show "fst (get_impu E S k w) = r_impu (ims_view (E, V) w) (s_id S) k"
    and "fst (get_impi_mapping E S k w) = r_map (ims_view (E, V) w) (s_id S) k"
    using get(1) [of w "''impu''" k] get(2) [of w "''impu''" k]
      get(1) [of w "''impi_mapping''" k] get(2) [of w "''impi_mapping''" k]
    by (auto simp: get_impu_def get_impi_mapping_def ims_view_def read_impu_def read_mapping_def
        case_prod_unfold Let_def split: option.splits)
  show "ims_view (E, V) (snd (get_impu E S k w)) = ims_view (E, V) w"
    and "ims_view (E, V) (snd (get_impi_mapping E S k w)) = ims_view (E, V) w"
    using get(3)
    by (auto simp: get_impu_def get_impi_mapping_def case_prod_unfold Let_def split: option.splits)
qed

lemma blind_write_law:
  assumes good: "ims_good (E, V) S" and fits: "ims_fits (E, V) (clock E w) i"
  shows "\<exists>c. c \<noteq> 0 \<and> fst (set_impu_without_cas E S i w) = OK \<and>
    ims_view (E, V) (snd (set_impu_without_cas E S i w)) = put_impu (s_id S) c i (ims_view (E, V) w)"
proof -
  have E: "codec_contract E" and S: "store_contract E V S"
    using good by (simp_all add: ims_good_def)
  note T = after_time [OF S, of w]
  have f: "storable i" "length (json_text E i) < 2147483647" "fst (to_data E i) = OK"
    "0 < s64 (impu_expiry i - s32 (fst (time0 E w)))"
    using fits T by (simp_all add: ims_fits_def)
  have d: "to_data E i = (OK, snd (to_data E i))"
    using f(3) by (metis prod.collapse)
  let ?r = "set_data_without_cas (s_store S) ''impu'' (impu_key i) (snd (to_data E i))
    (s64 (impu_expiry i - s32 (fst (time0 E w)))) (snd (time0 E w))"
  have r: "set_impu_without_cas E S i w = ?r"
    using f(3) by (simp add: set_impu_without_cas_def case_prod_unfold Let_def)
  from store_contractD(7) [OF S f(4), of "''impu''" "impu_key i" "snd (to_data E i)" "snd (time0 E w)"]
  obtain c where "c \<noteq> 0" "fst ?r = OK"
    "V (snd ?r) = (V w)((s_id S, ''impu'', impu_key i) \<mapsto> (snd (to_data E i), c))"
    "clock E (snd ?r) = clock E w"
    using T by (auto simp: stored_as_def)
  then show ?thesis
    unfolding r using view_put_impu [OF E f(1,2) d] by auto
qed

lemma json_text_stored_view: "json_text E (stored_view c st i) = json_text E i"
  by (cases i) (simp_all add: json_text_def stored_state_def)

lemma write_json_stored_view: "write_json E (stored_view c st i) = write_json E i"
  by (cases i) (simp_all add: write_json_default_def write_json_associated_def stored_state_def)

lemma ims_fits_stored: "ims_fits e n (stored_view c st i) = ims_fits e n i"
proof -
  have "impu_members (stored_view c st i) = impu_members i"
    "impu_expiry (stored_view c st i) = impu_expiry i"
    by (cases i; simp add: stored_state_def)+
  then show ?thesis
    by (simp add: ims_fits_def storable_def json_text_stored_view to_data_def
        write_json_stored_view)
qed

lemma r_now_ims_view: "r_now (ims_view e w) = clock (fst e) w"
  by (simp add: ims_view_def)

interpretation ims: impu_repository
  "\<lambda>e. time0 (fst e)" "\<lambda>e. impu_store_ops (fst e)" ims_view ims_good ims_fits ims_fits_mapping
proof (unfold_locales, goal_cases)
  case (1 e s w)
  then show ?case
    using after_time [of "fst e" "snd e" s w] by (simp add: ims_good_def ims_view_def)
next
  case (2 e s k w)
  then show ?case
    using read_law(1,2) [of "fst e" "snd e" s k w] by (simp add: impu_store_ops_def)
next
  case (3 e s k w)
  then show ?case
    using read_law(3,4) [of "fst e" "snd e" s k w] by (simp add: impu_store_ops_def)
next
  case (4 e s w i)
  then show ?case
    using blind_write_law [of "fst e" "snd e" s w i] by (simp add: impu_store_ops_def r_now_ims_view)
next
  case (5 e s w i)
  obtain E V where e: "e = (E, V)" by (cases e)
  have "add_impu E s i w = set_data (s_store s) ''impu'' (impu_key i) (snd (to_data E i)) 0
      (s64 (impu_expiry i - s32 (fst (time0 E w)))) (snd (time0 E w))"
    using 5(2) by (simp add: e add_impu_def ims_fits_def case_prod_unfold Let_def)
  then show ?case
    using 5 e impu_write_law [of E V s w i 0] by (simp add: impu_store_ops_def r_now_ims_view)
next
  case (6 e s w i)
  obtain E V where e: "e = (E, V)" by (cases e)
  have "set_impu E s i w =
      set_data (s_store s) ''impu'' (impu_key i) (snd (to_data E i)) (impu_cas i)
      (s64 (impu_expiry i - s32 (fst (time0 E w)))) (snd (time0 E w))"
    using 6(2) by (simp add: e set_impu_def ims_fits_def case_prod_unfold Let_def)
  then show ?case
    using 6 e impu_write_law [of E V s w i "impu_cas i"]
    by (simp add: impu_store_ops_def r_now_ims_view)
next
  case (7 e s i w)
  then show ?case
    using store_contractD(8) [of "fst e" "snd e" s "''impu''" "impu_key i" w]
      view_drop_impu [where E = "fst e" and V = "snd e"]
    by (simp add: impu_store_ops_def delete_impu_def ims_good_def)
next
  case (8 e s w m)
  obtain E V where e: "e = (E, V)" by (cases e)
  show ?case
    using 8 mapping_write_law [of E V s w m] e by (simp add: impu_store_ops_def r_now_ims_view)
next
  case (9 e s m w)
  then show ?case
    using store_contractD(8) [of "fst e" "snd e" s "''impi_mapping''" "p_impi m" w]
      view_drop_map [where E = "fst e" and V = "snd e"]
    by (simp add: impu_store_ops_def delete_impi_mapping_def ims_good_def)
next
  case (10 e s w n k u x)
  then show ?case
    using store_contractD(9) [of "fst e" "snd e" s w]
    by (auto simp: ims_good_def ims_view_def read_impu_def from_data_cas split: option.splits)
next
  case (11 e s w n k u y)
  then show ?case
    using store_contractD(9) [of "fst e" "snd e" s w]
    by (auto simp: ims_good_def ims_view_def read_mapping_def mapping_from_data_def mapping_from_json_def
        split: option.splits if_splits)
next
  case (12 e n c st i)
  then show ?case by (rule ims_fits_stored)
next
  case (13 e n m c)
  then show ?case by (simp add: ims_fits_mapping_def storable_mapping_def mapping_members_def)
qed

end
