(* ===== verification/Base_Hss_Cache.thy ===== *)
theory Base_Hss_Cache
  imports Reg_Data
begin

text \<open>
  The part of the cache that does not depend on where the data are kept:
  \<open>BaseHssCache\<close> (\<open>src/base_hss_cache.cpp\<close>), \<open>BaseImsSubscription\<close>
  (\<open>include/base_ims_subscription.h\<close>) and \<open>HssCacheProcessor\<close>
  (\<open>src/hss_cache_processor.cpp\<close>). The two virtual lookups of the base class are arguments.
\<close>

section \<open>Looking up several registration sets\<close>

text \<open>
  The lookups return a status and, with \<open>OK\<close>, a result. The vector \<open>result\<close> is passed by reference:
  its old contents come first.
\<close>

type_synonym ('i, 'w) irs_lookup = "string \<Rightarrow> 'w \<Rightarrow> (status \<times> 'i option) \<times> 'w"
type_synonym 'w impus_lookup = "string \<Rightarrow> 'w \<Rightarrow> (status \<times> string list) \<times> 'w"

fun irss_for_impus_loop ::
  "('i, 'w) irs_lookup \<Rightarrow> string list \<Rightarrow> 'i list \<Rightarrow> 'w \<Rightarrow> (status \<times> 'i list) \<times> 'w" where
  "irss_for_impus_loop get_irs [] result w = ((OK, result), w)"
| "irss_for_impus_loop get_irs (impu # impus) result w =
     (let ((inner_status, irs), w1) = get_irs impu w
      in if inner_status = OK then
           ((OK, result @ (case irs of None \<Rightarrow> [] | Some i \<Rightarrow> [i])), w1)
         else if inner_status \<noteq> NOT_FOUND then ((inner_status, result), w1)
         else irss_for_impus_loop get_irs impus result w1)"

definition get_irss_for_impus ::
  "('i, 'w) irs_lookup \<Rightarrow> string list \<Rightarrow> 'i list \<Rightarrow> 'w \<Rightarrow> (status \<times> 'i list) \<times> 'w" where
  "get_irss_for_impus get_irs impus result w =
     (let ((status, result1), w1) = irss_for_impus_loop get_irs impus result w
      in if status \<noteq> OK then ((status, []), w1) else ((status, result1), w1))"

definition get_irss_for_impi ::
  "('i, 'w) irs_lookup \<Rightarrow> 'w impus_lookup \<Rightarrow> string \<Rightarrow> 'i list \<Rightarrow> 'w \<Rightarrow> (status \<times> 'i list) \<times> 'w" where
  "get_irss_for_impi get_irs get_impus impi result w =
     (let ((status, impus), w1) = get_impus impi w
      in if status = OK then get_irss_for_impus get_irs impus result w1
         else ((status, result), w1))"

fun irss_for_impis_loop ::
  "('i, 'w) irs_lookup \<Rightarrow> 'w impus_lookup \<Rightarrow> string list \<Rightarrow> 'i list \<Rightarrow> 'w \<Rightarrow>
     (status \<times> 'i list) \<times> 'w" where
  "irss_for_impis_loop get_irs get_impus [] result w = ((OK, result), w)"
| "irss_for_impis_loop get_irs get_impus (impi # impis) result w =
     (let ((inner_status, inner_result), w1) = get_irss_for_impi get_irs get_impus impi [] w
      in if inner_status = OK then irss_for_impis_loop get_irs get_impus impis (result @ inner_result) w1
         else if inner_status \<noteq> NOT_FOUND then ((inner_status, result), w1)
         else irss_for_impis_loop get_irs get_impus impis result w1)"

definition get_irss_for_impis ::
  "('i, 'w) irs_lookup \<Rightarrow> 'w impus_lookup \<Rightarrow> string list \<Rightarrow> 'i list \<Rightarrow> 'w \<Rightarrow>
     (status \<times> 'i list) \<times> 'w" where
  "get_irss_for_impis get_irs get_impus impis result w =
     (let ((status, result1), w1) = irss_for_impis_loop get_irs get_impus impis result w
      in if status \<noteq> OK then ((status, []), w1) else ((status, result1), w1))"

section \<open>IMS subscriptions\<close>

text \<open>A subscription is a map from default IMPU to registration set; a later set replaces an earlier one.\<close>

type_synonym 'i ims_subscription = "(string, 'i) omap"

definition BaseImsSubscription :: "('i \<Rightarrow> string) \<Rightarrow> 'i list \<Rightarrow> 'i ims_subscription" where
  "BaseImsSubscription default_impu irss = fold (\<lambda>irs m. omap_insert (default_impu irs) irs m) irss []"

definition set_charging_addrs :: "('i \<Rightarrow> 'i) \<Rightarrow> 'i ims_subscription \<Rightarrow> 'i ims_subscription" where
  "set_charging_addrs set_addresses sub = omap_map (\<lambda>k irs. set_addresses irs) sub"

definition get_irs_for_default_impu :: "'i ims_subscription \<Rightarrow> string \<Rightarrow> 'i option" where
  "get_irs_for_default_impu sub impu = map_of sub impu"

section \<open>The processor\<close>

text \<open>
  A request to the \<open>HssCacheProcessor\<close> runs the cache operation on a pool thread and then one
  callback: the success callback with the result, or the failure callback with the status. A callback
  is a function of the world after the operation; what it does is its value.
\<close>

definition run_lookup ::
  "('r \<Rightarrow> 'w \<Rightarrow> 'v) \<Rightarrow> (status \<Rightarrow> 'w \<Rightarrow> 'v) \<Rightarrow> ('w \<Rightarrow> (status \<times> 'r) \<times> 'w) \<Rightarrow> 'w \<Rightarrow> 'v" where
  "run_lookup success_cb failure_cb operation w =
     (let ((rc, result), w1) = operation w
      in if rc = OK then success_cb result w1 else failure_cb rc w1)"

definition run_update ::
  "('i \<Rightarrow> 'w \<Rightarrow> 'v) \<Rightarrow> (status \<Rightarrow> 'w \<Rightarrow> 'v) \<Rightarrow> ('w \<Rightarrow> (status \<times> 'i \<times> 'w) option) \<Rightarrow>
     'w \<Rightarrow> 'v option" where
  "run_update success_cb failure_cb operation w =
     (case operation w of
        None \<Rightarrow> None
      | Some (rc, irs, w1) \<Rightarrow> Some (if rc = OK then success_cb irs w1 else failure_cb rc w1))"

section \<open>Properties\<close>

lemma loop_for_impus:
  assumes "irss_for_impus_loop get_irs impus result w = ((status, result1), w1)"
  shows "(status = OK \<longrightarrow> (\<exists>irss. result1 = result @ irss \<and> length irss \<le> 1)) \<and>
    status \<noteq> NOT_FOUND"
  using assms
proof (induction impus arbitrary: w)
  case Nil
  then show ?case by simp
next
  case (Cons impu impus)
  obtain inner irs w2 where g: "get_irs impu w = ((inner, irs), w2)"
    by (metis surj_pair)
  show ?case
    using Cons g by (auto split: if_splits option.splits)
qed

lemma irss_for_impus_one:
  assumes "get_irss_for_impus get_irs impus [] w = ((status, irss), w1)"
  shows "length irss \<le> 1 \<and> status \<noteq> NOT_FOUND \<and> (status \<noteq> OK \<longrightarrow> irss = [])"
proof -
  obtain result1 w2 where loop: "irss_for_impus_loop get_irs impus [] w = ((status, result1), w2)"
    and irss: "irss = (if status \<noteq> OK then [] else result1)"
    using assms by (auto simp: get_irss_for_impus_def Let_def split: prod.splits if_splits)
  show ?thesis
    using loop_for_impus [OF loop] irss by auto
qed

text \<open>
  A lookup of the registration sets of a list of IMPUs finds at most one: the loop stops at the
  first IMPU that has a set, so the sets of the later IMPUs are not returned. It never reports
  \<open>NOT_FOUND\<close>, and an error leaves no result.
\<close>

theorem irss_for_impus_first_only:
  assumes "get_irss_for_impus get_irs impus [] w = ((status, irss), w1)"
  shows "length irss \<le> 1 \<and> status \<noteq> NOT_FOUND \<and> (status \<noteq> OK \<longrightarrow> irss = [])"
  using assms by (rule irss_for_impus_one)

theorem irss_for_impus_first_only_witness:
  "get_irss_for_impus (\<lambda>impu w. ((OK, Some impu), w)) [''a'', ''b''] [] () = ((OK, [''a'']), ()) \<and>
    length [''a''] \<le> 1 \<and> OK \<noteq> NOT_FOUND"
proof -
  have run: "get_irss_for_impus (\<lambda>impu w. ((OK, Some impu), w)) [''a'', ''b''] [] () = ((OK, [''a'']), ())"
    by (simp add: get_irss_for_impus_def)
  from irss_for_impus_first_only [OF this] run show ?thesis by simp
qed

end
