(* ===== verification/Memcached_Cache.thy ===== *)
theory Memcached_Cache
  imports Implicit_Reg_Set Impu_Store Base_Hss_Cache
begin

text \<open>
  The geo-redundant cache \<open>MemcachedCache\<close> (\<open>src/memcached_cache.cpp\<close>): a local IMPU store and the
  stores of the other sites. Reads fall back from the local to the remote stores; writes go to the
  local store and, when that succeeds, to each remote one. Every write loop of the source, which
  retries on \<open>DATA_CONTENTION\<close> for as long as it takes, is a \<open>partial_function\<close> whose value is
  \<open>None\<close> when the loop does not end. The stopwatch and the I/O hooks measure time only and are
  left out.
\<close>

section \<open>Model\<close>

record 'w memcached_cache =
  c_clk :: "'w clk"
  c_local :: "'w impu_ops"
  c_remotes :: "'w impu_ops list"

definition create_implicit_registration_set :: "int \<Rightarrow> RegistrationState \<Rightarrow> mirs" where
  "create_implicit_registration_set any_ttl any_state = new_mirs any_ttl any_state"

subsection \<open>Reading\<close>

text \<open>
  The remote stores are read by a thread pool, one job each; the results are collected in the
  order of the stores. All of them are read, and the first success is taken. The model runs the
  jobs in that order.
\<close>

fun read_remotes ::
  "'w impu_ops list \<Rightarrow> string \<Rightarrow> 'w \<Rightarrow> (status \<times> Impu option) list \<times> 'w" where
  "read_remotes [] impu w = ([], w)"
| "read_remotes (remote # remotes) impu w =
     (let (result, w1) = op_get_impu remote impu w;
          (results, w2) = read_remotes remotes impu w1
      in (result # results, w2))"

fun first_ok :: "(status \<times> Impu option) \<Rightarrow> (status \<times> Impu option) list \<Rightarrow> status \<times> Impu option" where
  "first_ok acc [] = acc"
| "first_ok acc (result # results) =
     first_ok (if fst acc \<noteq> OK \<and> fst result = OK then (OK, snd result) else acc) results"

definition get_impu_for_impu_gr ::
  "'w memcached_cache \<Rightarrow> string \<Rightarrow> 'w \<Rightarrow> (status \<times> Impu option) \<times> 'w" where
  "get_impu_for_impu_gr cache impu w =
     (let ((status, out_impu), w1) = op_get_impu (c_local cache) impu w
      in if status = NOT_FOUND then
           let (results, w2) = read_remotes (c_remotes cache) impu w1
           in (first_ok (status, out_impu) results, w2)
         else ((status, out_impu), w1))"

fun read_remote_mappings ::
  "'w impu_ops list \<Rightarrow> string \<Rightarrow> 'w \<Rightarrow> (status \<times> impi_mapping option) \<times> 'w" where
  "read_remote_mappings [] impi w = ((NOT_FOUND, None), w)"
| "read_remote_mappings (remote # remotes) impi w =
     (let ((remote_status, mapping), w1) = op_get_impi_mapping remote impi w
      in if remote_status = OK then ((OK, mapping), w1)
         else read_remote_mappings remotes impi w1)"

definition get_impi_mapping_gr ::
  "'w memcached_cache \<Rightarrow> string \<Rightarrow> 'w \<Rightarrow> (status \<times> impi_mapping option) \<times> 'w" where
  "get_impi_mapping_gr cache impi w =
     (let ((status, out_mapping), w1) = op_get_impi_mapping (c_local cache) impi w
      in if status = NOT_FOUND then read_remote_mappings (c_remotes cache) impi w1
         else ((status, out_mapping), w1))"

definition get_impus_for_impi :: "'w memcached_cache \<Rightarrow> 'w impus_lookup" where
  "get_impus_for_impi cache impi w =
     (let ((status, mapping), w1) = get_impi_mapping_gr cache impi w
      in if status = OK
         then ((OK, case mapping of None \<Rightarrow> [] | Some m \<Rightarrow> p_default_impus m), w1)
         else ((status, []), w1))"

definition get_implicit_registration_set_for_impu ::
  "'w memcached_cache \<Rightarrow> (mirs, 'w) irs_lookup" where
  "get_implicit_registration_set_for_impu cache impu w =
     (let ((status, data), w1) = get_impu_for_impu_gr cache impu w;
          ((status2, data2), w2) =
            (case data of
               Some (AssociatedImpu assoc_impu) \<Rightarrow>
                 if status = OK then
                   let ((status', data'), w') =
                         get_impu_for_impu_gr cache (a_default_impu assoc_impu) w1
                   in if status' = OK then
                        let is_default = (case data' of Some d \<Rightarrow> is_default_impu d | None \<Rightarrow> False);
                            is_associated = (case data' of
                               Some (DefaultImpu d) \<Rightarrow> has_associated_impu d impu | _ \<Rightarrow> False)
                        in if \<not> is_default \<or> \<not> is_associated then ((NOT_FOUND, None), w')
                           else ((status', data'), w')
                      else ((status', None), w')
                 else ((status, data), w1)
             | _ \<Rightarrow> ((status, data), w1))
      in if status2 = OK then
           (case data2 of
              Some (DefaultImpu d) \<Rightarrow>
                let (irs, w3) = mirs_of_impu (c_clk cache) d w2 in ((OK, Some irs), w3)
            | _ \<Rightarrow> ((OK, None), w2))
         else ((status2, None), w2))"

subsection \<open>IMPI mappings\<close>

text \<open>
  A loop over a vector whose body may change the function's \<open>status\<close> and may not end.
\<close>

fun for_each ::
  "('a \<Rightarrow> status \<Rightarrow> 'w \<Rightarrow> (status \<times> 'w) option) \<Rightarrow> 'a list \<Rightarrow> status \<Rightarrow> 'w \<Rightarrow> (status \<times> 'w) option" where
  "for_each body [] status w = Some (status, w)"
| "for_each body (x # xs) status w =
     do { (status1, w1) \<leftarrow> body x status w; for_each body xs status1 w1 }"

text \<open>Removing the default IMPU from the mapping of one deleted IMPI.\<close>

partial_function (option) remove_mapping_loop ::
  "'w impu_ops \<Rightarrow> string \<Rightarrow> string \<Rightarrow> status \<Rightarrow> 'w \<Rightarrow> (status \<times> 'w) option" where
  "remove_mapping_loop store default_impu impi status w =
     (let ((inner_status, mapping), w1) = op_get_impi_mapping store impi w;
          (status1, w2) =
            (case mapping of
               Some m \<Rightarrow>
                 if inner_status = OK \<and> has_default_impu m default_impu then
                   let m' = remove_default_impu default_impu m
                   in if mapping_is_empty m' then op_delete_impi_mapping store m' w1
                      else op_set_impi_mapping store m' w1
                 else (status, w1)
             | None \<Rightarrow> (status, w1))
      in if status1 = DATA_CONTENTION then remove_mapping_loop store default_impu impi status1 w2
         else Some (status1, w2))"

text \<open>Refreshing the mapping of one unchanged IMPI.\<close>

partial_function (option) refresh_mapping_loop ::
  "'w clk \<Rightarrow> 'w impu_ops \<Rightarrow> string \<Rightarrow> int \<Rightarrow> string \<Rightarrow> 'w \<Rightarrow> (status \<times> 'w) option" where
  "refresh_mapping_loop clk store default_impu ttl impi w =
     (let ((inner_status, found), w1) = op_get_impi_mapping store impi w;
          (t, w2) = clk w1;
          now = s32 t;
          fresh = new_ImpiMapping impi default_impu (s32 (ttl + now));
          mapping =
            (case found of
               Some m \<Rightarrow>
                 if inner_status = OK then
                   let m1 = set_expiry (s32 (ttl + now)) m
                   in if \<not> has_default_impu m1 default_impu then add_default_impu default_impu m1 else m1
                 else fresh
             | None \<Rightarrow> fresh);
          (status, w3) = op_set_impi_mapping store mapping w2
      in if status = DATA_CONTENTION then refresh_mapping_loop clk store default_impu ttl impi w3
         else Some (status, w3))"

text \<open>Writing the mapping of one added IMPI; \<open>mapping\<close> is the record the next attempt writes.\<close>

partial_function (option) add_mapping_loop ::
  "'w clk \<Rightarrow> 'w impu_ops \<Rightarrow> string \<Rightarrow> int \<Rightarrow> bool \<Rightarrow> string \<Rightarrow> impi_mapping \<Rightarrow> 'w \<Rightarrow>
     (status \<times> 'w) option" where
  "add_mapping_loop clk store default_impu ttl refreshed impi mapping w =
     (let (status, w1) = op_set_impi_mapping store mapping w
      in if status = DATA_CONTENTION then
           let ((inner_status, new_mapping), w2) = op_get_impi_mapping store impi w1
           in if inner_status = OK then
                let found = (case new_mapping of Some m \<Rightarrow> m | None \<Rightarrow> mapping);
                    (t, w3) = clk w2;
                    now = s32 t;
                    m1 = set_expiry (s32 (ttl + now)) found
                in if \<not> has_default_impu m1 default_impu then
                     add_mapping_loop clk store default_impu ttl refreshed impi
                       (add_default_impu default_impu m1) w3
                   else if \<not> refreshed then Some (OK, w3)
                   else add_mapping_loop clk store default_impu ttl refreshed impi m1 w3
              else if inner_status = NOT_FOUND \<or> inner_status = DATA_CONTENTION then
                add_mapping_loop clk store default_impu ttl refreshed impi mapping w2
              else Some (inner_status, w2)
         else Some (status, w1))"

definition update_irs_impi_mappings ::
  "'w clk \<Rightarrow> 'w impu_ops \<Rightarrow> mirs \<Rightarrow> 'w \<Rightarrow> (status \<times> 'w) option" where
  "update_irs_impi_mappings clk store irs w =
     do {
       (status1, w1) \<leftarrow> for_each (remove_mapping_loop store (m_default_impu irs))
                          (impis_in irs DELETED) OK w;
       (status2, w2) \<leftarrow>
         (if m_refreshed irs
          then for_each (\<lambda>impi _. refresh_mapping_loop clk store (m_default_impu irs) (m_ttl irs) impi)
                 (impis_in irs UNCHANGED) status1 w1
          else Some (status1, w1));
       for_each (\<lambda>impi _ w. let (t, w') = clk w; expiry = s64 (t + m_ttl irs)
                   in add_mapping_loop clk store (m_default_impu irs) (m_ttl irs) (m_refreshed irs) impi
                        (new_ImpiMapping impi (m_default_impu irs) expiry) w')
         (impis_in irs ADDED) status2 w2
     }"

subsection \<open>Associated IMPUs\<close>

partial_function (option) remove_associated_loop ::
  "'w impu_ops \<Rightarrow> string \<Rightarrow> string \<Rightarrow> status \<Rightarrow> 'w \<Rightarrow> (status \<times> 'w) option" where
  "remove_associated_loop store default_impu associated_impu status w =
     (let ((ignored, mapping), w1) = op_get_impu store associated_impu w;
          (status1, w2) =
            (case mapping of
               Some (AssociatedImpu a) \<Rightarrow>
                 if a_default_impu a = default_impu then op_delete_impu store (AssociatedImpu a) w1
                 else (status, w1)
             | _ \<Rightarrow> (status, w1))
      in if status1 = DATA_CONTENTION then
           remove_associated_loop store default_impu associated_impu status1 w2
         else Some (status1, w2))"

definition write_associated ::
  "'w clk \<Rightarrow> 'w impu_ops \<Rightarrow> mirs \<Rightarrow> string \<Rightarrow> 'w \<Rightarrow> 'w" where
  "write_associated clk store irs associated_impu w =
     (let (t, w1) = clk w;
          expiry = s64 (t + m_ttl irs);
          impu = AssociatedImpu \<lparr>i_impu = associated_impu, i_cas = 0, i_expiry = expiry,
                   i_store = Some (op_id store), a_default_impu = m_default_impu irs\<rparr>
      in snd (op_set_impu_without_cas store impu w1))"

definition update_irs_associated_impus ::
  "'w clk \<Rightarrow> 'w impu_ops \<Rightarrow> mirs \<Rightarrow> 'w \<Rightarrow> (status \<times> 'w) option" where
  "update_irs_associated_impus clk store irs w =
     do {
       (status, w1) \<leftarrow> for_each (remove_associated_loop store (m_default_impu irs))
                         (impus_in irs DELETED) OK w;
       let w2 = (if m_refreshed irs then fold (write_associated clk store irs) (impus_in irs UNCHANGED) w1 else w1);
       let w3 = fold (write_associated clk store irs) (impus_in irs ADDED) w2;
       Some (status, w3)
     }"

subsection \<open>The default IMPU\<close>

definition create_irs_impu :: "'w clk \<Rightarrow> 'w impu_ops \<Rightarrow> mirs \<Rightarrow> 'w \<Rightarrow> status \<times> 'w" where
  "create_irs_impu clk store irs w =
     (let (impu, w1) = get_impu_of clk irs w
      in if d_registration_state impu = REGISTERED then
           op_set_impu_without_cas store (DefaultImpu impu) w1
         else
           let (status, w2) = op_add_impu store (DefaultImpu impu) w1
           in (if status = DATA_CONTENTION then OK else status, w2))"

datatype irs_impu_action = SET_IMPU | DELETE_IMPU

fun run_action :: "irs_impu_action \<Rightarrow> 'w impu_ops \<Rightarrow> default_impu \<Rightarrow> 'w \<Rightarrow> status \<times> 'w" where
  "run_action SET_IMPU store impu w = op_set_impu store (DefaultImpu impu) w"
| "run_action DELETE_IMPU store impu w = op_delete_impu store (DefaultImpu impu) w"

text \<open>
  One pass of the loop of \<open>perform_irs_impu_action\<close>: the status, the registration set, which the
  merge changes, and the world. The record passed in is the one made for this store, in the first
  pass only.
\<close>

definition irs_impu_pass ::
  "'w clk \<Rightarrow> irs_impu_action \<Rightarrow> 'w impu_ops \<Rightarrow> mirs \<Rightarrow> default_impu option \<Rightarrow> 'w \<Rightarrow>
     status \<times> mirs \<times> 'w" where
  "irs_impu_pass clk action store irs impu w =
     (case impu of
        Some d \<Rightarrow> let (status, w1) = run_action action store d w in (status, irs, w1)
      | None \<Rightarrow>
          let ((ignored, mapped_impu), w1) = op_get_impu store (m_default_impu irs) w
          in (case mapped_impu of
                None \<Rightarrow>
                  if action = DELETE_IMPU then (OK, irs, w1)
                  else
                    let (d, w2) = get_impu_of clk irs w1;
                        (status, w3) = run_action action store d w2
                    in (status, irs, w3)
              | Some (DefaultImpu default_impu) \<Rightarrow>
                  let (irs1, w2) = update_from_impu_from_store clk default_impu irs w1;
                      (d, w3) = get_impu_from_impu clk irs1 (DefaultImpu default_impu) w2;
                      (status, w4) = run_action action store d w3
                  in (status, irs1, w4)
              | Some (AssociatedImpu a) \<Rightarrow>
                  if m_refreshed irs then
                    let (d, w2) = get_impu_from_impu clk irs (AssociatedImpu a) w1;
                        (status, w3) = run_action action store d w2
                    in (status, irs, w3)
                  else (ERROR, irs, w1)))"

partial_function (option) irs_impu_loop ::
  "'w clk \<Rightarrow> irs_impu_action \<Rightarrow> 'w impu_ops \<Rightarrow> mirs \<Rightarrow> default_impu option \<Rightarrow> 'w \<Rightarrow>
     (status \<times> mirs \<times> 'w) option" where
  "irs_impu_loop clk action store irs impu w =
     (let (status, irs1, w1) = irs_impu_pass clk action store irs impu w
      in if status = DATA_CONTENTION then irs_impu_loop clk action store irs1 None w1
         else Some (status, irs1, w1))"

definition perform_irs_impu_action ::
  "'w clk \<Rightarrow> irs_impu_action \<Rightarrow> 'w impu_ops \<Rightarrow> mirs \<Rightarrow> 'w \<Rightarrow> (status \<times> mirs \<times> 'w) option" where
  "perform_irs_impu_action clk action store irs w =
     (let (impu, w1) = get_impu_for_store clk irs (op_id store) w
      in irs_impu_loop clk action store irs impu w1)"

definition update_irs_impu ::
  "'w clk \<Rightarrow> 'w impu_ops \<Rightarrow> mirs \<Rightarrow> 'w \<Rightarrow> (status \<times> mirs \<times> 'w) option" where
  "update_irs_impu clk store irs w = perform_irs_impu_action clk SET_IMPU store irs w"

definition delete_irs_impu ::
  "'w clk \<Rightarrow> 'w impu_ops \<Rightarrow> mirs \<Rightarrow> 'w \<Rightarrow> (status \<times> mirs \<times> 'w) option" where
  "delete_irs_impu clk store irs w =
     perform_irs_impu_action clk DELETE_IMPU store (mark_as_refreshed irs) w"

subsection \<open>Actions on one store\<close>

type_synonym ('i, 'w) store_action = "'w impu_ops \<Rightarrow> 'i \<Rightarrow> 'w \<Rightarrow> (status \<times> 'i \<times> 'w) option"

definition put_irs_action :: "'w clk \<Rightarrow> (mirs, 'w) store_action" where
  "put_irs_action clk store irs w =
     do {
       (status, irs1, w1) \<leftarrow>
         (if m_existing irs then update_irs_impu clk store irs w
          else let (status, w1) = create_irs_impu clk store irs w in Some (status, irs, w1));
       w2 \<leftarrow> (if status = OK then map_option snd (update_irs_associated_impus clk store irs1 w1) else Some w1);
       w3 \<leftarrow> (if status = OK then map_option snd (update_irs_impi_mappings clk store irs1 w2) else Some w2);
       Some (status, irs1, w3)
     }"

definition delete_irs_action :: "'w clk \<Rightarrow> (mirs, 'w) store_action" where
  "delete_irs_action clk store irs w =
     do {
       (status, irs1, w1) \<leftarrow> delete_irs_impu clk store irs w;
       (status2, irs2, w2) \<leftarrow>
         (if status = OK then
            let irs2 = delete_assoc_impus irs1
            in map_option (\<lambda>(st, w). (st, irs2, w)) (update_irs_associated_impus clk store irs2 w1)
          else Some (status, irs1, w1));
       if status2 = OK then
         let irs3 = delete_impis irs2
         in map_option (\<lambda>(st, w). (st, irs3, w)) (update_irs_impi_mappings clk store irs3 w2)
       else Some (status2, irs2, w2)
     }"

text \<open>The status of \<open>delete_irss_action\<close> is that of the last set that exists.\<close>

fun delete_irss_loop ::
  "'w clk \<Rightarrow> 'w impu_ops \<Rightarrow> mirs list \<Rightarrow> status \<Rightarrow> 'w \<Rightarrow> (status \<times> mirs list \<times> 'w) option" where
  "delete_irss_loop clk store [] status w = Some (status, [], w)"
| "delete_irss_loop clk store (irs # irss) status w =
     do {
       (status1, irs1, w1) \<leftarrow>
         (if m_existing irs then delete_irs_action clk store irs w else Some (status, irs, w));
       (status2, irss1, w2) \<leftarrow> delete_irss_loop clk store irss status1 w1;
       Some (status2, irs1 # irss1, w2)
     }"

definition delete_irss_action :: "'w clk \<Rightarrow> (mirs list, 'w) store_action" where
  "delete_irss_action clk store irss w = delete_irss_loop clk store irss OK w"

fun put_ims_sub_loop ::
  "'w clk \<Rightarrow> 'w impu_ops \<Rightarrow> mirs ims_subscription \<Rightarrow> 'w \<Rightarrow> (mirs ims_subscription \<times> 'w) option" where
  "put_ims_sub_loop clk store [] w = Some ([], w)"
| "put_ims_sub_loop clk store ((k, irs) # subs) w =
     do {
       (ignored, irs1, w1) \<leftarrow> put_irs_action clk store irs w;
       (subs1, w2) \<leftarrow> put_ims_sub_loop clk store subs w1;
       Some ((k, irs1) # subs1, w2)
     }"

definition put_ims_sub_action :: "'w clk \<Rightarrow> (mirs ims_subscription, 'w) store_action" where
  "put_ims_sub_action clk store subscription w =
     do { (subs1, w1) \<leftarrow> put_ims_sub_loop clk store subscription w; Some (OK, subs1, w1) }"

subsection \<open>All stores\<close>

fun perform_remotes ::
  "('i, 'w) store_action \<Rightarrow> 'w impu_ops list \<Rightarrow> 'i \<Rightarrow> 'w \<Rightarrow> ('i \<times> 'w) option" where
  "perform_remotes action [] irs w = Some (irs, w)"
| "perform_remotes action (remote_store # remotes) irs w =
     do {
       (inner_status, irs1, w1) \<leftarrow> action remote_store irs w;
       perform_remotes action remotes irs1 w1
     }"

definition perform ::
  "'w memcached_cache \<Rightarrow> ('i, 'w) store_action \<Rightarrow> ('w \<Rightarrow> 'w) \<Rightarrow> 'i \<Rightarrow> 'w \<Rightarrow>
     (status \<times> 'i \<times> 'w) option" where
  "perform cache action progress_cb irs w =
     do {
       (status, irs1, w1) \<leftarrow> action (c_local cache) irs w;
       if status = OK then
         do {
           (irs2, w2) \<leftarrow> perform_remotes action (c_remotes cache) irs1 (progress_cb w1);
           Some (status, irs2, w2)
         }
       else Some (status, irs1, w1)
     }"

definition put_implicit_registration_set ::
  "'w memcached_cache \<Rightarrow> mirs \<Rightarrow> ('w \<Rightarrow> 'w) \<Rightarrow> 'w \<Rightarrow> (status \<times> mirs \<times> 'w) option" where
  "put_implicit_registration_set cache irs progress_cb w =
     (if has_changed irs then perform cache (put_irs_action (c_clk cache)) progress_cb irs w
      else Some (OK, irs, progress_cb w))"

definition delete_implicit_registration_set ::
  "'w memcached_cache \<Rightarrow> mirs \<Rightarrow> ('w \<Rightarrow> 'w) \<Rightarrow> 'w \<Rightarrow> (status \<times> mirs \<times> 'w) option" where
  "delete_implicit_registration_set cache irs progress_cb w =
     (if m_existing irs then perform cache (delete_irs_action (c_clk cache)) progress_cb irs w
      else Some (OK, irs, progress_cb w))"

definition delete_implicit_registration_sets ::
  "'w memcached_cache \<Rightarrow> mirs list \<Rightarrow> ('w \<Rightarrow> 'w) \<Rightarrow> 'w \<Rightarrow> (status \<times> mirs list \<times> 'w) option" where
  "delete_implicit_registration_sets cache irss progress_cb w =
     perform cache (delete_irss_action (c_clk cache)) progress_cb irss w"

definition get_ims_subscription ::
  "'w memcached_cache \<Rightarrow> string \<Rightarrow> 'w \<Rightarrow> (status \<times> mirs ims_subscription option) \<times> 'w" where
  "get_ims_subscription cache impi w =
     (let ((status, mapping), w1) = get_impi_mapping_gr cache impi w
      in if status = OK then
           let impus = (case mapping of Some m \<Rightarrow> p_default_impus m | None \<Rightarrow> []);
               ((status2, irs), w2) =
                 get_irss_for_impus (get_implicit_registration_set_for_impu cache) impus [] w1
           in if status2 = OK then ((OK, Some (BaseImsSubscription m_default_impu irs)), w2)
              else ((status2, None), w2)
         else ((status, None), w1))"

definition put_ims_subscription ::
  "'w memcached_cache \<Rightarrow> mirs ims_subscription \<Rightarrow> ('w \<Rightarrow> 'w) \<Rightarrow> 'w \<Rightarrow>
     (status \<times> mirs ims_subscription \<times> 'w) option" where
  "put_ims_subscription cache subscription progress_cb w =
     perform cache (put_ims_sub_action (c_clk cache)) progress_cb subscription w"

end
