(* ===== verification/Cache_Consistency.thy ===== *)
theory Cache_Consistency
  imports Memcached_Cache
begin

text \<open>
  What the cache's writes do to the stored tables when nobody else writes meanwhile. The lemmas
  are proved once over the contract \<open>impu_repository\<close> of a store and hold for \<open>ImpuStore\<close> through
  its interpretation. Every retry loop ends; the default IMPU, its associated IMPUs and the IMPI
  mappings end up consistent with the registration set that was put, and are gone after a delete.
\<close>

section \<open>Records made from a registration set\<close>

definition irs_record :: "int \<Rightarrow> mirs \<Rightarrow> cas \<Rightarrow> nat option \<Rightarrow> default_impu" where
  "irs_record t irs c st = fst (create_impu (\<lambda>w. (t, w)) irs c st ())"

definition assoc_record :: "int \<Rightarrow> mirs \<Rightarrow> nat \<Rightarrow> string \<Rightarrow> associated_impu" where
  "assoc_record t irs n a = \<lparr>i_impu = a, i_cas = 0, i_expiry = s64 (t + m_ttl irs),
     i_store = Some n, a_default_impu = m_default_impu irs\<rparr>"

definition merged :: "int \<Rightarrow> default_impu \<Rightarrow> mirs \<Rightarrow> mirs" where
  "merged t d irs = fst (update_from_impu_from_store (\<lambda>w. (t, w)) d irs ())"

lemma create_impu_eq: "create_impu clk irs c st w = (irs_record (fst (clk w)) irs c st, snd (clk w))"
  by (simp add: create_impu_def irs_record_def Let_def case_prod_unfold)

lemma update_from_eq:
  "update_from_impu_from_store clk d irs w =
     (merged (fst (clk w)) d irs, if m_refreshed irs then w else snd (clk w))"
  by (simp add: update_from_impu_from_store_def merged_def Let_def case_prod_unfold)

lemma irs_record_key [simp]: "i_impu (irs_record t irs c st) = m_default_impu irs"
  "i_cas (irs_record t irs c st) = c"
  by (simp_all add: irs_record_def create_impu_def Let_def)

lemma assoc_record_key [simp]: "i_impu (assoc_record t irs n a) = a"
  "a_default_impu (assoc_record t irs n a) = m_default_impu irs"
  by (simp_all add: assoc_record_def)

lemma merged_default [simp]: "m_default_impu (merged t d irs) = m_default_impu irs"
  "m_refreshed (merged t d irs) = m_refreshed irs"
  by (simp_all add: merged_def update_fields)

section \<open>The tables of one store\<close>

text \<open>\<open>links_to\<close>: the entry is an associated IMPU of the given default IMPU.\<close>

definition links_to :: "repo_view \<Rightarrow> nat \<Rightarrow> string \<Rightarrow> string \<Rightarrow> bool" where
  "links_to v n a d =
     (case snd (r_impu v n a) of Some (AssociatedImpu x) \<Rightarrow> a_default_impu x = d | _ \<Rightarrow> False)"

definition drop_link :: "nat \<Rightarrow> string \<Rightarrow> string \<Rightarrow> repo_view \<Rightarrow> repo_view" where
  "drop_link n d a v = (if links_to v n a d then drop_impu n a v else v)"

text \<open>The default IMPUs an IMPI is mapped to.\<close>

definition mapped :: "repo_view \<Rightarrow> nat \<Rightarrow> string \<Rightarrow> string set" where
  "mapped v n impi = (case snd (r_map v n impi) of None \<Rightarrow> {} | Some m \<Rightarrow> set (p_default_impus m))"

definition impu_frame :: "nat \<Rightarrow> string set \<Rightarrow> repo_view \<Rightarrow> repo_view \<Rightarrow> bool" where
  "impu_frame n K v v' \<longleftrightarrow> r_now v' = r_now v \<and> r_map v' = r_map v \<and>
     (\<forall>n' k. n' \<noteq> n \<or> k \<notin> K \<longrightarrow> r_impu v' n' k = r_impu v n' k)"

definition map_frame :: "nat \<Rightarrow> string set \<Rightarrow> repo_view \<Rightarrow> repo_view \<Rightarrow> bool" where
  "map_frame n K v v' \<longleftrightarrow> r_now v' = r_now v \<and> r_impu v' = r_impu v \<and>
     (\<forall>n' k. n' \<noteq> n \<or> k \<notin> K \<longrightarrow> r_map v' n' k = r_map v n' k)"

lemma impu_frame_refl [simp, intro]: "impu_frame n K v v"
  by (simp add: impu_frame_def)

lemma map_frame_refl [simp, intro]: "map_frame n K v v"
  by (simp add: map_frame_def)

lemma impu_frame_trans:
  "impu_frame n K v v' \<Longrightarrow> impu_frame n K' v' v'' \<Longrightarrow> impu_frame n (K \<union> K') v v''"
  by (simp add: impu_frame_def)

lemma map_frame_trans:
  "map_frame n K v v' \<Longrightarrow> map_frame n K' v' v'' \<Longrightarrow> map_frame n (K \<union> K') v v''"
  by (simp add: map_frame_def)

lemma impu_frame_mono: "impu_frame n K v v' \<Longrightarrow> K \<subseteq> K' \<Longrightarrow> impu_frame n K' v v'"
  by (auto simp: impu_frame_def)

lemma map_frame_mono: "map_frame n K v v' \<Longrightarrow> K \<subseteq> K' \<Longrightarrow> map_frame n K' v v'"
  by (auto simp: map_frame_def)

lemma put_impu_frame: "impu_frame n {impu_key i} v (put_impu n c i v)"
  by (simp add: impu_frame_def put_impu_def)

lemma put_map_frame: "map_frame n {p_impi m} v (put_map n c m v)"
  by (simp add: map_frame_def put_map_def)

lemma drop_map_frame: "map_frame n {k} v (drop_map n k v)"
  by (simp add: map_frame_def drop_map_def)

lemma read_put_impu:
  "r_impu (put_impu n c i v) n (impu_key i) = (OK, Some (stored_view c (Some n) i))"
  by (simp add: put_impu_def)

lemma drop_links_impu:
  "r_impu (fold (drop_link n d) as v) n' k =
     (if n' = n \<and> k \<in> set as \<and> links_to v n k d then (NOT_FOUND, None) else r_impu v n' k)"
  "r_map (fold (drop_link n d) as v) = r_map v" "r_now (fold (drop_link n d) as v) = r_now v"
  by (induction as arbitrary: v)
    (auto simp: drop_link_def drop_impu_def links_to_def split: option.splits Impu.splits)

text \<open>
  What must hold of an IMPI's mapping for the writes of a registration set to be accepted: the entry
  can be decoded, and the records the loops may write fit the store. \<open>F\<close> is the store's notion of a
  record that fits.
\<close>

definition mapping_writable ::
  "(impi_mapping \<Rightarrow> bool) \<Rightarrow> int \<Rightarrow> mirs \<Rightarrow> string \<Rightarrow> status \<times> impi_mapping option \<Rightarrow> bool" where
  "mapping_writable F t irs impi r \<longleftrightarrow> fst r \<noteq> ERROR \<and>
     F (new_ImpiMapping impi (m_default_impu irs) (s32 (m_ttl irs + s32 t))) \<and>
     F (new_ImpiMapping impi (m_default_impu irs) (s64 (t + m_ttl irs))) \<and>
     (\<forall>m. snd r = Some m \<longrightarrow>
        F (remove_default_impu (m_default_impu irs) m) \<and>
        F (set_expiry (s32 (m_ttl irs + s32 t)) m) \<and>
        F (add_default_impu (m_default_impu irs) (set_expiry (s32 (m_ttl irs + s32 t)) m)))"

lemmas mapping_ops = add_default_impu_def remove_default_impu_def set_expiry_def has_default_impu_def
  mapping_is_empty_def new_ImpiMapping_def

text \<open>What a registration set does to the default IMPUs of an IMPI.\<close>

definition mapped_after :: "mirs \<Rightarrow> string \<Rightarrow> string set \<Rightarrow> string set" where
  "mapped_after irs impi S =
     (case map_of (m_impis irs) impi of
        None \<Rightarrow> S
      | Some DELETED \<Rightarrow> S - {m_default_impu irs}
      | Some UNCHANGED \<Rightarrow> if m_refreshed irs then insert (m_default_impu irs) S else S
      | Some ADDED \<Rightarrow> insert (m_default_impu irs) S)"

text \<open>The associated IMPUs whose records a put writes.\<close>

definition written_impus :: "mirs \<Rightarrow> string list" where
  "written_impus irs = (if m_refreshed irs then impus_in irs UNCHANGED else []) @ impus_in irs ADDED"

text \<open>
  A registration set that store \<open>n\<close> accepts in full: every record that putting it writes fits, and
  its default IMPU is not among its associated IMPUs.
\<close>

definition irs_writable ::
  "(Impu \<Rightarrow> bool) \<Rightarrow> (impi_mapping \<Rightarrow> bool) \<Rightarrow> nat \<Rightarrow> repo_view \<Rightarrow> mirs \<Rightarrow> bool" where
  "irs_writable fits_impu fits_map n v irs \<longleftrightarrow>
     mirs_ok irs \<and> m_default_impu irs \<notin> set (written_impus irs) \<and>
     fits_impu (DefaultImpu (irs_record (r_now v) irs 0 None)) \<and>
     (\<forall>a \<in> set (written_impus irs). fits_impu (AssociatedImpu (assoc_record (r_now v) irs n a))) \<and>
     (\<forall>impi. map_of (m_impis irs) impi \<noteq> None \<longrightarrow>
        mapping_writable fits_map (r_now v) irs impi (r_map v n impi))"

text \<open>
  The registration set a conflicting write leaves behind: unchanged when it was read from this store
  and nobody wrote since, otherwise merged with the default IMPU the store holds.
\<close>

definition resolved :: "repo_view \<Rightarrow> nat \<Rightarrow> mirs \<Rightarrow> mirs" where
  "resolved v n irs =
     (if m_store irs = Some n \<and> impu_cas_ok v n (m_default_impu irs) (m_cas irs) then irs
      else case snd (r_impu v n (m_default_impu irs)) of
        Some (DefaultImpu d) \<Rightarrow> merged (r_now v) d irs
      | _ \<Rightarrow> irs)"

text \<open>
  The tables of store \<open>n\<close> after a registration set was put: the default IMPU has the set's record,
  the written associated IMPUs point to it, the deleted ones no longer do, the IMPI mappings are
  updated, and nothing else in any store changed.
\<close>

definition irs_stored :: "mirs \<Rightarrow> nat \<Rightarrow> repo_view \<Rightarrow> repo_view \<Rightarrow> bool" where
  "irs_stored irs n v v' \<longleftrightarrow>
     r_now v' = r_now v \<and>
     (\<exists>c. c \<noteq> 0 \<and> r_impu v' n (m_default_impu irs) =
        (OK, Some (stored_view c (Some n) (DefaultImpu (irs_record (r_now v) irs 0 None))))) \<and>
     (\<forall>a \<in> set (written_impus irs). \<exists>c. c \<noteq> 0 \<and> r_impu v' n a =
        (OK, Some (AssociatedImpu ((assoc_record (r_now v) irs n a)\<lparr>i_cas := c\<rparr>)))) \<and>
     (\<forall>a. a \<noteq> m_default_impu irs \<and> a \<notin> set (written_impus irs) \<longrightarrow> r_impu v' n a =
        (if a \<in> set (impus_in irs DELETED) \<and> links_to v n a (m_default_impu irs)
         then (NOT_FOUND, None) else r_impu v n a)) \<and>
     (\<forall>impi. mapped v' n impi = mapped_after irs impi (mapped v n impi)) \<and>
     (\<forall>n'. n' \<noteq> n \<longrightarrow> r_impu v' n' = r_impu v n' \<and> r_map v' n' = r_map v n')"

text \<open>The tables of store \<open>n\<close> after a registration set with the tracked data of \<open>irs\<close> was deleted.\<close>

definition irs_removed :: "mirs \<Rightarrow> nat \<Rightarrow> repo_view \<Rightarrow> repo_view \<Rightarrow> bool" where
  "irs_removed irs n v v' \<longleftrightarrow>
     r_now v' = r_now v \<and>
     r_impu v' n (m_default_impu irs) = (NOT_FOUND, None) \<and>
     (\<forall>a. a \<noteq> m_default_impu irs \<longrightarrow> r_impu v' n a =
        (if map_of (m_associated_impus irs) a \<noteq> None \<and> links_to v n a (m_default_impu irs)
         then (NOT_FOUND, None) else r_impu v n a)) \<and>
     (\<forall>impi. mapped v' n impi =
        (if map_of (m_impis irs) impi \<noteq> None then mapped v n impi - {m_default_impu irs}
         else mapped v n impi)) \<and>
     (\<forall>n'. n' \<noteq> n \<longrightarrow> r_impu v' n' = r_impu v n' \<and> r_map v' n' = r_map v n')"

text \<open>The registration set whose tracked data are deleted: merged unless it was read from this store.\<close>

definition delete_target :: "repo_view \<Rightarrow> nat \<Rightarrow> mirs \<Rightarrow> mirs" where
  "delete_target v n irs =
     (let irs0 = mark_as_refreshed irs
      in if m_store irs = Some n then irs0
         else case snd (r_impu v n (m_default_impu irs)) of
           Some (DefaultImpu d) \<Rightarrow> merged (r_now v) d irs0 | _ \<Rightarrow> irs0)"

lemma stored_record:
  "stored_view c st (DefaultImpu (irs_record t irs c' st')) =
   stored_view c st (DefaultImpu (irs_record t irs 0 None))"
  by (simp add: irs_record_def create_impu_def Let_def)

section \<open>Loops over a quiet store\<close>

context impu_repository
begin

abbreviation sid :: "'e \<Rightarrow> 's \<Rightarrow> nat" where
  "sid e s \<equiv> op_id (ops e s)"

lemma remove_associated_quiet:
  assumes "good e s" and "st \<noteq> DATA_CONTENTION"
  shows "\<exists>w'. remove_associated_loop (ops e s) d a st w =
      Some (if links_to (view e w) (sid e s) a d then OK else st, w') \<and>
    view e w' = drop_link (sid e s) d a (view e w)"
proof -
  obtain u x w1 where g: "op_get_impu (ops e s) a w = ((u, x), w1)" by (metis surj_pair)
  have r: "r_impu (view e w) (sid e s) a = (u, x)" "view e w1 = view e w"
    using get_impu_law [OF assms(1), of a w] g by simp_all
  show ?thesis
  proof (cases "links_to (view e w) (sid e s) a d")
    case True
    then obtain y where y: "x = Some (AssociatedImpu y)" "a_default_impu y = d"
      using r by (auto simp: links_to_def split: option.splits Impu.splits)
    have "i_impu y = a" using impu_shape [OF assms(1) r(1)] y by simp
    then show ?thesis
      using delete_impu_law [OF assms(1), of "AssociatedImpu y" w1] g y r True
      by (subst remove_associated_loop.simps) (auto simp: drop_link_def split: prod.split)
  next
    case False
    then show ?thesis
      using g r assms(2)
      by (subst remove_associated_loop.simps)
        (auto simp: drop_link_def links_to_def split: option.splits Impu.splits)
  qed
qed

lemma remove_all_associated_quiet:
  assumes "good e s"
  shows "\<exists>w'. for_each (remove_associated_loop (ops e s) d) as OK w = Some (OK, w') \<and>
    view e w' = fold (drop_link (sid e s) d) as (view e w)"
proof (induction as arbitrary: w)
  case Nil
  then show ?case by simp
next
  case (Cons a as)
  obtain w1 where w1: "remove_associated_loop (ops e s) d a OK w = Some (OK, w1)"
    "view e w1 = drop_link (sid e s) d a (view e w)"
    using remove_associated_quiet [OF assms, of OK d a w] by auto
  show ?case using Cons.IH [of w1] w1 by simp
qed

lemma write_associated_quiet:
  assumes "good e s" and "fits e (r_now (view e w)) (AssociatedImpu (assoc_record (r_now (view e w)) irs (sid e s) a))"
  shows "\<exists>c. c \<noteq> 0 \<and> view e (write_associated (time e) (ops e s) irs a w) =
    put_impu (sid e s) c (AssociatedImpu (assoc_record (r_now (view e w)) irs (sid e s) a)) (view e w)"
proof -
  have t: "fst (time e w) = r_now (view e w)" "view e (snd (time e w)) = view e w"
    using time_law [OF assms(1), of w] by simp_all
  show ?thesis
    using blind_set_law [OF assms(1), of "snd (time e w)"
        "AssociatedImpu (assoc_record (r_now (view e w)) irs (sid e s) a)"] assms(2) t
    by (auto simp: write_associated_def assoc_record_def Let_def case_prod_unfold)
qed

lemma write_all_associated_quiet:
  assumes "good e s"
    and "\<And>a. a \<in> set as \<Longrightarrow> fits e (r_now (view e w)) (AssociatedImpu (assoc_record (r_now (view e w)) irs (sid e s) a))"
  shows "impu_frame (sid e s) (set as) (view e w) (view e (fold (write_associated (time e) (ops e s) irs) as w)) \<and>
    (\<forall>a \<in> set as. \<exists>c. c \<noteq> 0 \<and> r_impu (view e (fold (write_associated (time e) (ops e s) irs) as w)) (sid e s) a =
      (OK, Some (AssociatedImpu ((assoc_record (r_now (view e w)) irs (sid e s) a)\<lparr>i_cas := c\<rparr>))))"
  using assms(2)
proof (induction as rule: rev_induct)
  case Nil
  then show ?case by simp
next
  case (snoc a as)
  let ?w1 = "fold (write_associated (time e) (ops e s) irs) as w"
  let ?rec = "assoc_record (r_now (view e w)) irs (sid e s)"
  have IH: "impu_frame (sid e s) (set as) (view e w) (view e ?w1)"
    "\<forall>a \<in> set as. \<exists>c. c \<noteq> 0 \<and> r_impu (view e ?w1) (sid e s) a = (OK, Some (AssociatedImpu ((?rec a)\<lparr>i_cas := c\<rparr>)))"
    using snoc by simp_all
  have now: "r_now (view e ?w1) = r_now (view e w)"
    using IH(1) by (simp add: impu_frame_def)
  obtain c where c: "c \<noteq> 0"
    "view e (write_associated (time e) (ops e s) irs a ?w1) = put_impu (sid e s) c (AssociatedImpu (?rec a)) (view e ?w1)"
    using write_associated_quiet [OF assms(1), of ?w1 irs a] snoc.prems now by auto
  have st: "stored_view c (Some (sid e s)) (AssociatedImpu (?rec a)) = AssociatedImpu ((?rec a)\<lparr>i_cas := c\<rparr>)"
    by (simp add: assoc_record_def)
  have "impu_frame (sid e s) (set as \<union> {a}) (view e w) (put_impu (sid e s) c (AssociatedImpu (?rec a)) (view e ?w1))"
    using impu_frame_trans [OF IH(1) put_impu_frame [where c = c and i = "AssociatedImpu (?rec a)"]] by simp
  moreover have "\<exists>c'. c' \<noteq> 0 \<and> r_impu (put_impu (sid e s) c (AssociatedImpu (?rec a)) (view e ?w1)) (sid e s) b =
      (OK, Some (AssociatedImpu ((?rec b)\<lparr>i_cas := c'\<rparr>)))" if "b \<in> set (as @ [a])" for b
    using that IH(2) c(1) st by (cases "b = a") (auto simp: put_impu_def)
  ultimately show ?case using c(2) by (simp add: Un_commute)
qed

lemma update_associated_quiet:
  assumes "good e s"
    and "\<And>a. a \<in> set (written_impus irs) \<Longrightarrow>
      fits e (r_now (view e w)) (AssociatedImpu (assoc_record (r_now (view e w)) irs (sid e s) a))"
  shows "\<exists>w'. update_irs_associated_impus (time e) (ops e s) irs w = Some (OK, w') \<and>
    impu_frame (sid e s) (set (written_impus irs))
      (fold (drop_link (sid e s) (m_default_impu irs)) (impus_in irs DELETED) (view e w)) (view e w') \<and>
    (\<forall>a \<in> set (written_impus irs). \<exists>c. c \<noteq> 0 \<and> r_impu (view e w') (sid e s) a =
      (OK, Some (AssociatedImpu ((assoc_record (r_now (view e w)) irs (sid e s) a)\<lparr>i_cas := c\<rparr>))))"
proof -
  obtain w1 where w1: "for_each (remove_associated_loop (ops e s) (m_default_impu irs)) (impus_in irs DELETED) OK w = Some (OK, w1)"
    "view e w1 = fold (drop_link (sid e s) (m_default_impu irs)) (impus_in irs DELETED) (view e w)"
    using remove_all_associated_quiet [OF assms(1)] by blast
  have now: "r_now (view e w1) = r_now (view e w)"
    by (simp add: w1(2) drop_links_impu)
  show ?thesis
    using write_all_associated_quiet [OF assms(1), of "written_impus irs" w1 irs] assms(2) w1 now
    by (auto simp: update_irs_associated_impus_def written_impus_def Let_def)
qed

lemma set_mapping_quiet:
  assumes "good e s" and "fits_mapping e (r_now (view e w)) m"
    and "fst (r_map (view e w) (sid e s) (p_impi m)) \<noteq> ERROR"
    and "map_cas_ok (view e w) (sid e s) (p_impi m) (p_cas m)"
  obtains w' c where "op_set_impi_mapping (ops e s) m w = (OK, w')"
    "map_frame (sid e s) {p_impi m} (view e w) (view e w')"
    "r_map (view e w') (sid e s) (p_impi m) = (OK, Some (m\<lparr>p_cas := c\<rparr>))"
    "mapped (view e w') (sid e s) (p_impi m) = set (p_default_impus m)"
proof -
  obtain c where c: "fst (op_set_impi_mapping (ops e s) m w) = OK"
    "view e (snd (op_set_impi_mapping (ops e s) m w)) = put_map (sid e s) c m (view e w)"
    using set_mapping_law [OF assms(1-3)] assms(4) by auto
  show ?thesis
    by (rule that [of "snd (op_set_impi_mapping (ops e s) m w)" c])
      (use c put_map_frame in \<open>auto simp: prod_eq_iff put_map_def mapped_def\<close>)
qed

lemma remove_mapping_quiet:
  assumes "good e s"
    and "mapping_writable (fits_mapping e (r_now (view e w))) (r_now (view e w)) irs impi
      (r_map (view e w) (sid e s) impi)"
  shows "\<exists>w'. remove_mapping_loop (ops e s) (m_default_impu irs) impi OK w = Some (OK, w') \<and>
    map_frame (sid e s) {impi} (view e w) (view e w') \<and>
    mapped (view e w') (sid e s) impi = mapped (view e w) (sid e s) impi - {m_default_impu irs}"
proof -
  obtain u y w1 where g: "op_get_impi_mapping (ops e s) impi w = ((u, y), w1)" by (metis surj_pair)
  have r: "r_map (view e w) (sid e s) impi = (u, y)" "view e w1 = view e w"
    using get_mapping_law [OF assms(1), of impi w] g by simp_all
  show ?thesis
  proof (cases "\<exists>m. y = Some m \<and> has_default_impu m (m_default_impu irs)")
    case False
    then show ?thesis
      using g r by (subst remove_mapping_loop.simps)
        (auto simp: mapped_def has_default_impu_def split: option.splits)
  next
    case True
    then obtain m where m: "y = Some m" "has_default_impu m (m_default_impu irs)" by blast
    let ?m = "remove_default_impu (m_default_impu irs) m"
    have k: "u = OK" "p_impi m = impi" using mapping_shape [OF assms(1) r(1)] m(1) by simp_all
    show ?thesis
    proof (cases "mapping_is_empty ?m")
      case True
      obtain w2 where d: "op_delete_impi_mapping (ops e s) ?m w1 = (OK, w2)"
        "view e w2 = drop_map (sid e s) impi (view e w)"
        using delete_mapping_law [OF assms(1), of ?m w1] r(2) k
        by (cases "op_delete_impi_mapping (ops e s) ?m w1") (simp add: mapping_ops)
      have "mapped (view e w) (sid e s) impi - {m_default_impu irs} = {}"
        using True by (simp add: r m mapped_def mapping_ops filter_empty_conv subset_eq Diff_eq_empty_iff)
      moreover have "remove_mapping_loop (ops e s) (m_default_impu irs) impi OK w = Some (OK, w2)"
        by (subst remove_mapping_loop.simps) (simp add: g m k True d(1))
      moreover have "mapped (view e w2) (sid e s) impi = {}"
        by (simp add: d(2) mapped_def drop_map_def)
      ultimately show ?thesis
        using d(2) drop_map_frame by auto
    next
      case False
      have "map_cas_ok (view e w1) (sid e s) (p_impi ?m) (p_cas ?m)"
        using r m k by (simp add: map_cas_ok_def mapping_ops)
      then obtain w' where "op_set_impi_mapping (ops e s) ?m w1 = (OK, w')"
        "map_frame (sid e s) {p_impi ?m} (view e w1) (view e w')"
        "mapped (view e w') (sid e s) (p_impi ?m) = set (p_default_impus ?m)"
        using set_mapping_quiet [OF assms(1), of w1 ?m] assms(2) r m k
        by (auto simp: mapping_writable_def mapping_ops)
      then show ?thesis
        using g r m k False
        by (subst remove_mapping_loop.simps) (auto simp: mapping_ops mapped_def)
    qed
  qed
qed

lemma refresh_mapping_quiet:
  assumes "good e s"
    and "mapping_writable (fits_mapping e (r_now (view e w))) (r_now (view e w)) irs impi
      (r_map (view e w) (sid e s) impi)"
  shows "\<exists>w'. refresh_mapping_loop (time e) (ops e s) (m_default_impu irs) (m_ttl irs) impi w = Some (OK, w') \<and>
    map_frame (sid e s) {impi} (view e w) (view e w') \<and>
    mapped (view e w') (sid e s) impi = insert (m_default_impu irs) (mapped (view e w) (sid e s) impi)"
proof -
  obtain u y w1 where g: "op_get_impi_mapping (ops e s) impi w = ((u, y), w1)" by (metis surj_pair)
  have r: "r_map (view e w) (sid e s) impi = (u, y)" "view e w1 = view e w"
    using get_mapping_law [OF assms(1), of impi w] g by simp_all
  obtain w2 where t: "time e w1 = (r_now (view e w), w2)" "view e w2 = view e w"
    using time_law [OF assms(1), of w1] r(2) by (cases "time e w1") simp
  let ?x = "s32 (m_ttl irs + s32 (r_now (view e w)))"
  let ?new = "new_ImpiMapping impi (m_default_impu irs) ?x"
  let ?upd = "\<lambda>m. if \<not> has_default_impu (set_expiry ?x m) (m_default_impu irs)
      then add_default_impu (m_default_impu irs) (set_expiry ?x m) else set_expiry ?x m"
  define m where "m = (case y of None \<Rightarrow> ?new | Some m \<Rightarrow> ?upd m)"
  have shape: "case y of None \<Rightarrow> u = NOT_FOUND | Some m \<Rightarrow> u = OK \<and> p_impi m = impi"
    using mapping_shape [OF assms(1) r(1)] assms(2) r by (auto simp: mapping_writable_def split: option.splits)
  have m: "p_impi m = impi" "set (p_default_impus m) = insert (m_default_impu irs) (mapped (view e w) (sid e s) impi)"
    "fits_mapping e (r_now (view e w2)) m" "map_cas_ok (view e w2) (sid e s) impi (p_cas m)"
    "fst (r_map (view e w2) (sid e s) impi) \<noteq> ERROR"
    using shape assms(2) r t
    by (auto simp: m_def mapping_writable_def mapping_ops mapped_def map_cas_ok_def split: option.splits)
  obtain w3 where w3: "op_set_impi_mapping (ops e s) m w2 = (OK, w3)"
    "map_frame (sid e s) {impi} (view e w2) (view e w3)"
    "mapped (view e w3) (sid e s) impi = set (p_default_impus m)"
    using set_mapping_quiet [OF assms(1) m(3)] m(1,4,5) by metis
  have "refresh_mapping_loop (time e) (ops e s) (m_default_impu irs) (m_ttl irs) impi w = Some (OK, w3)"
    using shape w3(1) unfolding m_def
    by (subst refresh_mapping_loop.simps) (auto simp: g t(1) Let_def split: option.splits)
  then show ?thesis using w3 m(2) t(2) by auto
qed

lemma add_mapping_quiet:
  assumes "good e s"
    and "mapping_writable (fits_mapping e (r_now (view e w))) (r_now (view e w)) irs impi
      (r_map (view e w) (sid e s) impi)"
  shows "\<exists>w'. add_mapping_loop (time e) (ops e s) (m_default_impu irs) (m_ttl irs) (m_refreshed irs) impi
      (new_ImpiMapping impi (m_default_impu irs) (s64 (r_now (view e w) + m_ttl irs))) w = Some (OK, w') \<and>
    map_frame (sid e s) {impi} (view e w) (view e w') \<and>
    mapped (view e w') (sid e s) impi = insert (m_default_impu irs) (mapped (view e w) (sid e s) impi)"
proof -
  let ?new = "new_ImpiMapping impi (m_default_impu irs) (s64 (r_now (view e w) + m_ttl irs))"
  let ?loop = "add_mapping_loop (time e) (ops e s) (m_default_impu irs) (m_ttl irs) (m_refreshed irs) impi"
  have new: "fits_mapping e (r_now (view e w)) ?new" "fst (r_map (view e w) (sid e s) (p_impi ?new)) \<noteq> ERROR"
    "p_impi ?new = impi"
    using assms(2) by (simp_all add: mapping_writable_def mapping_ops)
  obtain u y where r: "r_map (view e w) (sid e s) impi = (u, y)" by fastforce
  show ?thesis
  proof (cases y)
    case None
    then have "map_cas_ok (view e w) (sid e s) (p_impi ?new) (p_cas ?new)"
      using r by (simp add: map_cas_ok_def mapping_ops)
    from set_mapping_quiet [OF assms(1) new(1,2) this] obtain w' where
      "op_set_impi_mapping (ops e s) ?new w = (OK, w')"
      "map_frame (sid e s) {impi} (view e w) (view e w')"
      "mapped (view e w') (sid e s) impi = set (p_default_impus ?new)"
      unfolding new(3) by blast
    then show ?thesis
      using None r by (subst add_mapping_loop.simps) (simp add: mapped_def mapping_ops)
  next
    case (Some m)
    have k: "u = OK" "p_impi m = impi" "p_cas m \<noteq> 0"
      using mapping_shape [OF assms(1) r] Some by simp_all
    have "\<not> map_cas_ok (view e w) (sid e s) (p_impi ?new) (p_cas ?new)"
      using r Some k by (simp add: map_cas_ok_def mapping_ops)
    then obtain w1 where w1: "op_set_impi_mapping (ops e s) ?new w = (DATA_CONTENTION, w1)"
      "view e w1 = view e w"
      using set_mapping_law [OF assms(1) new(1,2)] by (cases "op_set_impi_mapping (ops e s) ?new w") simp
    obtain w2 where w2: "op_get_impi_mapping (ops e s) impi w1 = ((OK, Some m), w2)" "view e w2 = view e w"
      using get_mapping_law [OF assms(1), of impi w1] w1(2) r k Some
      by (cases "op_get_impi_mapping (ops e s) impi w1") simp
    obtain w3 where w3: "time e w2 = (r_now (view e w), w3)" "view e w3 = view e w"
      using time_law [OF assms(1), of w2] w2(2) by (cases "time e w2") simp
    let ?x = "s32 (m_ttl irs + s32 (r_now (view e w)))"
    let ?m1 = "set_expiry ?x m"
    let ?m2 = "if \<not> has_default_impu ?m1 (m_default_impu irs) then add_default_impu (m_default_impu irs) ?m1 else ?m1"
    have step: "?loop ?new w =
        (if has_default_impu ?m1 (m_default_impu irs) \<and> \<not> m_refreshed irs then Some (OK, w3) else ?loop ?m2 w3)"
      by (subst add_mapping_loop.simps) (simp add: w1(1) w2(1) w3(1))
    have m2: "p_impi ?m2 = impi" "fits_mapping e (r_now (view e w3)) ?m2"
      "set (p_default_impus ?m2) = insert (m_default_impu irs) (mapped (view e w) (sid e s) impi)"
      "map_cas_ok (view e w3) (sid e s) impi (p_cas ?m2)" "fst (r_map (view e w3) (sid e s) impi) \<noteq> ERROR"
      using assms(2) r Some k w3(2)
      by (auto simp: mapping_writable_def mapping_ops mapped_def map_cas_ok_def)
    show ?thesis
    proof (cases "has_default_impu ?m1 (m_default_impu irs) \<and> \<not> m_refreshed irs")
      case True
      then show ?thesis
        using step w3(2) r Some by (auto simp: mapped_def mapping_ops)
    next
      case False
      obtain w4 where w4: "op_set_impi_mapping (ops e s) ?m2 w3 = (OK, w4)"
        "map_frame (sid e s) {impi} (view e w3) (view e w4)"
        "mapped (view e w4) (sid e s) impi = set (p_default_impus ?m2)"
        using set_mapping_quiet [OF assms(1) m2(2)] m2(1,4,5) by metis
      then have "?loop ?m2 w3 = Some (OK, w4)"
        by (subst add_mapping_loop.simps) simp
      then show ?thesis
        using step False w4 m2(3) w3(2) by auto
    qed
  qed
qed

text \<open>A loop over distinct IMPIs, each of which touches its own mapping only.\<close>

lemma for_each_mapping:
  assumes "distinct impis"
    and step: "\<And>impi w'. impi \<in> set impis \<Longrightarrow> r_now (view e w') = r_now (view e w) \<Longrightarrow>
      r_map (view e w') n impi = r_map (view e w) n impi \<Longrightarrow>
      \<exists>w''. f impi OK w' = Some (OK, w'') \<and> map_frame n {impi} (view e w') (view e w'') \<and>
        mapped (view e w'') n impi = g (mapped (view e w') n impi)"
  shows "\<exists>w'. for_each f impis OK w = Some (OK, w') \<and> map_frame n (set impis) (view e w) (view e w') \<and>
    (\<forall>impi \<in> set impis. mapped (view e w') n impi = g (mapped (view e w) n impi))"
  using assms
proof (induction impis arbitrary: w)
  case Nil
  then show ?case by simp
next
  case (Cons i is')
  obtain w1 where w1: "f i OK w = Some (OK, w1)" "map_frame n {i} (view e w) (view e w1)"
    "mapped (view e w1) n i = g (mapped (view e w) n i)"
    using Cons.prems(2) [of i w] by auto
  have same: "r_now (view e w1) = r_now (view e w)"
    "k \<noteq> i \<Longrightarrow> r_map (view e w1) n k = r_map (view e w) n k" for k
    using w1(2) by (simp_all add: map_frame_def)
  have "\<exists>w'. for_each f is' OK w1 = Some (OK, w') \<and> map_frame n (set is') (view e w1) (view e w') \<and>
    (\<forall>impi \<in> set is'. mapped (view e w') n impi = g (mapped (view e w1) n impi))"
  proof (rule Cons.IH)
    show "distinct is'" using Cons.prems(1) by simp
    fix impi w'
    assume i: "impi \<in> set is'" and v: "r_now (view e w') = r_now (view e w1)"
      "r_map (view e w') n impi = r_map (view e w1) n impi"
    moreover have "impi \<noteq> i" using i Cons.prems(1) by auto
    ultimately show "\<exists>w''. f impi OK w' = Some (OK, w'') \<and> map_frame n {impi} (view e w') (view e w'') \<and>
        mapped (view e w'') n impi = g (mapped (view e w') n impi)"
      using same by (intro Cons.prems(2)) simp_all
  qed
  then obtain w2 where w2: "for_each f is' OK w1 = Some (OK, w2)" "map_frame n (set is') (view e w1) (view e w2)"
    "\<forall>impi \<in> set is'. mapped (view e w2) n impi = g (mapped (view e w1) n impi)"
    by blast
  have "mapped (view e w2) n i = mapped (view e w1) n i"
    using w2(2) Cons.prems(1) by (simp add: map_frame_def mapped_def)
  moreover have "k \<in> set is' \<Longrightarrow> mapped (view e w1) n k = mapped (view e w) n k" for k
    using same(2) [of k] Cons.prems(1) by (cases "k = i") (simp_all add: mapped_def)
  ultimately show ?case
    using w1 w2 map_frame_trans [OF w1(2) w2(2)] by (auto simp: insert_commute)
qed

lemma add_mapping_step:
  assumes "good e s"
    and "mapping_writable (fits_mapping e (r_now (view e w))) (r_now (view e w)) irs impi
      (r_map (view e w) (sid e s) impi)"
  shows "\<exists>w'. (let (t, w') = time e w; expiry = s64 (t + m_ttl irs)
      in add_mapping_loop (time e) (ops e s) (m_default_impu irs) (m_ttl irs) (m_refreshed irs) impi
           (new_ImpiMapping impi (m_default_impu irs) expiry) w') = Some (OK, w') \<and>
    map_frame (sid e s) {impi} (view e w) (view e w') \<and>
    mapped (view e w') (sid e s) impi = insert (m_default_impu irs) (mapped (view e w) (sid e s) impi)"
proof -
  obtain w1 where w1: "time e w = (r_now (view e w), w1)" "view e w1 = view e w"
    using time_law [OF assms(1), of w] by (cases "time e w") simp
  show ?thesis
    using add_mapping_quiet [OF assms(1), of w1 irs impi] assms(2) w1 by simp
qed

lemma update_mappings_quiet:
  assumes "good e s" and "mirs_ok irs"
    and fit: "\<And>impi. map_of (m_impis irs) impi \<noteq> None \<Longrightarrow>
      mapping_writable (fits_mapping e (r_now (view e w))) (r_now (view e w)) irs impi
        (r_map (view e w) (sid e s) impi)"
  shows "\<exists>w'. update_irs_impi_mappings (time e) (ops e s) irs w = Some (OK, w') \<and>
    map_frame (sid e s) (dom (map_of (m_impis irs))) (view e w) (view e w') \<and>
    (\<forall>impi. mapped (view e w') (sid e s) impi = mapped_after irs impi (mapped (view e w) (sid e s) impi))"
proof -
  let ?d = "m_default_impu irs" and ?n = "sid e s"
  have ok: "omap_ok (m_impis irs)" using assms(2) by (simp add: mirs_ok_def)
  have in_state: "impi \<in> set (impis_in irs st) \<longleftrightarrow> map_of (m_impis irs) impi = Some st" for impi st
    by (simp add: impis_in_def set_elements_in_state [OF ok])
  have dist: "distinct (impis_in irs st)" for st
    by (simp add: impis_in_def distinct_elements_in_state [OF ok])
  have "\<exists>w1. for_each (remove_mapping_loop (ops e s) ?d) (impis_in irs DELETED) OK w = Some (OK, w1) \<and>
      map_frame ?n (set (impis_in irs DELETED)) (view e w) (view e w1) \<and>
      (\<forall>impi \<in> set (impis_in irs DELETED). mapped (view e w1) ?n impi = mapped (view e w) ?n impi - {?d})"
    using fit by (intro for_each_mapping dist remove_mapping_quiet assms(1)) (simp add: in_state)
  then obtain w1 where w1: "for_each (remove_mapping_loop (ops e s) ?d) (impis_in irs DELETED) OK w = Some (OK, w1)"
    "map_frame ?n (set (impis_in irs DELETED)) (view e w) (view e w1)"
    "\<forall>impi \<in> set (impis_in irs DELETED). mapped (view e w1) ?n impi = mapped (view e w) ?n impi - {?d}"
    by blast
  have same1: "r_now (view e w1) = r_now (view e w)"
    "map_of (m_impis irs) impi \<noteq> Some DELETED \<Longrightarrow> r_map (view e w1) ?n impi = r_map (view e w) ?n impi" for impi
    using w1(2) by (simp_all add: map_frame_def in_state)
  let ?un = "if m_refreshed irs then impis_in irs UNCHANGED else []"
  have "\<exists>w2. for_each (\<lambda>impi _. refresh_mapping_loop (time e) (ops e s) ?d (m_ttl irs) impi) ?un OK w1 = Some (OK, w2) \<and>
      map_frame ?n (set ?un) (view e w1) (view e w2) \<and>
      (\<forall>impi \<in> set ?un. mapped (view e w2) ?n impi = insert ?d (mapped (view e w1) ?n impi))"
    using fit dist same1
    by (intro for_each_mapping refresh_mapping_quiet assms(1)) (auto simp: in_state split: if_splits)
  then obtain w2 where w2: "for_each (\<lambda>impi _. refresh_mapping_loop (time e) (ops e s) ?d (m_ttl irs) impi) ?un OK w1 = Some (OK, w2)"
    "map_frame ?n (set ?un) (view e w1) (view e w2)"
    "\<forall>impi \<in> set ?un. mapped (view e w2) ?n impi = insert ?d (mapped (view e w1) ?n impi)"
    by blast
  have same2: "r_now (view e w2) = r_now (view e w)"
    "map_of (m_impis irs) impi = Some ADDED \<Longrightarrow> r_map (view e w2) ?n impi = r_map (view e w) ?n impi" for impi
    using w2(2) same1 by (simp_all add: map_frame_def in_state split: if_splits)
  let ?add = "\<lambda>impi _ w. let (t, w') = time e w; expiry = s64 (t + m_ttl irs)
      in add_mapping_loop (time e) (ops e s) ?d (m_ttl irs) (m_refreshed irs) impi (new_ImpiMapping impi ?d expiry) w'"
  have "\<exists>w3. for_each ?add (impis_in irs ADDED) OK w2 = Some (OK, w3) \<and>
      map_frame ?n (set (impis_in irs ADDED)) (view e w2) (view e w3) \<and>
      (\<forall>impi \<in> set (impis_in irs ADDED). mapped (view e w3) ?n impi = insert ?d (mapped (view e w2) ?n impi))"
    using fit same2 by (intro for_each_mapping dist add_mapping_step assms(1)) (simp add: in_state)
  then obtain w3 where w3: "for_each ?add (impis_in irs ADDED) OK w2 = Some (OK, w3)"
    "map_frame ?n (set (impis_in irs ADDED)) (view e w2) (view e w3)"
    "\<forall>impi \<in> set (impis_in irs ADDED). mapped (view e w3) ?n impi = insert ?d (mapped (view e w2) ?n impi)"
    by blast
  have run: "update_irs_impi_mappings (time e) (ops e s) irs w = Some (OK, w3)"
    using w1(1) w2(1) w3(1) by (cases "m_refreshed irs") (simp_all add: update_irs_impi_mappings_def)
  have frame: "map_frame ?n (dom (map_of (m_impis irs))) (view e w) (view e w3)"
    by (rule map_frame_mono [OF map_frame_trans [OF map_frame_trans [OF w1(2) w2(2)] w3(2)]])
      (auto simp: in_state split: if_splits)
  have keep: "mapped (view e w1) ?n impi = mapped (view e w) ?n impi" if "map_of (m_impis irs) impi \<noteq> Some DELETED" for impi
    using same1(2) [OF that] by (simp add: mapped_def)
  have keep2: "mapped (view e w2) ?n impi = mapped (view e w1) ?n impi" if "impi \<notin> set ?un" for impi
    using w2(2) that by (simp add: map_frame_def mapped_def)
  have keep3: "mapped (view e w3) ?n impi = mapped (view e w2) ?n impi" if "impi \<notin> set (impis_in irs ADDED)" for impi
    using w3(2) that by (simp add: map_frame_def mapped_def)
  have "mapped (view e w3) ?n impi = mapped_after irs impi (mapped (view e w) ?n impi)" for impi
    using keep [of impi] keep2 [of impi] keep3 [of impi] w1(3) w2(3) w3(3)
    by (cases "map_of (m_impis irs) impi"; cases "the (map_of (m_impis irs) impi)")
      (auto simp: mapped_after_def in_state split: if_splits)
  then show ?thesis using run frame by blast
qed

abbreviation writable :: "'e \<Rightarrow> 's \<Rightarrow> repo_view \<Rightarrow> mirs \<Rightarrow> bool" where
  "writable e s v irs \<equiv>
     irs_writable (fits e (r_now v)) (fits_mapping e (r_now v)) (sid e s) v irs"

lemma fits_record:
  "fits e t (DefaultImpu (irs_record t' irs c st)) = fits e t (DefaultImpu (irs_record t' irs 0 None))"
  using fits_stored [of e t 0 None "DefaultImpu (irs_record t' irs c st)"]
    fits_stored [of e t 0 None "DefaultImpu (irs_record t' irs 0 None)"]
  unfolding stored_record [of 0 None t' irs c st] by simp

lemma put_record:
  "put_impu n c (DefaultImpu (irs_record t irs c' st)) v = put_impu n c (DefaultImpu (irs_record t irs 0 None)) v"
  unfolding put_impu_def stored_record [of c "Some n" t irs c' st] by simp

lemma set_record_quiet:
  assumes "good e s" and "fits e (r_now (view e w)) (DefaultImpu (irs_record (r_now (view e w)) irs 0 None))"
    and "fst (r_impu (view e w) (sid e s) (m_default_impu irs)) \<noteq> ERROR"
    and "impu_cas_ok (view e w) (sid e s) (m_default_impu irs) c"
  obtains w' c' where "op_set_impu (ops e s) (DefaultImpu (irs_record (r_now (view e w)) irs c st)) w = (OK, w')"
    "c' \<noteq> 0" "view e w' = put_impu (sid e s) c' (DefaultImpu (irs_record (r_now (view e w)) irs 0 None)) (view e w)"
proof -
  let ?i = "DefaultImpu (irs_record (r_now (view e w)) irs c st)"
  have "fits e (r_now (view e w)) ?i" using assms(2) by (rule fits_record [THEN iffD2])
  from set_impu_law [OF assms(1) this] obtain c' where "c' \<noteq> 0" "fst (op_set_impu (ops e s) ?i w) = OK"
    "view e (snd (op_set_impu (ops e s) ?i w)) = put_impu (sid e s) c' ?i (view e w)"
    using assms(3,4) by auto
  then show ?thesis
    using that [of "snd (op_set_impu (ops e s) ?i w)" c']
      put_record [of "sid e s" c' "r_now (view e w)" irs c st] by (simp add: prod_eq_iff)
qed

lemma time_quiet:
  assumes "good e s"
  obtains w' where "time e w = (r_now (view e w), w')" "view e w' = view e w"
  using time_law [OF assms, of w] by (cases "time e w") auto

text \<open>The pass that starts from the store's view of the default IMPU.\<close>

lemma set_pass_quiet:
  assumes "good e s" and "fst (r_impu (view e w) (sid e s) (m_default_impu irs)) \<noteq> ERROR"
    and "\<And>a. snd (r_impu (view e w) (sid e s) (m_default_impu irs)) = Some (AssociatedImpu a) \<Longrightarrow> m_refreshed irs"
    and irs': "irs' = (case snd (r_impu (view e w) (sid e s) (m_default_impu irs)) of
      Some (DefaultImpu d) \<Rightarrow> merged (r_now (view e w)) d irs | _ \<Rightarrow> irs)"
    and "fits e (r_now (view e w)) (DefaultImpu (irs_record (r_now (view e w)) irs' 0 None))"
  shows "\<exists>w' c. irs_impu_pass (time e) SET_IMPU (ops e s) irs None w = (OK, irs', w') \<and> c \<noteq> 0 \<and>
    view e w' = put_impu (sid e s) c (DefaultImpu (irs_record (r_now (view e w)) irs' 0 None)) (view e w)"
proof -
  let ?k = "m_default_impu irs" and ?n = "sid e s" and ?t = "r_now (view e w)"
  obtain u x w1 where g: "op_get_impu (ops e s) ?k w = ((u, x), w1)" by (metis surj_pair)
  have r: "r_impu (view e w) ?n ?k = (u, x)" "view e w1 = view e w"
    using get_impu_law [OF assms(1), of ?k w] g by simp_all
  have cas: "impu_cas_ok (view e w) ?n ?k (case x of None \<Rightarrow> 0 | Some i \<Rightarrow> impu_cas i)"
    using r(1) by (auto simp: impu_cas_ok_def split: option.splits)
  obtain w2 where w2: "time e w1 = (?t, w2)" "view e w2 = view e w"
    using time_quiet [OF assms(1), of w1] r(2) by metis
  have key: "m_default_impu irs' = ?k"
    by (auto simp: irs' split: option.splits Impu.splits)
  note set' = set_record_quiet [OF assms(1), of _ irs', unfolded key]
  show ?thesis
  proof (cases x)
    case None
    obtain w3 c where "op_set_impu (ops e s) (DefaultImpu (irs_record ?t irs' 0 None)) w2 = (OK, w3)" "c \<noteq> 0"
      "view e w3 = put_impu ?n c (DefaultImpu (irs_record ?t irs' 0 None)) (view e w)"
      using set' [of w2 0 None] assms(2,5) w2(2) cas None by auto
    then show ?thesis
      using g None w2(1) r(1) irs'
      by (auto simp: irs_impu_pass_def get_impu_of_def create_impu_eq)
  next
    case (Some i)
    then have i: "impu_store_of i = Some ?n" using impu_shape [OF assms(1) r(1)] by simp
    show ?thesis
    proof (cases i)
      case (DefaultImpu d)
      obtain w2' where w2': "(if m_refreshed irs then w1 else snd (time e w1)) = w2'" "view e w2' = view e w"
        using r(2) w2 by auto
      obtain w3 where w3: "time e w2' = (?t, w3)" "view e w3 = view e w"
        using time_quiet [OF assms(1), of w2'] w2'(2) by metis
      obtain w4 c where "op_set_impu (ops e s) (DefaultImpu (irs_record ?t irs' (i_cas d) (i_store d))) w3 = (OK, w4)" "c \<noteq> 0"
        "view e w4 = put_impu ?n c (DefaultImpu (irs_record ?t irs' 0 None)) (view e w)"
        using set' [of w3 "i_cas d" "i_store d"] assms(2,5) w3(2) cas Some DefaultImpu by auto
      then show ?thesis
        using g Some DefaultImpu w2(1) w2'(1) w3(1) r(1) irs'
        by (auto simp: irs_impu_pass_def get_impu_from_impu_def create_impu_eq update_from_eq)
    next
      case (AssociatedImpu a)
      obtain w3 c where "op_set_impu (ops e s) (DefaultImpu (irs_record ?t irs' (i_cas a) (i_store a))) w2 = (OK, w3)" "c \<noteq> 0"
        "view e w3 = put_impu ?n c (DefaultImpu (irs_record ?t irs' 0 None)) (view e w)"
        using set' [of w2 "i_cas a" "i_store a"] assms(2,5) w2(2) cas Some AssociatedImpu by auto
      then show ?thesis
        using g Some AssociatedImpu w2(1) r(1) irs' assms(3) [of a]
        by (auto simp: irs_impu_pass_def get_impu_from_impu_def create_impu_eq)
    qed
  qed
qed

lemma update_irs_impu_quiet:
  assumes "good e s" and "fst (r_impu (view e w) (sid e s) (m_default_impu irs)) \<noteq> ERROR"
    and "\<And>a. snd (r_impu (view e w) (sid e s) (m_default_impu irs)) = Some (AssociatedImpu a) \<Longrightarrow> m_refreshed irs"
    and "fits e (r_now (view e w)) (DefaultImpu (irs_record (r_now (view e w)) irs 0 None))"
    and "irs' = resolved (view e w) (sid e s) irs"
    and "fits e (r_now (view e w)) (DefaultImpu (irs_record (r_now (view e w)) irs' 0 None))"
  shows "\<exists>w' c. update_irs_impu (time e) (ops e s) irs w = Some (OK, irs', w') \<and> c \<noteq> 0 \<and>
    view e w' = put_impu (sid e s) c (DefaultImpu (irs_record (r_now (view e w)) irs' 0 None)) (view e w)"
proof -
  let ?k = "m_default_impu irs" and ?n = "sid e s" and ?t = "r_now (view e w)"
  have pass2: "\<exists>w' c. irs_impu_loop (time e) SET_IMPU (ops e s) irs None w1 = Some (OK, irs', w') \<and> c \<noteq> 0 \<and>
      view e w' = put_impu ?n c (DefaultImpu (irs_record ?t irs' 0 None)) (view e w)"
    if view: "view e w1 = view e w"
      and stale: "\<not> (m_store irs = Some ?n \<and> impu_cas_ok (view e w) ?n ?k (m_cas irs))" for w1
  proof -
    have irs': "irs' = (case snd (r_impu (view e w) ?n ?k) of
        Some (DefaultImpu d) \<Rightarrow> merged ?t d irs | _ \<Rightarrow> irs)"
      using stale assms(5) by (auto simp: resolved_def)
    have "\<exists>w' c. irs_impu_pass (time e) SET_IMPU (ops e s) irs None w1 = (OK, irs', w') \<and> c \<noteq> 0 \<and>
        view e w' = put_impu ?n c (DefaultImpu (irs_record ?t irs' 0 None)) (view e w)"
      by (rule set_pass_quiet [OF assms(1), where w = w1, unfolded view])
        (rule assms(2), erule assms(3), rule irs', rule assms(6))
    then show ?thesis
      by (subst irs_impu_loop.simps) auto
  qed
  show ?thesis
  proof (cases "m_store irs = Some ?n")
    case False
    then show ?thesis
      using pass2 [of w] by (simp add: update_irs_impu_def perform_irs_impu_action_def get_impu_for_store_def)
  next
    case True
    let ?i = "DefaultImpu (irs_record ?t irs (m_cas irs) (Some ?n))"
    obtain w1 where w1: "time e w = (?t, w1)" "view e w1 = view e w"
      using time_quiet [OF assms(1)] by metis
    have start: "update_irs_impu (time e) (ops e s) irs w =
        irs_impu_loop (time e) SET_IMPU (ops e s) irs (Some (irs_record ?t irs (m_cas irs) (Some ?n))) w1"
      using True w1(1) by (simp add: update_irs_impu_def perform_irs_impu_action_def get_impu_for_store_def create_impu_eq)
    show ?thesis
    proof (cases "impu_cas_ok (view e w) ?n ?k (m_cas irs)")
      case match: True
      then obtain w2 c where "op_set_impu (ops e s) ?i w1 = (OK, w2)" "c \<noteq> 0"
        "view e w2 = put_impu ?n c (DefaultImpu (irs_record ?t irs 0 None)) (view e w)"
        using set_record_quiet [OF assms(1), of w1 irs "m_cas irs" "Some ?n"] assms(2,4) w1(2) by auto
      moreover have "irs' = irs" using assms(5) True match by (simp add: resolved_def)
      ultimately show ?thesis
        unfolding start by (subst irs_impu_loop.simps) (auto simp: irs_impu_pass_def)
    next
      case False
      have "fits e ?t ?i" using assms(4) by (rule fits_record [THEN iffD2])
      then obtain w2 where w2: "op_set_impu (ops e s) ?i w1 = (DATA_CONTENTION, w2)" "view e w2 = view e w"
        using set_impu_law [OF assms(1), of w1 ?i] assms(2) False w1(2)
        by (cases "op_set_impu (ops e s) ?i w1") simp
      then show ?thesis
        using pass2 [of w2] False
        unfolding start by (subst irs_impu_loop.simps) (simp add: irs_impu_pass_def)
    qed
  qed
qed

lemma create_irs_impu_quiet:
  assumes "good e s" and "fits e (r_now (view e w)) (DefaultImpu (irs_record (r_now (view e w)) irs 0 None))"
    and "m_registration_state irs = REGISTERED \<or> fst (r_impu (view e w) (sid e s) (m_default_impu irs)) = NOT_FOUND"
  shows "\<exists>w' c. create_irs_impu (time e) (ops e s) irs w = (OK, w') \<and> c \<noteq> 0 \<and>
    view e w' = put_impu (sid e s) c (DefaultImpu (irs_record (r_now (view e w)) irs 0 None)) (view e w)"
proof -
  let ?i = "DefaultImpu (irs_record (r_now (view e w)) irs 0 None)"
  obtain w1 where w1: "time e w = (r_now (view e w), w1)" "view e w1 = view e w"
    using time_quiet [OF assms(1)] by metis
  have reg: "d_registration_state (irs_record t irs c st) = m_registration_state irs" for t c st
    by (simp add: irs_record_def create_impu_def Let_def)
  show ?thesis
  proof (cases "m_registration_state irs = REGISTERED")
    case True
    then show ?thesis
      using blind_set_law [OF assms(1), of w1 ?i] assms(2) w1 reg
      by (auto simp: create_irs_impu_def get_impu_of_def create_impu_eq prod_eq_iff Let_def)
  next
    case False
    obtain u x where r: "r_impu (view e w) (sid e s) (m_default_impu irs) = (u, x)" by fastforce
    then have "impu_cas_ok (view e w) (sid e s) (m_default_impu irs) 0" "u \<noteq> ERROR"
      using impu_shape [OF assms(1) r] assms(3) False by (auto simp: impu_cas_ok_def split: option.splits)
    then obtain c where "c \<noteq> 0" "fst (op_add_impu (ops e s) ?i w1) = OK"
      "view e (snd (op_add_impu (ops e s) ?i w1)) = put_impu (sid e s) c ?i (view e w)"
      using add_impu_law [OF assms(1), of w1 ?i] assms(2) w1(2) r by auto
    then show ?thesis
      using False w1(1) reg
      by (cases "op_add_impu (ops e s) ?i w1") (auto simp: create_irs_impu_def get_impu_of_def create_impu_eq)
  qed
qed

text \<open>After the default IMPU is in place: the associated IMPUs and the mappings.\<close>

lemma put_tables_quiet:
  assumes "good e s" and "writable e s (view e w) irs" and "c \<noteq> 0"
    and v1: "view e w1 = put_impu (sid e s) c (DefaultImpu (irs_record (r_now (view e w)) irs 0 None)) (view e w)"
  shows "\<exists>w2 w3 u. update_irs_associated_impus (time e) (ops e s) irs w1 = Some (u, w2) \<and>
    update_irs_impi_mappings (time e) (ops e s) irs w2 = Some (OK, w3) \<and>
    irs_stored irs (sid e s) (view e w) (view e w3)"
proof -
  let ?n = "sid e s" and ?d = "m_default_impu irs" and ?t = "r_now (view e w)"
  have now1: "r_now (view e w1) = ?t" "r_map (view e w1) = r_map (view e w)"
    by (simp_all add: v1 put_impu_def)
  have W: "mirs_ok irs" "?d \<notin> set (written_impus irs)"
    "a \<in> set (written_impus irs) \<Longrightarrow> fits e ?t (AssociatedImpu (assoc_record ?t irs ?n a))"
    "map_of (m_impis irs) impi \<noteq> None \<Longrightarrow> mapping_writable (fits_mapping e ?t) ?t irs impi (r_map (view e w) ?n impi)"
    for a impi using assms(2) unfolding irs_writable_def by blast+
  obtain w2 where w2: "update_irs_associated_impus (time e) (ops e s) irs w1 = Some (OK, w2)"
    "impu_frame ?n (set (written_impus irs)) (fold (drop_link ?n ?d) (impus_in irs DELETED) (view e w1)) (view e w2)"
    "\<forall>a \<in> set (written_impus irs). \<exists>c. c \<noteq> 0 \<and> r_impu (view e w2) ?n a =
      (OK, Some (AssociatedImpu ((assoc_record ?t irs ?n a)\<lparr>i_cas := c\<rparr>)))"
    using update_associated_quiet [OF assms(1), of irs w1] W(3) now1(1) by auto
  have now2: "r_now (view e w2) = ?t" "r_map (view e w2) = r_map (view e w)"
    using w2(2) now1 by (simp_all add: impu_frame_def drop_links_impu)
  obtain w3 where w3: "update_irs_impi_mappings (time e) (ops e s) irs w2 = Some (OK, w3)"
    "map_frame ?n (dom (map_of (m_impis irs))) (view e w2) (view e w3)"
    "\<forall>impi. mapped (view e w3) ?n impi = mapped_after irs impi (mapped (view e w2) ?n impi)"
    using update_mappings_quiet [OF assms(1) W(1), of w2] W(4) now2 by auto
  have imp3: "r_impu (view e w3) = r_impu (view e w2)" and now3: "r_now (view e w3) = ?t"
    using w3(2) now2 by (simp_all add: map_frame_def)
  have links: "links_to (view e w1) ?n a ?d \<longleftrightarrow> a \<noteq> ?d \<and> links_to (view e w) ?n a ?d" for a
    by (simp add: links_to_def v1 put_impu_def)
  have old: "r_impu (view e w2) n' a = (if n' = ?n \<and> a \<in> set (impus_in irs DELETED) \<and> links_to (view e w1) ?n a ?d
      then (NOT_FOUND, None) else r_impu (view e w1) n' a)" if "n' \<noteq> ?n \<or> a \<notin> set (written_impus irs)" for n' a
    using w2(2) that by (simp add: impu_frame_def drop_links_impu)
  have def: "r_impu (view e w2) ?n ?d =
      (OK, Some (stored_view c (Some ?n) (DefaultImpu (irs_record ?t irs 0 None))))"
    using old [of ?n ?d] W(2) links [of ?d] by (simp add: v1 put_impu_def)
  have other: "r_impu (view e w2) n' = r_impu (view e w) n' \<and> r_map (view e w3) n' = r_map (view e w) n'"
    if "n' \<noteq> ?n" for n'
    using old [of n'] w3(2) now2(2) that by (auto simp: v1 put_impu_def map_frame_def)
  have rest: "r_impu (view e w2) ?n a = (if a \<in> set (impus_in irs DELETED) \<and> links_to (view e w) ?n a ?d
      then (NOT_FOUND, None) else r_impu (view e w) ?n a)" if "a \<noteq> ?d" "a \<notin> set (written_impus irs)" for a
    using old [of ?n a] that links [of a] by (simp add: v1 put_impu_def)
  have "irs_stored irs ?n (view e w) (view e w3)"
    unfolding irs_stored_def imp3
    using assms(3) w2(3) w3(3) now2(2) now3 def other rest by (auto simp: mapped_def)
  then show ?thesis using w2(1) w3(1) by blast
qed

lemma put_irs_action_quiet:
  assumes "good e s" and "fst (r_impu (view e w) (sid e s) (m_default_impu irs)) \<noteq> ERROR"
    and "\<And>a. snd (r_impu (view e w) (sid e s) (m_default_impu irs)) = Some (AssociatedImpu a) \<Longrightarrow> m_refreshed irs"
    and "fits e (r_now (view e w)) (DefaultImpu (irs_record (r_now (view e w)) irs 0 None))"
    and "\<not> m_existing irs \<Longrightarrow> m_registration_state irs = REGISTERED \<or>
      fst (r_impu (view e w) (sid e s) (m_default_impu irs)) = NOT_FOUND"
    and irs': "irs' = (if m_existing irs then resolved (view e w) (sid e s) irs else irs)"
    and "writable e s (view e w) irs'"
  shows "\<exists>w'. put_irs_action (time e) (ops e s) irs w = Some (OK, irs', w') \<and>
    irs_stored irs' (sid e s) (view e w) (view e w')"
proof -
  let ?rec = "DefaultImpu (irs_record (r_now (view e w)) irs' 0 None)"
  have fits': "fits e (r_now (view e w)) ?rec"
    using assms(7) by (simp add: irs_writable_def)
  have "\<exists>w1 c. (if m_existing irs then update_irs_impu (time e) (ops e s) irs w
       else let (status, w1) = create_irs_impu (time e) (ops e s) irs w in Some (status, irs, w1)) = Some (OK, irs', w1) \<and>
      c \<noteq> 0 \<and> view e w1 = put_impu (sid e s) c ?rec (view e w)"
  proof (cases "m_existing irs")
    case True
    then have "irs' = resolved (view e w) (sid e s) irs" using irs' by simp
    from update_irs_impu_quiet [OF assms(1,2) _ assms(4) this fits'] True assms(3) show ?thesis by auto
  next
    case False
    then have "irs' = irs" using irs' by simp
    with create_irs_impu_quiet [OF assms(1,4) assms(5) [OF False]] False show ?thesis by auto
  qed
  then obtain w1 c where w1: "(if m_existing irs then update_irs_impu (time e) (ops e s) irs w
       else let (status, w1) = create_irs_impu (time e) (ops e s) irs w in Some (status, irs, w1)) = Some (OK, irs', w1)"
    "c \<noteq> 0" "view e w1 = put_impu (sid e s) c ?rec (view e w)"
    by blast
  from put_tables_quiet [OF assms(1,7) w1(2,3)] show ?thesis
    by (auto simp: put_irs_action_def w1(1))
qed

lemma delete_irs_impu_quiet:
  assumes "good e s" and "fst (r_impu (view e w) (sid e s) (m_default_impu irs)) \<noteq> ERROR"
  shows "\<exists>w'. delete_irs_impu (time e) (ops e s) irs w = Some (OK, delete_target (view e w) (sid e s) irs, w') \<and>
    view e w' = drop_impu (sid e s) (m_default_impu irs) (view e w)"
proof -
  let ?k = "m_default_impu irs" and ?n = "sid e s" and ?t = "r_now (view e w)" and ?irs = "mark_as_refreshed irs"
  have del: "\<exists>w'. op_delete_impu (ops e s) (DefaultImpu d) w1 = (OK, w') \<and> view e w' = drop_impu ?n ?k (view e w)"
    if "view e w1 = view e w" "i_impu d = ?k" for d w1
    using delete_impu_law [OF assms(1), of "DefaultImpu d" w1] that
    by (cases "op_delete_impu (ops e s) (DefaultImpu d) w1") simp
  have mk: "m_default_impu ?irs = ?k" "m_store ?irs = m_store irs" "m_refreshed ?irs"
    by (simp_all add: mark_as_refreshed_def)
  obtain u x w1 where g: "op_get_impu (ops e s) ?k w = ((u, x), w1)" by (metis surj_pair)
  have r: "r_impu (view e w) ?n ?k = (u, x)" "view e w1 = view e w"
    using get_impu_law [OF assms(1), of ?k w] g by simp_all
  note loop = delete_irs_impu_def perform_irs_impu_action_def get_impu_for_store_def irs_impu_pass_def mk
    create_impu_eq get_impu_from_impu_def update_from_eq delete_target_def
  obtain w2 where w2: "time e w1 = (?t, w2)" "view e w2 = view e w"
    using time_quiet [OF assms(1), of w1] r(2) by metis
  obtain w3 where w3: "time e w = (?t, w3)" "view e w3 = view e w"
    using time_quiet [OF assms(1)] by metis
  show ?thesis
  proof (cases "m_store irs = Some ?n")
    case True
    then show ?thesis
      using del [OF w3(2), of "irs_record ?t ?irs (m_cas ?irs) (Some ?n)"] w3(1) mk(1)
      by (auto simp: loop irs_impu_loop.simps)
  next
    case False
    show ?thesis
    proof (cases x)
      case None
      then have "u = NOT_FOUND" using impu_shape [OF assms(1) r(1)] assms(2) r(1) by simp
      then have "drop_impu ?n ?k (view e w) = view e w"
        using r(1) None by (simp add: drop_impu_def fun_upd_idem)
      then show ?thesis
        using False g None r by (simp add: loop irs_impu_loop.simps)
    next
      case (Some i)
      define irs1 where "irs1 = (case i of DefaultImpu d \<Rightarrow> merged ?t d ?irs | _ \<Rightarrow> ?irs)"
      have "m_default_impu irs1 = ?k" using mk(1) by (simp add: irs1_def split: Impu.split)
      then obtain w4 where "op_delete_impu (ops e s)
          (DefaultImpu (irs_record ?t irs1 (impu_cas i) (impu_store_of i))) w2 = (OK, w4)"
        "view e w4 = drop_impu ?n ?k (view e w)"
        using del [OF w2(2), of "irs_record ?t irs1 (impu_cas i) (impu_store_of i)"] by auto
      then show ?thesis
        using False g r w2(1) Some irs1_def by (cases i) (simp_all add: loop irs_impu_loop.simps)
    qed
  qed
qed

lemma delete_irs_action_quiet:
  assumes "good e s" and "fst (r_impu (view e w) (sid e s) (m_default_impu irs)) \<noteq> ERROR"
    and irs1: "irs1 = delete_target (view e w) (sid e s) irs" and "mirs_ok irs"
    and fit: "\<And>impi. map_of (m_impis irs1) impi \<noteq> None \<Longrightarrow>
      mapping_writable (fits_mapping e (r_now (view e w))) (r_now (view e w)) irs1 impi (r_map (view e w) (sid e s) impi)"
  shows "\<exists>w'. delete_irs_action (time e) (ops e s) irs w =
      Some (OK, delete_impis (delete_assoc_impus irs1), w') \<and>
    irs_removed irs1 (sid e s) (view e w) (view e w')"
proof -
  let ?n = "sid e s" and ?d = "m_default_impu irs" and ?irs2 = "delete_assoc_impus irs1"
  let ?irs3 = "delete_impis ?irs2"
  have ok: "mirs_ok irs1" and d1: "m_default_impu irs1 = ?d"
    using assms(4) mirs_ok_delete(3) mirs_ok_update
    by (auto simp: irs1 delete_target_def merged_def mark_as_refreshed_def update_fields Let_def
        split: option.splits Impu.splits)
  have ok2: "mirs_ok ?irs2" and ok3: "mirs_ok ?irs3" using ok by blast+
  have fields: "m_default_impu ?irs2 = ?d" "m_default_impu ?irs3 = ?d" "m_impis ?irs2 = m_impis irs1"
    "m_ttl ?irs3 = m_ttl irs1" "m_impis ?irs3 = delete_tracked (m_impis irs1)"
    using d1 by (simp_all add: delete_assoc_impus_def delete_impis_def)
  have deleted: "a \<in> set (impus_in ?irs2 DELETED) \<longleftrightarrow> map_of (m_associated_impus irs1) a \<noteq> None" for a
    using ok by (auto simp: impus_in_def delete_assoc_impus_def mirs_ok_def set_elements_in_state)
  have written: "a \<notin> set (written_impus ?irs2)" for a
    using ok by (auto simp: written_impus_def impus_in_def delete_assoc_impus_def mirs_ok_def set_elements_in_state)
  obtain w1 where w1: "delete_irs_impu (time e) (ops e s) irs w = Some (OK, irs1, w1)"
    "view e w1 = drop_impu ?n ?d (view e w)"
    using delete_irs_impu_quiet [OF assms(1,2)] irs1 by auto
  obtain w2 where w2: "update_irs_associated_impus (time e) (ops e s) ?irs2 w1 = Some (OK, w2)"
    "impu_frame ?n {} (fold (drop_link ?n ?d) (impus_in ?irs2 DELETED) (view e w1)) (view e w2)"
    using update_associated_quiet [OF assms(1), of ?irs2 w1] written fields(1)
    by (metis equals0I)
  have v2: "r_now (view e w2) = r_now (view e w)" "r_map (view e w2) = r_map (view e w)"
    using w2(2) by (simp_all add: impu_frame_def drop_links_impu w1(2) drop_impu_def)
  have "mapping_writable (fits_mapping e (r_now (view e w2))) (r_now (view e w2)) ?irs3 impi (r_map (view e w2) ?n impi)"
    if "map_of (m_impis ?irs3) impi \<noteq> None" for impi
    using fit [of impi] that v2 fields d1 by (simp add: mapping_writable_def)
  from update_mappings_quiet [OF assms(1) ok3 this] obtain w3 where
    w3: "update_irs_impi_mappings (time e) (ops e s) ?irs3 w2 = Some (OK, w3)"
    "map_frame ?n (dom (map_of (m_impis ?irs3))) (view e w2) (view e w3)"
    "\<forall>impi. mapped (view e w3) ?n impi = mapped_after ?irs3 impi (mapped (view e w2) ?n impi)"
    by blast
  have imp: "r_impu (view e w3) n' a = (if n' = ?n \<and> map_of (m_associated_impus irs1) a \<noteq> None \<and> links_to (view e w1) ?n a ?d
      then (NOT_FOUND, None) else r_impu (view e w1) n' a)" for n' a
    using w3(2) w2(2) deleted by (simp add: map_frame_def impu_frame_def drop_links_impu)
  have links: "links_to (view e w1) ?n a ?d \<longleftrightarrow> a \<noteq> ?d \<and> links_to (view e w) ?n a ?d" for a
    by (simp add: links_to_def w1(2) drop_impu_def)
  have mapd: "mapped (view e w3) ?n impi = (if map_of (m_impis irs1) impi \<noteq> None
      then mapped (view e w) ?n impi - {?d} else mapped (view e w) ?n impi)" for impi
    using w3(3) v2(2) fields d1 by (auto simp: mapped_after_def mapped_def split: option.splits)
  have impus: "r_impu (view e w3) n' a = (if n' = ?n \<and> (a = ?d \<or>
      map_of (m_associated_impus irs1) a \<noteq> None \<and> links_to (view e w) ?n a ?d)
      then (NOT_FOUND, None) else r_impu (view e w) n' a)" for n' a
    unfolding imp links by (auto simp: w1(2) drop_impu_def)
  have "irs_removed irs1 ?n (view e w) (view e w3)"
    unfolding irs_removed_def d1
    using impus mapd w3(2) v2 by (auto simp: map_frame_def)
  then show ?thesis
    using w1(1) w2(1) w3(1) by (auto simp: delete_irs_action_def)
qed

text \<open>Reading back from the local store what a put left there.\<close>

lemma gr_local:
  assumes "good e s" and "c_local cache = ops e s"
    and "r_impu (view e w) (sid e s) k = (OK, Some i)"
  shows "\<exists>w'. get_impu_for_impu_gr cache k w = ((OK, Some i), w') \<and> view e w' = view e w"
  using get_impu_law [OF assms(1), of k w] assms(2,3)
  by (cases "op_get_impu (ops e s) k w") (simp add: get_impu_for_impu_gr_def)

end

end
