(* ===== verification/Reference_Env.thy ===== *)
theory Reference_Env
  imports Impu_Store Xml_Utils
begin

text \<open>
  A concrete environment in which the assumed behaviour of the libraries and of the data store
  holds: a token-by-token JSON codec, LZ4 that stores its input as it is, and an association-list
  store with a CAS counter. It shows that the hypotheses of the theorems about stored records can
  be met, and the witnesses run in it. It models no code of the repository.
\<close>

section \<open>A JSON codec\<close>

definition enc_string :: "string \<Rightarrow> string" where
  "enc_string s = concat (map (\<lambda>c. [CHR ''c'', c]) s) @ [CHR ''e'']"

fun dec_string :: "string \<Rightarrow> (string \<times> string) option" where
  "dec_string (x # xs) =
     (if x = CHR ''e'' then Some ([], xs)
      else case xs of
        [] \<Rightarrow> None
      | c # ys \<Rightarrow> (case dec_string ys of None \<Rightarrow> None | Some (s, r) \<Rightarrow> Some (c # s, r)))"
| "dec_string [] = None"

lemma dec_enc_string: "dec_string (enc_string s @ r) = Some (s, r)"
  by (induction s) (simp_all add: enc_string_def)

definition enc_int :: "int \<Rightarrow> string" where
  "enc_int i = map (\<lambda>k. if bit i k then CHR ''1'' else CHR ''0'') [0..<64]"

lemma length_enc_int: "length (enc_int i) = 64"
  by (simp add: enc_int_def)

definition dec_int :: "string \<Rightarrow> int" where
  "dec_int s = signed_take_bit 63 (horner_sum of_bool 2 (map (\<lambda>c. c = CHR ''1'') s))"

lemma dec_enc_int: "- 9223372036854775808 \<le> i \<Longrightarrow> i < 9223372036854775808 \<Longrightarrow> dec_int (enc_int i) = i"
proof -
  assume range: "- 9223372036854775808 \<le> i" "i < 9223372036854775808"
  have "map (\<lambda>c. c = CHR ''1'') (enc_int i) = map (bit i) [0..<64]"
    by (simp add: enc_int_def)
  then have "dec_int (enc_int i) = signed_take_bit 63 (take_bit 64 i)"
    by (simp only: dec_int_def horner_sum_bit_eq_take_bit)
  also have "\<dots> = i"
    using range by (simp add: signed_take_bit_take_bit signed_take_bit_int_eq_self)
  finally show ?thesis .
qed

fun enc_event :: "jevent \<Rightarrow> string" where
  "enc_event JStartObject = ''{''"
| "enc_event JEndObject = ''}''"
| "enc_event JStartArray = ''[''"
| "enc_event JEndArray = '']''"
| "enc_event (JString s) = CHR ''s'' # enc_string s"
| "enc_event (JBool b) = [if b then CHR ''t'' else CHR ''f'']"
| "enc_event (JInt i) = CHR ''n'' # enc_int i"
| "enc_event (JInt64 i) = CHR ''i'' # enc_int i"

definition ref_write :: "jevent list \<Rightarrow> string" where
  "ref_write es = concat (map enc_event es)"

section \<open>Reading an object\<close>

text \<open>An array of strings after its opening bracket, up to the closing one.\<close>

fun dec_array :: "nat \<Rightarrow> string \<Rightarrow> (string list \<times> string) option" where
  "dec_array 0 s = None"
| "dec_array (Suc n) s =
     (case s of
        [] \<Rightarrow> None
      | x # xs \<Rightarrow>
          if x = CHR '']'' then Some ([], xs)
          else if x = CHR ''s'' then
            (case dec_string xs of
               None \<Rightarrow> None
             | Some (v, r) \<Rightarrow> (case dec_array n r of None \<Rightarrow> None | Some (vs, r') \<Rightarrow> Some (v # vs, r')))
          else None)"

definition dec_value :: "string \<Rightarrow> (jvalue \<times> string) option" where
  "dec_value s =
     (case s of
        [] \<Rightarrow> None
      | x # xs \<Rightarrow>
          if x = CHR ''s'' then map_option (map_prod VStr id) (dec_string xs)
          else if x = CHR ''t'' then Some (VBool True, xs)
          else if x = CHR ''f'' then Some (VBool False, xs)
          else if x = CHR ''i'' then Some (VInt (dec_int (take 64 xs)), drop 64 xs)
          else if x = CHR ''['' then map_option (map_prod VArr id) (dec_array (length xs) xs)
          else None)"

fun dec_members :: "nat \<Rightarrow> string \<Rightarrow> (string \<times> jvalue) list option" where
  "dec_members 0 s = None"
| "dec_members (Suc n) s =
     (case s of
        [] \<Rightarrow> None
      | x # xs \<Rightarrow>
          if x = CHR ''}'' then Some []
          else if x = CHR ''s'' then
            (case dec_string xs of
               None \<Rightarrow> None
             | Some (k, r) \<Rightarrow> (case dec_value r of
                 None \<Rightarrow> None
               | Some (v, r') \<Rightarrow> map_option (\<lambda>ms. (k, v) # ms) (dec_members n r')))
          else None)"

definition ref_parse :: "string \<Rightarrow> (string \<times> jvalue) list option" where
  "ref_parse s =
     (case s of
        [] \<Rightarrow> None
      | x # xs \<Rightarrow> if x = CHR ''{'' then dec_members (length xs) xs else None)"

lemma enc_string_length: "length (enc_string s) \<ge> 1"
  by (simp add: enc_string_def)

lemma dec_array_events:
  "length vs < n \<Longrightarrow> dec_array n (concat (map (\<lambda>s. CHR ''s'' # enc_string s) vs) @ CHR '']'' # r) = Some (vs, r)"
  by (induction vs arbitrary: n; case_tac n) (simp_all add: dec_enc_string)

lemma length_array: "length vs \<le> length (concat (map (\<lambda>s. CHR ''s'' # enc_string s) vs))"
  by (induction vs) simp_all

fun enc_value :: "jvalue \<Rightarrow> string" where
  "enc_value (VStr s) = CHR ''s'' # enc_string s"
| "enc_value (VBool b) = [if b then CHR ''t'' else CHR ''f'']"
| "enc_value (VInt i) = CHR ''i'' # enc_int i"
| "enc_value (VArr vs) = CHR ''['' # concat (map (\<lambda>s. CHR ''s'' # enc_string s) vs) @ '']''"

lemma dec_enc_value: "jvalue_ok v \<Longrightarrow> dec_value (enc_value v @ r) = Some (v, r)"
proof (cases v)
  case (VArr vs)
  have "length vs < length (concat (map (\<lambda>s. CHR ''s'' # enc_string s) vs) @ CHR '']'' # r)"
    using length_array [of vs] by simp
  from dec_array_events [OF this] VArr show ?thesis by (simp add: dec_value_def del: dec_array.simps)
qed (simp_all add: dec_value_def dec_enc_string dec_enc_int length_enc_int)

lemma dec_members_events:
  "length ms < n \<Longrightarrow> (\<And>k v. (k, v) \<in> set ms \<Longrightarrow> jvalue_ok v) \<Longrightarrow>
     dec_members n (concat (map (\<lambda>(k, v). CHR ''s'' # enc_string k @ enc_value v) ms) @ CHR ''}'' # r) = Some ms"
proof (induction ms arbitrary: n)
  case Nil
  then show ?case by (cases n) simp_all
next
  case (Cons m ms)
  obtain k v n' where m: "m = (k, v)" "n = Suc n'"
    using Cons.prems(1) by (cases m; cases n) auto
  have "jvalue_ok v" using Cons.prems(2) [of k v] m by simp
  moreover have "dec_members n' (concat (map (\<lambda>(k, v). CHR ''s'' # enc_string k @ enc_value v) ms) @ CHR ''}'' # r) = Some ms"
  proof (rule Cons.IH)
    show "length ms < n'" using Cons.prems(1) m by simp
    show "jvalue_ok v" if "(k, v) \<in> set ms" for k v
      using that by (intro Cons.prems(2) [of k v]) simp
  qed
  ultimately show ?case
    using m by (simp add: dec_enc_string dec_enc_value)
qed

section \<open>The environment\<close>

record ref_world =
  rw_data :: "((nat \<times> string \<times> string) \<times> (string \<times> cas)) list"
  rw_cas :: cas
  rw_time :: int

definition ref_ext :: "(ref_world, (string \<times> jvalue) list) ext" where
  "ref_ext = \<lparr>
     time0 = (\<lambda>w. (rw_time w, w)),
     lz4_compress = (\<lambda>dict data n. if length data \<le> n then (int (length data), data) else (0, [])),
     lz4_decompress = (\<lambda>dict data n. if length data \<le> n then (int (length data), data) else (- 1, [])),
     json_write = ref_write,
     json_parse = ref_parse,
     json_is_object = (\<lambda>j. True),
     json_has_member = (\<lambda>j k. map_of j k \<noteq> None),
     json_string_member = (\<lambda>j k. case map_of j k of Some (VStr s) \<Rightarrow> Some s | _ \<Rightarrow> None),
     json_safe_get_string = (\<lambda>j k d. case map_of j k of Some (VStr s) \<Rightarrow> s | _ \<Rightarrow> d),
     json_safe_get_int64 = (\<lambda>j k d. case map_of j k of Some (VInt i) \<Rightarrow> i | _ \<Rightarrow> d),
     json_get_bool = (\<lambda>j k. case map_of j k of Some (VBool b) \<Rightarrow> b | _ \<Rightarrow> False),
     extract_json_string_array = (\<lambda>j k. case map_of j k of Some (VArr vs) \<Rightarrow> vs | _ \<Rightarrow> []),
     write_json_string_array = (\<lambda>k vs. [JString k, JStartArray] @ map JString vs @ [JEndArray])\<rparr>"

definition ref_contents :: "ref_world \<Rightarrow> contents" where
  "ref_contents w x = (case map_of (rw_data w) x of
     Some (d, c) \<Rightarrow> if c = 0 then None else Some (d, c) | None \<Rightarrow> None)"

definition next_cas :: "cas \<Rightarrow> cas" where
  "next_cas c = (if c + 1 = 0 then 1 else c + 1)"

definition ref_put :: "nat \<Rightarrow> string \<Rightarrow> string \<Rightarrow> string \<Rightarrow> ref_world \<Rightarrow> ref_world" where
  "ref_put n t k d w = w\<lparr>rw_data := ((n, t, k), (d, next_cas (rw_cas w))) # rw_data w,
     rw_cas := next_cas (rw_cas w)\<rparr>"

definition ref_store :: "nat \<Rightarrow> ref_world impu_store" where
  "ref_store n = \<lparr>s_id = n, s_store = \<lparr>
     get_data = (\<lambda>t k w. case ref_contents w (n, t, k) of
        None \<Rightarrow> ((NOT_FOUND, [], 0), w) | Some (d, c) \<Rightarrow> ((OK, d, c), w)),
     set_data = (\<lambda>t k d c e w. if cas_matches (ref_contents w (n, t, k)) c
        then (OK, ref_put n t k d w) else (DATA_CONTENTION, w)),
     set_data_without_cas = (\<lambda>t k d e w. (OK, ref_put n t k d w)),
     delete_data = (\<lambda>t k w. (OK, w\<lparr>rw_data := filter (\<lambda>p. fst p \<noteq> (n, t, k)) (rw_data w)\<rparr>))\<rparr>\<rparr>"

definition empty_world :: "int \<Rightarrow> ref_world" where
  "empty_world t = \<lparr>rw_data = [], rw_cas = 0, rw_time = t\<rparr>"

lemma next_cas_nonzero [simp]: "next_cas c \<noteq> 0"
  by (simp add: next_cas_def)

lemma ref_contents_put: "ref_contents (ref_put n t k d w) = (ref_contents w)((n, t, k) \<mapsto> (d, next_cas (rw_cas w)))"
  by (auto simp: ref_contents_def ref_put_def fun_eq_iff)

lemma map_of_filter_key: "map_of (filter (\<lambda>p. fst p \<noteq> x) xs) = (map_of xs)(x := None)"
  by (induction xs) auto

lemma stored_as_put: "stored_as ref_ext ref_contents (n, t, k) d w (ref_put n t k d w)"
proof -
  have "ref_contents (ref_put n t k d w) = (ref_contents w)((n, t, k) \<mapsto> (d, next_cas (rw_cas w)))"
    by (rule ref_contents_put)
  moreover have "clock ref_ext (ref_put n t k d w) = clock ref_ext w"
    by (simp add: clock_def ref_ext_def ref_put_def)
  ultimately show ?thesis
    unfolding stored_as_def using next_cas_nonzero by blast
qed

lemma ref_contents_delete:
  "ref_contents (w\<lparr>rw_data := filter (\<lambda>p. fst p \<noteq> x) (rw_data w)\<rparr>) = (ref_contents w)(x := None)"
  by (auto simp: ref_contents_def map_of_filter_key fun_eq_iff)

lemma ref_contents_nonzero: "ref_contents w x = Some (d, c) \<Longrightarrow> c \<noteq> 0"
  by (auto simp: ref_contents_def split: option.splits if_splits)

lemma ref_store_contract: "store_contract ref_ext ref_contents (ref_store n)"
proof -
  have clock: "clock ref_ext w = rw_time w" "time0 ref_ext w = (rw_time w, w)" for w
    by (simp_all add: clock_def ref_ext_def)
  show ?thesis
    unfolding store_contract_def
    using stored_as_put ref_contents_nonzero
    by (auto simp: ref_store_def same_view_def ref_contents_delete clock split: option.split)
qed

lemma write_member:
  "ref_write (member_events ref_ext m) = (case m of (k, v) \<Rightarrow> CHR ''s'' # enc_string k @ enc_value v)"
  by (cases m; cases "snd m") (auto simp: ref_ext_def ref_write_def o_def)

lemma write_object:
  "json_write ref_ext (object_events ref_ext ms) =
     CHR ''{'' # concat (map (\<lambda>(k, v). CHR ''s'' # enc_string k @ enc_value v) ms) @ ''}''"
proof -
  have "concat (map enc_event (concat (map (member_events ref_ext) ms))) =
      concat (map (\<lambda>m. ref_write (member_events ref_ext m)) ms)"
    by (induction ms) (simp_all add: ref_write_def)
  moreover have "json_write ref_ext = ref_write" by (simp add: ref_ext_def)
  ultimately show ?thesis
    by (simp add: object_events_def ref_write_def [of "_ # _"] write_member)
qed

lemma no_nul_enc: "no_nul s \<Longrightarrow> no_nul (enc_string s)"
  "jvalue_ok v \<Longrightarrow> no_nul (enc_value v)"
proof -
  have str: "no_nul s \<Longrightarrow> no_nul (enc_string s)" for s
    by (auto simp: no_nul_def enc_string_def)
  then show "no_nul s \<Longrightarrow> no_nul (enc_string s)" .
  show "jvalue_ok v \<Longrightarrow> no_nul (enc_value v)"
    using str by (cases v) (auto simp: no_nul_def enc_int_def list_all_iff)
qed

lemma length_members: "length ms \<le> length (concat (map (\<lambda>(k, v). CHR ''s'' # enc_string k @ enc_value v) ms))"
  by (induction ms) auto

lemma ref_json_contract: "json_contract ref_ext"
  unfolding json_contract_def
proof (intro allI impI conjI)
  fix ms :: "(string \<times> jvalue) list"
  assume ok: "members_ok ms"
  let ?body = "concat (map (\<lambda>(k, v). CHR ''s'' # enc_string k @ enc_value v) ms)"
  have v: "(k, v) \<in> set ms \<Longrightarrow> no_nul k \<and> jvalue_ok v" for k v
    using ok by (auto simp: members_ok_def)
  have "no_nul ?body"
    using v no_nul_enc by (fastforce simp: no_nul_def)
  then show "no_nul (json_write ref_ext (object_events ref_ext ms))"
    by (simp add: write_object no_nul_def)
  show "json_write ref_ext (object_events ref_ext ms) \<noteq> []"
    by (simp add: write_object)
  have "length ms < length (?body @ ''}'')"
    using length_members [of ms] by simp
  from dec_members_events [OF this, of "[]"] v
  have "json_parse ref_ext (json_write ref_ext (object_events ref_ext ms)) = Some ms"
    unfolding write_object by (simp add: ref_ext_def ref_parse_def del: dec_members.simps)
  moreover have "json_reads ref_ext ms ms"
    by (auto simp: json_reads_def ref_ext_def map_of_eq_None_iff image_iff
        dest: weak_map_of_SomeI intro: rev_image_eqI)
  ultimately show "\<exists>j. json_parse ref_ext (json_write ref_ext (object_events ref_ext ms)) = Some j \<and>
      json_reads ref_ext ms j"
    by blast
qed

lemma ref_lz4_contract: "lz4_contract ref_ext"
  by (auto simp: lz4_contract_def ref_ext_def)

lemma ref_good: "ims_good (ref_ext, ref_contents) (ref_store n)"
  by (simp add: ims_good_def codec_contract_def ref_json_contract ref_lz4_contract ref_store_contract)

section \<open>Records that fit the environment\<close>

lemma length_enc_string: "length (enc_string s) = 2 * length s + 1"
  by (induction s) (simp_all add: enc_string_def)

lemmas ref_lengths = length_enc_string length_enc_int

lemma ref_compress: "text \<noteq> [] \<Longrightarrow> length text \<le> 2048 \<Longrightarrow> compress_data_v0 ref_ext text = (int (length text), text)"
  unfolding compress_data_v0_def
  by (subst compress_loop_pos) (auto simp: ref_ext_def split: if_splits)

lemma ref_fits:
  assumes "storable i" and "length (json_text ref_ext i) \<le> 2048" and "0 < s64 (impu_expiry i - s32 t)"
  shows "ims_fits (ref_ext, V) t i"
proof -
  have c: "codec_contract ref_ext"
    by (simp add: codec_contract_def ref_json_contract ref_lz4_contract)
  have "fst (to_data ref_ext i) = OK"
    using json_text_facts(3) [OF c assms(1)]
    by (simp add: to_data_def json_text_facts(1) [OF c assms(1)] ref_compress [OF json_text_facts(3) [OF c assms(1)] assms(2)] Let_def)
  then show ?thesis using assms by (simp add: ims_fits_def)
qed


section \<open>XML documents\<close>

text \<open>
  A subscription whose text is the list of its public identities, separated by blanks, all of them
  unbarred and in one service profile. The empty text does not parse.
\<close>

datatype ref_node =
  RDoc "string list" | RSubscription "string list" | RProfile "string list" | RPublic string | RIdentity string

fun ref_words :: "string \<Rightarrow> string list" where
  "ref_words [] = [[]]"
| "ref_words (c # cs) =
     (if c = CHR '' '' then [] # ref_words cs
      else case ref_words cs of [] \<Rightarrow> [[c]] | w # ws \<Rightarrow> (c # w) # ws)"

fun ref_children :: "ref_node \<Rightarrow> regdata_name \<Rightarrow> ref_node list" where
  "ref_children (RDoc ids) n = (if n = IMS_SUBSCRIPTION then [RSubscription ids] else [])"
| "ref_children (RSubscription ids) n = (if n = SERVICE_PROFILE then [RProfile ids] else [])"
| "ref_children (RProfile ids) n = (if n = PUBLIC_IDENTITY then map RPublic ids else [])"
| "ref_children (RPublic i) n = (if n = IDENTITY then [RIdentity i] else [])"
| "ref_children (RIdentity i) n = []"

fun ref_value :: "ref_node \<Rightarrow> string" where
  "ref_value (RIdentity i) = i"
| "ref_value _ = ''''"

definition ref_xml :: "ref_node xml_api" where
  "ref_xml = \<lparr>
     xml_parse = (\<lambda>s. if s = '''' then None else Some (RDoc (ref_words s))),
     xml_children = ref_children,
     xml_value = ref_value,
     xml_extension_identity = (\<lambda>uri x. uri),
     xml_state_unbarred = ''0'',
     xml_print = (\<lambda>x. '''')\<rparr>"

lemma ref_listed_identity: "listed_identity ref_xml (RPublic i) = [(i, True)]"
  by (simp add: listed_identity_def ref_xml_def first_node_def)

lemma ref_listed:
  "listed_identities ref_xml s =
     (if c_str s = '''' then [] else map (\<lambda>i. (i, True)) (ref_words (c_str s)))"
proof -
  have "concat (map (listed_identity ref_xml) (map RPublic is)) = map (\<lambda>i. (i, True)) is" for "is"
    by (induction "is") (simp_all add: ref_listed_identity)
  then show ?thesis
    by (simp add: listed_identities_def ref_xml_def first_node_def)
qed

end
