(* ===== verification/Store_Properties.thy ===== *)
theory Store_Properties
  imports Cache_Consistency Reference_Env
begin

text \<open>
  The properties of the stored data: the encoded form of the records, the \<open>ImpuStore\<close> operations
  and the cache's put, get and delete on a store that nobody else writes to meanwhile, each with a
  run in the concrete environment.
\<close>

section \<open>Sample data\<close>

definition sample_irs :: mirs where
  "sample_irs = (new_mirs 300 REGISTERED)\<lparr>m_default_impu := ''sip:a'', m_ims_sub_xml := ''xml'',
     m_associated_impus := [(''sip:b'', ADDED)], m_impis := [(''i1'', ADDED)]\<rparr>"

definition sample_assoc :: Impu where
  "sample_assoc = AssociatedImpu \<lparr>i_impu = ''sip:b'', i_cas = 0, i_expiry = 400, i_store = Some 2,
     a_default_impu = ''sip:a''\<rparr>"

lemma sample_record_eq:
  "irs_record 100 sample_irs 0 None = \<lparr>i_impu = ''sip:a'', i_cas = 0, i_expiry = 400, i_store = None,
     d_registration_state = REGISTERED, d_charging_addresses = no_charging,
     d_associated_impus = [''sip:b''], d_impis = [''i1''], d_service_profile = ''xml''\<rparr>"
  by (simp add: irs_record_def create_impu_def sample_irs_def new_mirs_def get_associated_impis_def
      get_associated_impus_def present_elements_def s32_def)

lemma sample_default_fits: "ims_fits (ref_ext, V) 100 (DefaultImpu (irs_record 100 sample_irs 0 None))"
  by (rule ref_fits)
    (simp_all add: sample_record_eq storable_def no_nul_def no_charging_def s64_def s32_def json_text_def
      write_object ref_lengths json_names)

lemma sample_assoc_eq: "assoc_record 100 sample_irs 2 ''sip:b'' =
    \<lparr>i_impu = ''sip:b'', i_cas = 0, i_expiry = 400, i_store = Some 2, a_default_impu = ''sip:a''\<rparr>"
  by (simp add: assoc_record_def sample_irs_def new_mirs_def s64_def)

lemma sample_assoc_fits: "ims_fits (ref_ext, V) 100 sample_assoc"
  by (rule ref_fits)
    (simp_all add: sample_assoc_def storable_def no_nul_def s64_def s32_def json_text_def
      write_object ref_lengths json_names)

section \<open>Stored records\<close>

text \<open>
  C19: what \<open>Impu::to_data\<close> writes, \<open>Impu::from_data\<close> reads back: the same record with the CAS value
  and the store of the read. Every registration state but \<open>REGISTERED\<close> comes back as
  \<open>UNREGISTERED\<close>.
\<close>

theorem impu_roundtrip:
  assumes "codec_contract E" and "storable i" and "length (json_text E i) < 2147483647"
    and "to_data E i = (OK, data)"
  shows "from_data E (impu_key i) data c st = Some (stored_view c st i)"
  using assms by (rule from_data_to_data)

theorem impu_roundtrip_witness:
  "from_data ref_ext ''sip:b'' (snd (to_data ref_ext sample_assoc)) 5 (Some 2) =
    Some (stored_view 5 (Some 2) sample_assoc)"
proof -
  have f: "storable sample_assoc" "length (json_text ref_ext sample_assoc) < 2147483647"
    "to_data ref_ext sample_assoc = (OK, snd (to_data ref_ext sample_assoc))"
    using sample_assoc_fits unfolding ims_fits_def by (simp_all add: prod_eq_iff)
  have "codec_contract ref_ext"
    by (simp add: codec_contract_def ref_json_contract ref_lz4_contract)
  from impu_roundtrip [OF this f] show ?thesis
    by (simp add: sample_assoc_def)
qed

text \<open>
  C36: \<open>Impu::to_data\<close> fails exactly when LZ4 cannot compress the JSON text into any buffer of 2 KB,
  4 KB and so on up to 128 KB; otherwise it uses the smallest of these buffers that suffices.
\<close>

theorem to_data_fails_iff:
  assumes "codec_contract E" and "storable i"
  shows "(fst (to_data E i) = ERROR \<longleftrightarrow>
      (\<forall>n \<in> set buffer_sizes. fst (lz4_compress E dict_v0 (json_text E i) n) = 0)) \<and>
    (fst (to_data E i) \<noteq> ERROR \<longrightarrow> fst (to_data E i) = OK)"
proof -
  have "compress_data_v0 E (json_text E i) = lz4_compress E dict_v0 (json_text E i)
      (case find (\<lambda>n. fst (lz4_compress E dict_v0 (json_text E i) n) \<noteq> 0) buffer_sizes of
         Some n \<Rightarrow> n | None \<Rightarrow> 131072)"
    by (rule compress_data_v0_eq)
  moreover have "131072 \<in> set buffer_sizes" by (simp add: buffer_sizes_def)
  ultimately show ?thesis
    using json_text_facts(1) [OF assms]
    by (auto simp: to_data_def case_prod_unfold Let_def find_Some_iff find_None_iff split: option.splits)
qed

theorem to_data_fails_iff_witness: "fst (to_data ref_ext sample_assoc) = OK"
proof -
  have "storable sample_assoc" "length (json_text ref_ext sample_assoc) \<le> 2048" "json_text ref_ext sample_assoc \<noteq> []"
    by (simp_all add: sample_assoc_def storable_def no_nul_def json_text_def write_object ref_lengths json_names)
  moreover from this have "fst (lz4_compress ref_ext dict_v0 (json_text ref_ext sample_assoc) 2048) \<noteq> 0"
    by (simp add: ref_ext_def)
  moreover have "codec_contract ref_ext"
    by (simp add: codec_contract_def ref_json_contract ref_lz4_contract)
  ultimately show ?thesis
    using to_data_fails_iff [of ref_ext sample_assoc] by (auto simp: buffer_sizes_def)
qed

section \<open>The store operations\<close>

text \<open>
  C21: \<open>ImpuStore::set_impu\<close> is a compare-and-swap. When the entry still has the CAS value of the record
  (or is absent and the value is zero) the write succeeds, \<open>get_impu\<close> then returns the record, and
  no other entry of any store changes; otherwise it reports \<open>DATA_CONTENTION\<close> and changes nothing.
\<close>

theorem set_impu_cas:
  assumes "ims_good (E, V) S" and "ims_fits (E, V) (clock E w) i"
    and "fst (fst (get_impu E S (impu_key i) w)) \<noteq> ERROR"
    and "set_impu E S i w = (status, w')"
  shows "if impu_cas_ok (ims_view (E, V) w) (s_id S) (impu_key i) (impu_cas i)
    then status = OK \<and>
      (\<exists>c. c \<noteq> 0 \<and> fst (get_impu E S (impu_key i) w') = (OK, Some (stored_view c (Some (s_id S)) i)) \<and>
        ims_view (E, V) w' = put_impu (s_id S) c i (ims_view (E, V) w))
    else status = DATA_CONTENTION \<and> ims_view (E, V) w' = ims_view (E, V) w"
proof -
  have "fst (r_impu (ims_view (E, V) w) (s_id S) (impu_key i)) \<noteq> ERROR"
    using assms(3) read_law(1) [OF assms(1)] by simp
  moreover have "ims_fits (E, V) (r_now (ims_view (E, V) w)) i"
    using assms(2) by (simp add: ims_view_def)
  ultimately show ?thesis
    using ims.set_impu_law [of "(E, V)" S w i] assms(1,4) read_law(1) [OF assms(1), of "impu_key i" w']
    by (auto simp: impu_store_ops_def read_put_impu) blast
qed

theorem set_impu_cas_witness:
  "fst (set_impu ref_ext (ref_store 2) sample_assoc (empty_world 100)) = OK"
proof -
  have "fst (fst (get_impu ref_ext (ref_store 2) (impu_key sample_assoc) (empty_world 100))) \<noteq> ERROR"
    by (simp add: get_impu_def ref_store_def ref_contents_def empty_world_def)
  moreover have "ims_fits (ref_ext, ref_contents) (clock ref_ext (empty_world 100)) sample_assoc"
    using sample_assoc_fits by (simp add: clock_def ref_ext_def empty_world_def)
  moreover have "impu_cas_ok (ims_view (ref_ext, ref_contents) (empty_world 100)) 2 ''sip:b'' 0"
    by (simp add: impu_cas_ok_def ims_view_def read_impu_def ref_contents_def empty_world_def)
  ultimately show ?thesis
    using set_impu_cas [OF ref_good _ _ prod.collapse [symmetric], of "empty_world 100" sample_assoc 2]
    by (simp add: sample_assoc_def ref_store_def)
qed

section \<open>Putting, getting and deleting a registration set\<close>

text \<open>
  The sample set fits an empty store; it is new, so nothing is merged into it.
\<close>

lemma sample_view: "ims_view (ref_ext, ref_contents) (empty_world 100) =
    \<lparr>r_impu = \<lambda>n k. (NOT_FOUND, None), r_map = \<lambda>n k. (NOT_FOUND, None), r_now = 100\<rparr>"
  by (simp add: ims_view_def read_impu_def read_mapping_def ref_contents_def empty_world_def clock_def
      ref_ext_def fun_eq_iff)

lemma sample_writable:
  "irs_writable (ims_fits (ref_ext, ref_contents) 100) (ims_fits_mapping (ref_ext, ref_contents) 100) 2
     (ims_view (ref_ext, ref_contents) (empty_world 100)) sample_irs"
proof -
  have "written_impus sample_irs = [''sip:b'']" "mirs_ok sample_irs" "m_impis sample_irs = [(''i1'', ADDED)]"
    "m_default_impu sample_irs = ''sip:a''" "m_ttl sample_irs = 300"
    by (simp_all add: written_impus_def impus_in_def get_elements_in_state_def sample_irs_def new_mirs_def
        mirs_ok_def)
  then show ?thesis
    using sample_default_fits sample_assoc_fits
    by (auto simp: irs_writable_def sample_view sample_assoc_eq sample_assoc_def mapping_writable_def
        ims_fits_mapping_def storable_mapping_def mapping_members_def new_ImpiMapping_def no_nul_def
        s32_def s64_def)
qed

text \<open>
  When a put goes through without help from other writers: the store and the libraries behave as
  documented, the entry of the default IMPU can be read (and is not an associated IMPU unless the set
  is refreshed), a set that is new is registered or its default IMPU has no record yet, and the records
  written fit the store. \<open>irs'\<close> is the set after the merge.
\<close>

definition put_accepts ::
  "('w, 'j) ext \<Rightarrow> ('w \<Rightarrow> contents) \<Rightarrow> 'w impu_store \<Rightarrow> 'w \<Rightarrow> mirs \<Rightarrow> mirs \<Rightarrow> bool" where
  "put_accepts E V S w irs irs' \<longleftrightarrow>
     (let v = ims_view (E, V) w; entry = r_impu v (s_id S) (m_default_impu irs)
      in ims_good (E, V) S \<and> fst entry \<noteq> ERROR \<and>
         (\<forall>a. snd entry = Some (AssociatedImpu a) \<longrightarrow> m_refreshed irs) \<and>
         ims_fits (E, V) (r_now v) (DefaultImpu (irs_record (r_now v) irs 0 None)) \<and>
         (\<not> m_existing irs \<longrightarrow> m_registration_state irs = REGISTERED \<or> fst entry = NOT_FOUND) \<and>
         irs' = (if m_existing irs then resolved v (s_id S) irs else irs) \<and>
         irs_writable (ims_fits (E, V) (r_now v)) (ims_fits_mapping (E, V) (r_now v)) (s_id S) v irs')"

lemma put_accepts_put:
  assumes "put_accepts E V S w irs irs'"
  shows "\<exists>w'. put_irs_action (time0 E) (impu_store_ops E S) irs w = Some (OK, irs', w') \<and>
    irs_stored irs' (s_id S) (ims_view (E, V) w) (ims_view (E, V) w')"
  using ims.put_irs_action_quiet [of "(E, V)" S w irs irs'] assms
  by (auto simp: impu_store_ops_def put_accepts_def Let_def)

lemma sample_put_accepts: "put_accepts ref_ext ref_contents (ref_store 2) (empty_world 100) sample_irs sample_irs"
proof -
  have "\<not> m_existing sample_irs" "m_registration_state sample_irs = REGISTERED" "s_id (ref_store 2) = 2"
    by (simp_all add: sample_irs_def new_mirs_def ref_store_def)
  then show ?thesis
    using sample_writable sample_default_fits ref_good by (simp add: put_accepts_def sample_view)
qed

text \<open>
  C4: \<open>put_irs_action\<close> on a store nobody else writes to ends and reports success, and leaves the three
  tables of the store consistent with the registration set (after merging, for an existing set that
  is out of date): the default IMPU holds the set's record, the associated IMPUs written point to
  it, associated IMPUs marked deleted no longer do, every IMPI added or refreshed maps to it and
  every deleted one does not, and nothing else changed in any store.
\<close>

theorem put_irs_consistent:
  assumes "put_accepts E V S w irs irs'"
  shows "\<exists>w'. put_irs_action (time0 E) (impu_store_ops E S) irs w = Some (OK, irs', w') \<and>
    irs_stored irs' (s_id S) (ims_view (E, V) w) (ims_view (E, V) w')"
  using assms by (rule put_accepts_put)

theorem put_irs_consistent_witness:
  "\<exists>w'. put_irs_action (time0 ref_ext) (impu_store_ops ref_ext (ref_store 2)) sample_irs (empty_world 100) =
      Some (OK, sample_irs, w') \<and>
    irs_stored sample_irs (s_id (ref_store 2)) (ims_view (ref_ext, ref_contents) (empty_world 100))
      (ims_view (ref_ext, ref_contents) w')"
  by (rule put_irs_consistent [OF sample_put_accepts])

lemma present_sorted: "omap_ok m \<Longrightarrow> sorted_list_of_set (set (present_elements m)) = present_elements m"
  by (rule sorted_list_unique) (simp_all add: sorted_present_elements)

lemma present_lists:
  assumes "mirs_ok irs"
  shows "sorted_list_of_set (set (get_associated_impis irs)) = get_associated_impis irs"
    and "sorted_list_of_set (set (get_associated_impus irs)) = get_associated_impus irs"
  using assms by (simp_all add: mirs_ok_def get_associated_impis_def get_associated_impus_def present_sorted)

lemma written_present: "mirs_ok irs \<Longrightarrow> set (written_impus irs) \<subseteq> set (get_associated_impus irs)"
  by (auto simp: mirs_ok_def written_impus_def impus_in_def get_associated_impus_def set_elements_in_state
      set_present_elements alive_def split: if_splits)

text \<open>The set that a lookup builds from a stored record of \<open>irs\<close>.\<close>

lemma irs_from_record:
  fixes t :: int
  assumes "mirs_ok irs"
    and "DefaultImpu d = stored_view c (Some n) (DefaultImpu (irs_record t irs 0 None))"
    and "irs' = fst (mirs_of_impu (\<lambda>w. (t, w)) d w)"
  shows "m_default_impu irs' = m_default_impu irs" and "get_associated_impis irs' = get_associated_impis irs"
    and "get_associated_impus irs' = get_associated_impus irs" and "m_ims_sub_xml irs' = m_ims_sub_xml irs"
    and "m_charging_addresses irs' = m_charging_addresses irs" and "m_ttl irs' = m_ttl irs"
    and "m_registration_state irs' = stored_state (m_registration_state irs)" and "m_existing irs'"
proof -
  have d: "d = (irs_record t irs 0 None)\<lparr>i_cas := c, i_store := Some n,
      d_registration_state := stored_state (m_registration_state irs)\<rparr>"
    using assms(2) by (simp add: irs_record_def create_impu_def Let_def)
  have ttl: "s32 (s32 (m_ttl irs + s32 t) - t) = m_ttl irs"
    using assms(1) by (simp add: s32_add_narrow s32_add_diff s32_id mirs_ok_def)
  show "m_default_impu irs' = m_default_impu irs" "get_associated_impis irs' = get_associated_impis irs"
    "get_associated_impus irs' = get_associated_impus irs" "m_ims_sub_xml irs' = m_ims_sub_xml irs"
    "m_charging_addresses irs' = m_charging_addresses irs" "m_ttl irs' = m_ttl irs"
    "m_registration_state irs' = stored_state (m_registration_state irs)" "m_existing irs'"
    unfolding assms(3) using ttl present_lists [OF assms(1)]
    by (simp_all add: of_impu_elements d irs_record_def create_impu_def)
qed

text \<open>The tables of site \<open>n\<close> as they are in the second view, all else as in the first.\<close>

definition graft :: "nat \<Rightarrow> repo_view \<Rightarrow> repo_view \<Rightarrow> repo_view" where
  "graft n v v' = \<lparr>r_impu = (r_impu v)(n := r_impu v' n), r_map = (r_map v)(n := r_map v' n), r_now = r_now v'\<rparr>"

definition same_site :: "nat \<Rightarrow> repo_view \<Rightarrow> repo_view \<Rightarrow> bool" where
  "same_site n v v' \<longleftrightarrow> r_impu v' n = r_impu v n \<and> r_map v' n = r_map v n \<and> r_now v' = r_now v"

lemma same_site_refl [simp, intro]: "same_site n v v"
  by (simp add: same_site_def)

lemma same_site_trans: "same_site n a b \<Longrightarrow> same_site n b c \<Longrightarrow> same_site n a c"
  by (simp add: same_site_def)

lemma irs_stored_graft:
  "irs_stored irs n v1 v2 \<Longrightarrow> same_site n v v1 \<Longrightarrow> same_site n v2 v' \<Longrightarrow> irs_stored irs n v (graft n v v')"
  unfolding irs_stored_def same_site_def by (simp add: graft_def links_to_def mapped_def)

lemma irs_stored_others: "irs_stored irs n v v' \<Longrightarrow> n' \<noteq> n \<Longrightarrow> same_site n' v v'"
  by (simp add: irs_stored_def same_site_def)

text \<open>A lookup returns a set with the contents of \<open>irs\<close>, with its state as it is stored.\<close>

definition finds_set :: "'w memcached_cache \<Rightarrow> string \<Rightarrow> 'w \<Rightarrow> mirs \<Rightarrow> bool" where
  "finds_set cache impu w irs \<longleftrightarrow>
     (case fst (get_implicit_registration_set_for_impu cache impu w) of
        (OK, Some found) \<Rightarrow>
          m_default_impu found = m_default_impu irs \<and>
          get_associated_impis found = get_associated_impis irs \<and>
          get_associated_impus found = get_associated_impus irs \<and>
          m_ims_sub_xml found = m_ims_sub_xml irs \<and> m_charging_addresses found = m_charging_addresses irs \<and>
          m_ttl found = m_ttl irs \<and> m_registration_state found = stored_state (m_registration_state irs) \<and>
          m_existing found
      | _ \<Rightarrow> False)"

text \<open>
  A lookup on a cache whose reads give what site \<open>n\<close> has, whichever store they come from.
\<close>

lemma found_by_gr:
  assumes good: "ims_good (E, V) S" and ok: "mirs_ok irs"
    and st: "irs_stored irs n v (graft n v (ims_view (E, V) w))" and clk: "c_clk cache = time0 E"
    and impu: "impu \<in> insert (m_default_impu irs) (set (written_impus irs))"
    and gr: "\<And>k w'. k \<in> {impu, m_default_impu irs} \<Longrightarrow> ims_view (E, V) w' = ims_view (E, V) w \<Longrightarrow>
      \<exists>w''. get_impu_for_impu_gr cache k w' = (r_impu (ims_view (E, V) w) n k, w'') \<and>
        ims_view (E, V) w'' = ims_view (E, V) w"
  shows "finds_set cache impu w irs"
proof -
  let ?v = "ims_view (E, V)" and ?t = "r_now (ims_view (E, V) w)"
  have now: "r_now v = ?t" using st by (simp add: irs_stored_def graft_def)
  obtain c where c: "r_impu (?v w) n (m_default_impu irs) =
      (OK, Some (stored_view c (Some n) (DefaultImpu (irs_record ?t irs 0 None))))"
    using st unfolding irs_stored_def now by (auto simp: graft_def)
  obtain d where d: "stored_view c (Some n) (DefaultImpu (irs_record ?t irs 0 None)) = DefaultImpu d"
    by simp
  have time: "mirs_of_impu (c_clk cache) d w' = (fst (mirs_of_impu (\<lambda>w. (?t, w)) d w), snd (time0 E w'))" if "?v w' = ?v w" for w'
    using ims.time_law [OF good, of w'] that by (simp add: clk mirs_of_impu_def case_prod_unfold Let_def)
  obtain w1 where w1: "get_impu_for_impu_gr cache impu w = (r_impu (?v w) n impu, w1)" "?v w1 = ?v w"
    using gr [of impu w] by auto
  have "fst (get_implicit_registration_set_for_impu cache impu w) = (OK, Some (fst (mirs_of_impu (\<lambda>w. (?t, w)) d w)))"
  proof (cases "impu = m_default_impu irs")
    case True
    then show ?thesis
      using w1(1) c d time [OF w1(2)] by (simp add: get_implicit_registration_set_for_impu_def)
  next
    case False
    then have imp: "impu \<in> set (written_impus irs)" using impu by simp
    then obtain c' where a: "r_impu (?v w) n impu =
        (OK, Some (AssociatedImpu ((assoc_record ?t irs n impu)\<lparr>i_cas := c'\<rparr>)))"
      using st unfolding irs_stored_def now by (auto simp: graft_def)
    obtain w2 where w2: "get_impu_for_impu_gr cache (m_default_impu irs) w1 = (r_impu (?v w) n (m_default_impu irs), w2)"
      "?v w2 = ?v w"
      using gr [of "m_default_impu irs" w1] w1(2) by auto
    have "impu \<in> set (d_associated_impus d)"
      using d imp written_present [OF ok] by (auto simp: irs_record_def create_impu_def)
    then show ?thesis
      using w1(1) w2(1) a c d time [OF w2(2)]
      by (simp add: get_implicit_registration_set_for_impu_def has_associated_impu_def assoc_record_def)
  qed
  then show ?thesis
    using irs_from_record [OF ok d [symmetric] refl, of w] by (simp add: finds_set_def)
qed

lemma gr_local_ok:
  assumes "ims_good (E, V) S" and "c_local cache = impu_store_ops E S"
    and "fst (r_impu (ims_view (E, V) w) (s_id S) k) = OK" 
  shows "\<exists>w'. get_impu_for_impu_gr cache k w = (r_impu (ims_view (E, V) w) (s_id S) k, w') \<and>
    ims_view (E, V) w' = ims_view (E, V) w"
proof -
  obtain st x w' where g: "get_impu E S k w = ((st, x), w')" by (metis surj_pair)
  moreover have "r_impu (ims_view (E, V) w) (s_id S) k = (st, x)" "ims_view (E, V) w' = ims_view (E, V) w"
    using read_law(1,2) [OF assms(1), of k w] g by simp_all
  ultimately show ?thesis
    using assms(2,3) by (simp add: get_impu_for_impu_gr_def impu_store_ops_def)
qed

lemma stored_statuses:
  assumes "irs_stored irs n v (graft n v v')" and "k \<in> insert (m_default_impu irs) (set (written_impus irs))"
  shows "fst (r_impu v' n k) = OK"
  using assms unfolding irs_stored_def graft_def by (cases "k = m_default_impu irs") fastforce+

lemma stored_found:
  assumes good: "ims_good (E, V) S" and ok: "mirs_ok irs"
    and st: "irs_stored irs (s_id S) v (graft (s_id S) v (ims_view (E, V) w))"
    and cache: "c_local cache = impu_store_ops E S" "c_clk cache = time0 E"
    and impu: "impu \<in> insert (m_default_impu irs) (set (written_impus irs))"
  shows "finds_set cache impu w irs"
proof (rule found_by_gr [OF good ok st cache(2) impu])
  fix k w'
  assume k: "k \<in> {impu, m_default_impu irs}" and same: "ims_view (E, V) w' = ims_view (E, V) w"
  have "fst (r_impu (ims_view (E, V) w) (s_id S) k) = OK"
    using stored_statuses [OF st] k impu by blast
  then show "\<exists>w''. get_impu_for_impu_gr cache k w' = (r_impu (ims_view (E, V) w) (s_id S) k, w'') \<and>
      ims_view (E, V) w'' = ims_view (E, V) w"
    using gr_local_ok [OF good cache(1), of w' k] same by simp
qed

lemma put_found:
  assumes "put_accepts E V S w irs irs'"
    and "c_local cache = impu_store_ops E S" and "c_clk cache = time0 E"
    and "impu \<in> insert (m_default_impu irs') (set (written_impus irs'))"
  shows "\<exists>w1 irs2 w2. put_irs_action (c_clk cache) (c_local cache) irs w = Some (OK, irs', w1) \<and>
    get_implicit_registration_set_for_impu cache impu w1 = ((OK, Some irs2), w2) \<and>
    m_default_impu irs2 = m_default_impu irs' \<and>
    get_associated_impis irs2 = get_associated_impis irs' \<and>
    get_associated_impus irs2 = get_associated_impus irs' \<and>
    m_ims_sub_xml irs2 = m_ims_sub_xml irs' \<and> m_charging_addresses irs2 = m_charging_addresses irs' \<and>
    m_ttl irs2 = m_ttl irs' \<and> m_registration_state irs2 = stored_state (m_registration_state irs') \<and>
    m_existing irs2"
proof -
  obtain w1 where put: "put_irs_action (time0 E) (impu_store_ops E S) irs w = Some (OK, irs', w1)"
    and st: "irs_stored irs' (s_id S) (ims_view (E, V) w) (ims_view (E, V) w1)"
    using put_accepts_put [OF assms(1)] by blast
  have good: "ims_good (E, V) S" and ok: "mirs_ok irs'"
    using assms(1) unfolding put_accepts_def irs_writable_def Let_def by blast+
  have "finds_set cache impu w1 irs'"
    using stored_found [OF good ok irs_stored_graft [OF st]] assms(2-4) by blast
  then show ?thesis
    using put assms(2,3) unfolding finds_set_def
    by (cases "get_implicit_registration_set_for_impu cache impu w1") (auto split: prod.splits status.splits option.splits)
qed

text \<open>
  C5: what a put stores, a get finds. After \<open>put_irs_action\<close> on the local store, a lookup by the
  default IMPU or by any associated IMPU written returns the same registration set: same default
  IMPU, IMPIs, associated IMPUs, service profile, charging addresses and remaining lifetime, and the
  registration state as stored.
\<close>

theorem put_then_get:
  assumes "put_accepts E V S w irs irs'"
    and "c_local cache = impu_store_ops E S" and "c_clk cache = time0 E"
    and "impu \<in> insert (m_default_impu irs') (set (written_impus irs'))"
  shows "\<exists>w1 irs2 w2. put_irs_action (c_clk cache) (c_local cache) irs w = Some (OK, irs', w1) \<and>
    get_implicit_registration_set_for_impu cache impu w1 = ((OK, Some irs2), w2) \<and>
    m_default_impu irs2 = m_default_impu irs' \<and>
    get_associated_impis irs2 = get_associated_impis irs' \<and>
    get_associated_impus irs2 = get_associated_impus irs' \<and>
    m_ims_sub_xml irs2 = m_ims_sub_xml irs' \<and> m_charging_addresses irs2 = m_charging_addresses irs' \<and>
    m_ttl irs2 = m_ttl irs' \<and> m_registration_state irs2 = stored_state (m_registration_state irs') \<and>
    m_existing irs2"
  using assms by (rule put_found)

definition sample_cache :: "ref_world memcached_cache" where
  "sample_cache = \<lparr>c_clk = time0 ref_ext, c_local = impu_store_ops ref_ext (ref_store 2), c_remotes = []\<rparr>"

theorem put_then_get_witness:
  "\<exists>w1 irs2 w2. put_irs_action (c_clk sample_cache) (c_local sample_cache) sample_irs (empty_world 100) =
      Some (OK, sample_irs, w1) \<and>
    get_implicit_registration_set_for_impu sample_cache ''sip:b'' w1 = ((OK, Some irs2), w2) \<and>
    m_default_impu irs2 = ''sip:a''"
proof -
  have "''sip:b'' \<in> set (written_impus sample_irs)" "m_default_impu sample_irs = ''sip:a''"
    by (simp_all add: written_impus_def impus_in_def get_elements_in_state_def sample_irs_def new_mirs_def)
  then show ?thesis
    using put_then_get [OF sample_put_accepts, of sample_cache "''sip:b''"]
    by (auto simp: sample_cache_def)
qed

text \<open>
  C6: \<open>delete_irs_action\<close> on a store nobody else writes to ends and reports success; afterwards the
  default IMPU has no record, no associated IMPU the set tracks points to it, no IMPI it tracks maps to
  it, and nothing else changed. A set that was not read from this store first takes over the
  associated IMPUs and IMPIs the store has for it.
\<close>

theorem delete_irs_consistent:
  assumes "ims_good (E, V) S" and "mirs_ok irs"
    and "fst (r_impu (ims_view (E, V) w) (s_id S) (m_default_impu irs)) \<noteq> ERROR"
    and "irs1 = delete_target (ims_view (E, V) w) (s_id S) irs"
    and "\<forall>impi. map_of (m_impis irs1) impi \<noteq> None \<longrightarrow>
      mapping_writable (ims_fits_mapping (E, V) (clock E w)) (clock E w) irs1 impi
        (r_map (ims_view (E, V) w) (s_id S) impi)"
  shows "\<exists>w'. delete_irs_action (time0 E) (impu_store_ops E S) irs w =
      Some (OK, delete_impis (delete_assoc_impus irs1), w') \<and>
    irs_removed irs1 (s_id S) (ims_view (E, V) w) (ims_view (E, V) w')"
proof -
  have "r_now (ims_view (E, V) w) = clock E w" by (simp add: ims_view_def)
  then show ?thesis
    using ims.delete_irs_action_quiet [of "(E, V)" S w irs irs1] assms by (simp add: impu_store_ops_def)
qed

lemma sample_delete_target:
  "delete_target (ims_view (ref_ext, ref_contents) (empty_world 100)) 2 sample_irs = sample_irs"
  by (simp add: delete_target_def sample_view sample_irs_def new_mirs_def mark_as_refreshed_def)

theorem delete_irs_consistent_witness:
  "\<exists>w'. delete_irs_action (time0 ref_ext) (impu_store_ops ref_ext (ref_store 2)) sample_irs (empty_world 100) =
      Some (OK, delete_impis (delete_assoc_impus sample_irs), w') \<and>
    irs_removed sample_irs (s_id (ref_store 2)) (ims_view (ref_ext, ref_contents) (empty_world 100))
      (ims_view (ref_ext, ref_contents) w')"
proof -
  have id: "s_id (ref_store 2) = 2" and now: "clock ref_ext (empty_world 100) = 100"
    by (simp_all add: ref_store_def clock_def ref_ext_def empty_world_def)
  have w: "mirs_ok sample_irs" "map_of (m_impis sample_irs) impi \<noteq> None \<Longrightarrow>
      mapping_writable (ims_fits_mapping (ref_ext, ref_contents) 100) 100 sample_irs impi (NOT_FOUND, None)" for impi
    using sample_writable by (simp_all add: irs_writable_def sample_view)
  show ?thesis
    by (rule delete_irs_consistent [OF ref_good]) (use w in \<open>simp_all add: id now sample_view sample_delete_target [unfolded sample_view]\<close>)
qed

section \<open>Several sites\<close>

text \<open>
  An operation on all sites has the status of the local store, whatever the remote stores answer.
  The progress callback runs exactly when the local store succeeded, before any remote store is
  touched; on a failure no remote store is touched at all.
\<close>

theorem perform_local_decides:
  assumes "action (c_local cache) irs w = Some (status, irs1, w1)"
  shows "perform cache action progress_cb irs w =
    (if status = OK
     then map_option (\<lambda>(irs2, w2). (OK, irs2, w2)) (perform_remotes action (c_remotes cache) irs1 (progress_cb w1))
     else Some (status, irs1, w1))"
  using assms by (cases "perform_remotes action (c_remotes cache) irs1 (progress_cb w1)")
    (auto simp: perform_def)

theorem perform_local_decides_witness:
  "perform sample_cache (\<lambda>store irs w. Some (ERROR, irs, w)) (\<lambda>w. w) () (empty_world 100) =
    Some (ERROR, (), empty_world 100)"
  using perform_local_decides [of "\<lambda>store irs w. Some (ERROR, irs, w)" sample_cache "()" "empty_world 100"
      ERROR "()" "empty_world 100" "\<lambda>w. w"] by simp

lemma first_ok_acc: "fst acc = OK \<Longrightarrow> first_ok acc rs = acc"
  by (induction rs arbitrary: acc) auto

lemma first_ok_find:
  "fst acc \<noteq> OK \<Longrightarrow> first_ok acc rs =
     (case find (\<lambda>r. fst r = OK) rs of None \<Rightarrow> acc | Some r \<Rightarrow> r)"
  by (induction rs) (auto simp: first_ok_acc prod_eq_iff)

text \<open>
  A lookup of an IMPU over all sites reads the remote stores only when the local store reports
  \<open>NOT_FOUND\<close>. Then the result is that of the first remote store that has the IMPU, and \<open>NOT_FOUND\<close>
  when none has it, whatever errors the remote stores report.
\<close>

theorem get_impu_gr_spec:
  assumes "op_get_impu (c_local cache) impu w = ((status, data), w1)"
    and "read_remotes (c_remotes cache) impu w1 = (results, w2)"
  shows "get_impu_for_impu_gr cache impu w =
    (if status = NOT_FOUND
     then (case find (\<lambda>r. fst r = OK) results of Some r \<Rightarrow> r | None \<Rightarrow> (NOT_FOUND, data), w2)
     else ((status, data), w1))"
  using assms first_ok_find [of "(NOT_FOUND, data)" results]
  by (auto simp: get_impu_for_impu_gr_def split: option.split)

theorem get_impu_gr_spec_witness:
  "get_impu_for_impu_gr sample_cache ''sip:x'' (empty_world 100) = ((NOT_FOUND, None), empty_world 100)"
proof -
  have "op_get_impu (c_local sample_cache) ''sip:x'' (empty_world 100) = ((NOT_FOUND, None), empty_world 100)"
    by (simp add: sample_cache_def impu_store_ops_def get_impu_def ref_store_def ref_contents_def empty_world_def)
  moreover have "read_remotes (c_remotes sample_cache) ''sip:x'' (empty_world 100) = ([], empty_world 100)"
    by (simp add: sample_cache_def)
  ultimately show ?thesis using get_impu_gr_spec [of sample_cache] by simp
qed

section \<open>A retry loop that does not end\<close>

lemma remove_mapping_stuck:
  assumes gone: "\<And>w. gone w \<Longrightarrow> \<exists>w'. op_get_impi_mapping store impi w = ((NOT_FOUND, None), w') \<and> gone w'"
  shows "gone w \<Longrightarrow> remove_mapping_loop store default_impu impi DATA_CONTENTION w = None"
proof -
  let ?P = "\<lambda>st d k status w r. st = store \<longrightarrow> k = impi \<longrightarrow> status = DATA_CONTENTION \<longrightarrow> \<not> gone w"
  have "?P st d k status w r" if "remove_mapping_loop st d k status w = Some r" for st d k status w r
  proof (rule remove_mapping_loop.raw_induct [where P = ?P, OF _ that])
    fix loop st d k status w r
    assume IH: "\<And>st d k status w r. loop st d k status w = Some r \<Longrightarrow> ?P st d k status w r"
      and run: "(let ((inner_status, mapping), w1) = op_get_impi_mapping st k w;
          (status1, w2) = (case mapping of
             Some m \<Rightarrow> if inner_status = OK \<and> has_default_impu m d
               then let m' = remove_default_impu d m
                    in if mapping_is_empty m' then op_delete_impi_mapping st m' w1
                       else op_set_impi_mapping st m' w1
               else (status, w1)
           | None \<Rightarrow> (status, w1))
        in if status1 = DATA_CONTENTION then loop st d k status1 w2 else Some (status1, w2)) = Some r"
    show "?P st d k status w r"
    proof (intro impI notI)
      assume a: "st = store" "k = impi" "status = DATA_CONTENTION" "gone w"
      then obtain w' where "op_get_impi_mapping store impi w = ((NOT_FOUND, None), w')" "gone w'"
        using gone by blast
      then show False using run a IH [of store d impi DATA_CONTENTION w' r] by simp
    qed
  qed
  then show "gone w \<Longrightarrow> remove_mapping_loop store default_impu impi DATA_CONTENTION w = None"
    by (cases "remove_mapping_loop store default_impu impi DATA_CONTENTION w") blast+
qed

text \<open>
  C25: removing a deleted IMPI's mapping can retry for ever. When the write of the shortened mapping
  meets \<open>DATA_CONTENTION\<close> because another node removed the mapping, and it stays away, the next
  read finds nothing, the status keeps the value \<open>DATA_CONTENTION\<close>, and the loop has no result.
\<close>

theorem mapping_removal_never_ends:
  assumes "impis_in irs DELETED = impi # impis"
    and "op_get_impi_mapping store impi w = ((OK, Some m), w1)"
    and "has_default_impu m (m_default_impu irs)"
    and "\<not> mapping_is_empty (remove_default_impu (m_default_impu irs) m)"
    and "op_set_impi_mapping store (remove_default_impu (m_default_impu irs) m) w1 = (DATA_CONTENTION, w2)"
    and "gone w2"
    and "\<forall>w. gone w \<longrightarrow> (\<exists>w'. op_get_impi_mapping store impi w = ((NOT_FOUND, None), w') \<and> gone w')"
  shows "update_irs_impi_mappings clk store irs w = None"
proof -
  have "remove_mapping_loop store (m_default_impu irs) impi DATA_CONTENTION w2 = None"
    using assms(6,7) by (intro remove_mapping_stuck [where gone = gone]) blast+
  then have "remove_mapping_loop store (m_default_impu irs) impi OK w = None"
    using assms(2-5) by (subst remove_mapping_loop.simps) simp
  then show ?thesis
    using assms(1) by (simp add: update_irs_impi_mappings_def)
qed

text \<open>
  A store whose only entry another node deletes between the read and the write: the world says
  whether that has happened.
\<close>

definition racing_store :: "bool impu_ops" where
  "racing_store = \<lparr>op_id = 2, op_get_impu = (\<lambda>k w. ((NOT_FOUND, None), w)),
     op_set_impu_without_cas = (\<lambda>i w. (OK, w)), op_add_impu = (\<lambda>i w. (OK, w)),
     op_set_impu = (\<lambda>i w. (OK, w)), op_delete_impu = (\<lambda>i w. (OK, w)),
     op_get_impi_mapping = (\<lambda>k w. (if w then (NOT_FOUND, None) else
        (OK, Some \<lparr>p_impi = k, p_cas = 1, p_expiry = 400, p_default_impus = [''sip:a'', ''sip:z'']\<rparr>), w)),
     op_set_impi_mapping = (\<lambda>m w. (DATA_CONTENTION, True)),
     op_delete_impi_mapping = (\<lambda>m w. (OK, w))\<rparr>"

theorem mapping_removal_never_ends_witness:
  "update_irs_impi_mappings (\<lambda>w. (100, w)) racing_store (delete_impis sample_irs) False = None"
  by (rule mapping_removal_never_ends [where gone = id])
    (auto simp: impis_in_def get_elements_in_state_def delete_impis_def delete_tracked_def omap_map_def
      sample_irs_def new_mirs_def racing_store_def has_default_impu_def mapping_is_empty_def
      remove_default_impu_def)

end
