(* ===== verification/Contention.thy ===== *)
theory Contention
  imports Store_Properties
begin

text \<open>
  The cache's writes when other processes write to the same store. The retry loops of
  \<open>memcached_cache.cpp\<close> end when the others interfere a bounded number of times and remove no
  mapping meanwhile, and what the caller changed survives every merge. Two situations in which a loop
  does not end although nobody interferes any more are shown as well, and so is what two writers that
  started from the same record leave behind.
\<close>

section \<open>Bounded interference\<close>

text \<open>The clock is read between two operations of a store.\<close>

abbreviation ticks :: "'w clk \<Rightarrow> 'w \<Rightarrow> 'w \<Rightarrow> bool" where
  "ticks clk \<equiv> (\<lambda>w w'. w' = snd (clk w))\<^sup>*\<^sup>*"

text \<open>
  A write in world \<open>w2\<close> with the CAS value that a read in world \<open>w\<close> found, with nothing but the
  clock in between.
\<close>

definition read_for_impu :: "'w clk \<Rightarrow> 'w impu_ops \<Rightarrow> 'w \<Rightarrow> Impu \<Rightarrow> 'w \<Rightarrow> bool" where
  "read_for_impu clk store w i w2 \<longleftrightarrow>
     (let ((status, found), w1) = op_get_impu store (impu_key i) w
      in impu_cas i = (case found of None \<Rightarrow> 0 | Some f \<Rightarrow> impu_cas f) \<and> ticks clk w1 w2)"

definition read_for_mapping :: "'w clk \<Rightarrow> 'w impu_ops \<Rightarrow> 'w \<Rightarrow> impi_mapping \<Rightarrow> 'w \<Rightarrow> bool" where
  "read_for_mapping clk store w m w2 \<longleftrightarrow>
     (let ((status, found), w1) = op_get_impi_mapping store (p_impi m) w
      in p_cas m = (case found of None \<Rightarrow> 0 | Some f \<Rightarrow> p_cas f) \<and> ticks clk w1 w2)"

text \<open>
  Other processes interfere at most \<open>rank w\<close> times from world \<open>w\<close> on: a write whose CAS value was
  just read fails only when another process wrote in between, which lowers the rank. A mapping that made
  such a write fail, or a write with the value of an absent entry, is still there (nobody removes it), and
  a removal does not compare CAS values.
\<close>

definition bounded_interference :: "'w clk \<Rightarrow> 'w impu_ops \<Rightarrow> ('w \<Rightarrow> nat) \<Rightarrow> bool" where
  "bounded_interference clk store rank \<longleftrightarrow>
     (\<forall>w i w2. read_for_impu clk store w i w2 \<and> fst (op_set_impu store i w2) = DATA_CONTENTION \<longrightarrow>
        rank (snd (op_set_impu store i w2)) < rank w) \<and>
     (\<forall>w m w2. read_for_mapping clk store w m w2 \<and> fst (op_set_impi_mapping store m w2) = DATA_CONTENTION \<longrightarrow>
        rank (snd (op_set_impi_mapping store m w2)) < rank w) \<and>
     (\<forall>k w m. snd (fst (op_get_impi_mapping store k w)) = Some m \<longrightarrow>
        fst (fst (op_get_impi_mapping store k w)) = OK \<and> p_impi m = k) \<and>
     (\<forall>m w. (p_cas m = 0 \<or> (\<exists>w0. read_for_mapping clk store w0 m w)) \<and>
        fst (op_set_impi_mapping store m w) = DATA_CONTENTION \<longrightarrow>
        snd (fst (op_get_impi_mapping store (p_impi m) (snd (op_set_impi_mapping store m w)))) \<noteq> None) \<and>
     (\<forall>i w. fst (op_delete_impu store i w) \<noteq> DATA_CONTENTION)"

lemma bounded_interferenceD:
  assumes "bounded_interference clk store rank"
  shows "read_for_impu clk store w i w2 \<Longrightarrow> op_set_impu store i w2 = (DATA_CONTENTION, w3) \<Longrightarrow> rank w3 < rank w"
    and "read_for_mapping clk store w m w2 \<Longrightarrow> op_set_impi_mapping store m w2 = (DATA_CONTENTION, w3) \<Longrightarrow> rank w3 < rank w"
    and "op_get_impi_mapping store k w = ((st, Some m), w1) \<Longrightarrow> st = OK \<and> p_impi m = k"
    and "op_set_impi_mapping store m w = (DATA_CONTENTION, w1) \<Longrightarrow>
      p_cas m = 0 \<or> (\<exists>w0. read_for_mapping clk store w0 m w) \<Longrightarrow>
      \<exists>m' w2. op_get_impi_mapping store (p_impi m) w1 = ((OK, Some m'), w2) \<and> p_impi m' = p_impi m"
    and "op_delete_impu store i w \<noteq> (DATA_CONTENTION, w3)"
proof -
  note B = assms [unfolded bounded_interference_def]
  show "rank w3 < rank w" if "read_for_impu clk store w i w2" "op_set_impu store i w2 = (DATA_CONTENTION, w3)"
    using conjunct1 [OF B] that by (metis fst_conv snd_conv)
  show "rank w3 < rank w" if "read_for_mapping clk store w m w2" "op_set_impi_mapping store m w2 = (DATA_CONTENTION, w3)"
    using conjunct1 [OF conjunct2 [OF B]] that by (metis fst_conv snd_conv)
  show shape: "st = OK \<and> p_impi m = k" if "op_get_impi_mapping store k w = ((st, Some m), w1)" for st m k w w1
    using conjunct1 [OF conjunct2 [OF conjunct2 [OF B]]] that by (metis fst_conv snd_conv)
  show "\<exists>m' w2. op_get_impi_mapping store (p_impi m) w1 = ((OK, Some m'), w2) \<and> p_impi m' = p_impi m"
    if "op_set_impi_mapping store m w = (DATA_CONTENTION, w1)" "p_cas m = 0 \<or> (\<exists>w0. read_for_mapping clk store w0 m w)"
  proof -
    have "snd (fst (op_get_impi_mapping store (p_impi m) w1)) \<noteq> None"
      using conjunct1 [OF conjunct2 [OF conjunct2 [OF conjunct2 [OF B]]]] that by (metis fst_conv snd_conv)
    then show ?thesis
      using shape by (metis option.exhaust prod.collapse)
  qed
  show "op_delete_impu store i w \<noteq> (DATA_CONTENTION, w3)"
    using conjunct2 [OF conjunct2 [OF conjunct2 [OF conjunct2 [OF B]]]] by (metis fst_conv)
qed

section \<open>What a merge keeps\<close>

text \<open>What the caller did to a set is still in it.\<close>

definition keeps_changes :: "mirs \<Rightarrow> mirs \<Rightarrow> bool" where
  "keeps_changes irs irs' \<longleftrightarrow>
     m_default_impu irs' = m_default_impu irs \<and> m_refreshed irs' = m_refreshed irs \<and>
     (m_refreshed irs \<longrightarrow> m_ttl irs' = m_ttl irs) \<and>
     m_registration_state_set irs' = m_registration_state_set irs \<and>
     (m_registration_state_set irs \<longrightarrow> m_registration_state irs' = m_registration_state irs) \<and>
     m_ims_sub_xml_set irs' = m_ims_sub_xml_set irs \<and>
     (m_ims_sub_xml_set irs \<longrightarrow> m_ims_sub_xml irs' = m_ims_sub_xml irs) \<and>
     m_charging_addresses_set irs' = m_charging_addresses_set irs \<and>
     (m_charging_addresses_set irs \<longrightarrow> m_charging_addresses irs' = m_charging_addresses irs) \<and>
     (\<forall>k st. st \<noteq> UNCHANGED \<longrightarrow> map_of (m_impis irs) k = Some st \<longrightarrow> map_of (m_impis irs') k = Some st) \<and>
     (\<forall>k st. st \<noteq> UNCHANGED \<longrightarrow> map_of (m_associated_impus irs) k = Some st \<longrightarrow>
        map_of (m_associated_impus irs') k = Some st)"

lemma keeps_changes_refl [simp, intro]: "keeps_changes irs irs"
  by (simp add: keeps_changes_def)

lemma keeps_changes_trans: "keeps_changes a b \<Longrightarrow> keeps_changes b c \<Longrightarrow> keeps_changes a c"
  unfolding keeps_changes_def by simp

lemma update_flags:
  "m_registration_state_set (fst (update_from_impu_from_store clk d irs w)) = m_registration_state_set irs"
  "m_ims_sub_xml_set (fst (update_from_impu_from_store clk d irs w)) = m_ims_sub_xml_set irs"
  "m_charging_addresses_set (fst (update_from_impu_from_store clk d irs w)) = m_charging_addresses_set irs"
  by (simp_all add: update_from_impu_from_store_def Let_def split: prod.split)

lemma merged_keeps: "mirs_ok irs \<Longrightarrow> keeps_changes irs (merged t d irs) \<and> mirs_ok (merged t d irs)"
proof
  assume ok: "mirs_ok irs"
  then have o: "omap_ok (m_impis irs)" "omap_ok (m_associated_impus irs)" by (simp_all add: mirs_ok_def)
  note F = fold_emplace_deleted [OF o(2)]
  show "keeps_changes irs (merged t d irs)"
    using F by (auto simp: keeps_changes_def merged_def update_fields update_flags merge_data_sets_map [OF o(1)]
        merge_data_sets_map [OF o(2)])
  show "mirs_ok (merged t d irs)"
    unfolding merged_def by (rule mirs_ok_update [OF ok])
qed

section \<open>The loops end\<close>

lemma read_impu_set:
  assumes "op_get_impu store (m_default_impu irs) w = ((st, found), w1)" and "ticks clk w1 w2"
  shows "read_for_impu clk store w
    (DefaultImpu (irs_record t irs (case found of None \<Rightarrow> 0 | Some i \<Rightarrow> impu_cas i) s)) w2"
  using assms by (simp add: read_for_impu_def)

lemma ticks_1: "ticks clk w (snd (clk w))"
  by (rule r_into_rtranclp) simp

lemma ticks_2: "ticks clk w (snd (clk (snd (clk w))))"
  by (rule rtranclp_trans [OF ticks_1 ticks_1])

lemma impu_pass_progress:
  assumes B: "bounded_interference clk store rank" and "mirs_ok irs"
    and pass: "irs_impu_pass clk action store irs None w = (status, irs1, w3)"
  shows "keeps_changes irs irs1 \<and> mirs_ok irs1 \<and> (status = DATA_CONTENTION \<longrightarrow> rank w3 < rank w)"
proof -
  obtain st found w1 where g: "op_get_impu store (m_default_impu irs) w = ((st, found), w1)"
    by (metis surj_pair)
  define irs' where "irs' = (case found of Some (DefaultImpu d) \<Rightarrow> merged (fst (clk w1)) d irs | _ \<Rightarrow> irs)"
  have key: "m_default_impu irs' = m_default_impu irs"
    by (auto simp: irs'_def split: option.split Impu.split)
  have ok: "keeps_changes irs irs'" "mirs_ok irs'"
    using merged_keeps [OF assms(2)] assms(2) by (auto simp: irs'_def split: option.split Impu.split)
  have run: "rank w' < rank w"
    if "run_action action store (irs_record t irs' (case found of None \<Rightarrow> 0 | Some i \<Rightarrow> impu_cas i) s) w2 = (DATA_CONTENTION, w')"
      and "ticks clk w1 w2" for t s w2 w'
  proof (cases action)
    case SET_IMPU
    then show ?thesis
      using that bounded_interferenceD(1) [OF B read_impu_set [of store irs' w]] g key by simp
  next
    case DELETE_IMPU
    then show ?thesis using that bounded_interferenceD(5) [OF B] by simp
  qed
  note defs = irs_impu_pass_def g get_impu_of_def get_impu_from_impu_def create_impu_eq update_from_eq irs'_def
  show ?thesis
    using pass ok run ticks_1 [of clk w1] ticks_2 [of clk w1]
    by (auto simp: defs split: option.splits Impu.splits prod.splits if_splits)
qed

lemma impu_loop_ends:
  assumes "bounded_interference clk store rank"
  shows "mirs_ok irs \<Longrightarrow> \<exists>status irs1 w1. irs_impu_loop clk action store irs None w = Some (status, irs1, w1) \<and>
    keeps_changes irs irs1 \<and> mirs_ok irs1"
proof (induction "rank w" arbitrary: irs w rule: less_induct)
  case less
  obtain status irs1 w1 where p: "irs_impu_pass clk action store irs None w = (status, irs1, w1)"
    by (metis surj_pair)
  note P = impu_pass_progress [OF assms less.prems p]
  show ?case
  proof (cases "status = DATA_CONTENTION")
    case True
    then obtain st irs2 w2 where "irs_impu_loop clk action store irs1 None w1 = Some (st, irs2, w2)"
      "keeps_changes irs1 irs2" "mirs_ok irs2"
      using less.hyps [of w1 irs1] P by blast
    then show ?thesis
      using P True keeps_changes_trans by (subst irs_impu_loop.simps) (auto simp: p)
  next
    case False
    then show ?thesis
      using P by (subst irs_impu_loop.simps) (auto simp: p)
  qed
qed

lemma impu_action_ends:
  assumes "bounded_interference clk store rank" and "mirs_ok irs"
  shows "\<exists>status irs1 w1. perform_irs_impu_action clk action store irs w = Some (status, irs1, w1) \<and>
    keeps_changes irs irs1 \<and> mirs_ok irs1"
proof -
  obtain d w0 where d: "get_impu_for_store clk irs (op_id store) w = (d, w0)" by fastforce
  show ?thesis
  proof (cases d)
    case None
    then show ?thesis
      using impu_loop_ends [OF assms] d by (simp add: perform_irs_impu_action_def)
  next
    case (Some i)
    obtain status w1 where "run_action action store i w0 = (status, w1)" by fastforce
    then show ?thesis
      using impu_loop_ends [OF assms, of action w1] d Some assms(2)
      by (simp add: perform_irs_impu_action_def irs_impu_loop.simps [of _ _ _ _ "Some i"] irs_impu_pass_def)
  qed
qed

lemma refresh_mapping_ends:
  assumes "bounded_interference clk store rank"
  shows "\<exists>r. refresh_mapping_loop clk store d ttl impi w = Some r"
proof (induction "rank w" arbitrary: w rule: less_induct)
  case less
  obtain st found w1 where g: "op_get_impi_mapping store impi w = ((st, found), w1)" by (metis surj_pair)
  define x where "x = s32 (ttl + s32 (fst (clk w1)))"
  define m where "m = (case found of
      Some m \<Rightarrow> if \<not> has_default_impu (set_expiry x m) d then add_default_impu d (set_expiry x m) else set_expiry x m
    | None \<Rightarrow> new_ImpiMapping impi d x)"
  obtain status w3 where s: "op_set_impi_mapping store m (snd (clk w1)) = (status, w3)" by fastforce
  have shape: "found = Some m' \<Longrightarrow> st = OK \<and> p_impi m' = impi" for m'
    using bounded_interferenceD(3) [OF assms] g by blast
  have "read_for_mapping clk store w m (snd (clk w1))"
    using g shape ticks_1 [of clk w1]
    by (auto simp: read_for_mapping_def m_def mapping_ops split: option.splits)
  then have "status = DATA_CONTENTION \<Longrightarrow> rank w3 < rank w"
    using bounded_interferenceD(2) [OF assms] s by blast
  then have "status = DATA_CONTENTION \<Longrightarrow> \<exists>r. refresh_mapping_loop clk store d ttl impi w3 = Some r"
    using less.hyps by blast
  moreover have "refresh_mapping_loop clk store d ttl impi w =
      (if status = DATA_CONTENTION then refresh_mapping_loop clk store d ttl impi w3 else Some (status, w3))"
    using s shape unfolding m_def x_def
    by (subst refresh_mapping_loop.simps) (cases found; simp add: g case_prod_unfold Let_def)
  ultimately show ?case by auto
qed

text \<open>
  The loop for an added IMPI reads after a failed write: the record it then writes carries the CAS
  value that was read.
\<close>

lemma add_mapping_retry:
  assumes B: "bounded_interference clk store rank"
  shows "p_impi m = impi \<Longrightarrow> p_cas m = 0 \<or> (\<exists>w0. read_for_mapping clk store w0 m w) \<Longrightarrow>
    op_set_impi_mapping store m w = (DATA_CONTENTION, w1) \<Longrightarrow>
    \<exists>r. add_mapping_loop clk store d ttl refreshed impi m w = Some r"
proof (induction "rank w1" arbitrary: m w w1 rule: less_induct)
  case less
  obtain f w2 where g: "op_get_impi_mapping store impi w1 = ((OK, Some f), w2)" "p_impi f = impi"
    using bounded_interferenceD(4) [OF B less.prems(3,2)] less.prems(1) by blast
  define m1 where "m1 = set_expiry (s32 (ttl + s32 (fst (clk w2)))) f"
  define m2 where "m2 = (if \<not> has_default_impu m1 d then add_default_impu d m1 else m1)"
  have step: "add_mapping_loop clk store d ttl refreshed impi m w =
      (if has_default_impu m1 d \<and> \<not> refreshed then Some (OK, snd (clk w2))
       else add_mapping_loop clk store d ttl refreshed impi m2 (snd (clk w2)))"
    using less.prems g unfolding m2_def m1_def
    by (subst add_mapping_loop.simps) (simp add: case_prod_unfold Let_def)
  have key: "p_impi m2 = impi" and fresh: "read_for_mapping clk store w1 m2 (snd (clk w2))"
    using g ticks_1 [of clk w2] by (simp_all add: m2_def m1_def read_for_mapping_def mapping_ops)
  then have drop: "op_set_impi_mapping store m2 (snd (clk w2)) = (DATA_CONTENTION, w3) \<Longrightarrow> rank w3 < rank w1" for w3
    using bounded_interferenceD(2) [OF B fresh] by blast
  obtain status w3 where s: "op_set_impi_mapping store m2 (snd (clk w2)) = (status, w3)" by fastforce
  have "\<exists>r. add_mapping_loop clk store d ttl refreshed impi m2 (snd (clk w2)) = Some r"
  proof (cases "status = DATA_CONTENTION")
    case True
    then show ?thesis using less.hyps [of w3] key fresh s drop by blast
  next
    case False
    then show ?thesis by (subst add_mapping_loop.simps) (simp add: s)
  qed
  then show ?case by (simp add: step)
qed

lemma add_mapping_ends:
  assumes "bounded_interference clk store rank" and "p_impi m = impi" and "p_cas m = 0"
  shows "\<exists>r. add_mapping_loop clk store d ttl refreshed impi m w = Some r"
proof -
  obtain status w1 where s: "op_set_impi_mapping store m w = (status, w1)" by fastforce
  show ?thesis
  proof (cases "status = DATA_CONTENTION")
    case True
    then show ?thesis using add_mapping_retry [OF assms(1,2)] assms(3) s by simp
  next
    case False
    then show ?thesis by (subst add_mapping_loop.simps) (simp add: s)
  qed
qed

lemma remove_associated_ends:
  assumes "bounded_interference clk store rank" and "st \<noteq> DATA_CONTENTION"
  shows "\<exists>st' w'. remove_associated_loop store d a st w = Some (st', w') \<and> st' \<noteq> DATA_CONTENTION"
  using assms(2) bounded_interferenceD(5) [OF assms(1)]
  by (subst remove_associated_loop.simps)
    (auto split: prod.split option.split Impu.split)

lemma for_each_ends:
  assumes "\<And>x st w. x \<in> set xs \<Longrightarrow> P st \<Longrightarrow> \<exists>st' w'. f x st w = Some (st', w') \<and> P st'" and "P st"
  shows "\<exists>st' w'. for_each f xs st w = Some (st', w') \<and> P st'"
  using assms
proof (induction xs arbitrary: st w)
  case Nil
  then show ?case by simp
next
  case (Cons x xs)
  obtain st1 w1 where 1: "f x st w = Some (st1, w1)" "P st1"
    using Cons.prems(1) [of x st w] Cons.prems(2) by auto
  have "\<exists>st' w'. for_each f xs st1 w1 = Some (st', w') \<and> P st'"
    by (rule Cons.IH) (use Cons.prems(1) 1(2) in \<open>auto\<close>)
  with 1(1) show ?case by simp
qed

lemma for_each_total:
  assumes "\<And>x st w. \<exists>r. f x st w = Some r"
  shows "\<exists>st' w'. for_each f xs st w = Some (st', w')"
proof -
  have "\<exists>st' w'. f x st w = Some (st', w') \<and> True" for x st w
    using assms [of x st w] by auto
  from for_each_ends [where P = "\<lambda>_. True", OF this] show ?thesis by simp
qed

lemma update_associated_ends:
  assumes "bounded_interference clk store rank"
  shows "\<exists>st w'. update_irs_associated_impus clk store irs w = Some (st, w')"
proof -
  obtain st w1 where "for_each (remove_associated_loop store (m_default_impu irs)) (impus_in irs DELETED) OK w = Some (st, w1)"
    using for_each_ends [of "impus_in irs DELETED" "\<lambda>st. st \<noteq> DATA_CONTENTION"
        "remove_associated_loop store (m_default_impu irs)" OK w] remove_associated_ends [OF assms] by blast
  then show ?thesis by (simp add: update_irs_associated_impus_def Let_def)
qed

lemma update_mappings_ends:
  assumes B: "bounded_interference clk store rank" and "impis_in irs DELETED = []"
  shows "\<exists>st w'. update_irs_impi_mappings clk store irs w = Some (st, w')"
proof -
  let ?d = "m_default_impu irs"
  let ?refresh = "\<lambda>impi _ :: status. refresh_mapping_loop clk store ?d (m_ttl irs) impi"
  let ?add = "\<lambda>impi (_ :: status) w. let (t, w') = clk w; expiry = s64 (t + m_ttl irs)
      in add_mapping_loop clk store ?d (m_ttl irs) (m_refreshed irs) impi (new_ImpiMapping impi ?d expiry) w'"
  obtain st w1 where 1: "(if m_refreshed irs then for_each ?refresh (impis_in irs UNCHANGED) OK w
      else Some (OK, w)) = Some (st, w1)"
    using for_each_total [of ?refresh "impis_in irs UNCHANGED" OK w] refresh_mapping_ends [OF B]
    by (cases "m_refreshed irs") auto
  have "\<exists>r. ?add impi u w = Some r" for impi u w
    using add_mapping_ends [OF B, of "new_ImpiMapping impi ?d (s64 (fst (clk w) + m_ttl irs))" impi ?d "m_ttl irs"
        "m_refreshed irs" "snd (clk w)"]
    by (simp add: case_prod_unfold Let_def new_ImpiMapping_def)
  then obtain st' w' where "for_each ?add (impis_in irs ADDED) st w1 = Some (st', w')"
    using for_each_total [of ?add] by blast
  then show ?thesis
    using 1 assms(2) by (simp add: update_irs_impi_mappings_def)
qed


subsection \<open>A store with other writers\<close>

text \<open>
  A compare-and-swap store on which other processes write: after every operation made here the
  next of their writes is done, until there are none left. They may write any record, and remove none.
\<close>

datatype other_write = Write_impu Impu | Write_mapping impi_mapping

record shared_world =
  sw_impus :: "string \<rightharpoonup> cas \<times> Impu"
  sw_mappings :: "string \<rightharpoonup> cas \<times> impi_mapping"
  sw_next :: cas
  sw_others :: "other_write list"

definition write_impu :: "Impu \<Rightarrow> shared_world \<Rightarrow> shared_world" where
  "write_impu i w = w\<lparr>sw_impus := (sw_impus w)(impu_key i \<mapsto> (next_cas (sw_next w), i)), sw_next := next_cas (sw_next w)\<rparr>"

definition write_mapping :: "impi_mapping \<Rightarrow> shared_world \<Rightarrow> shared_world" where
  "write_mapping m w = w\<lparr>sw_mappings := (sw_mappings w)(p_impi m \<mapsto> (next_cas (sw_next w), m)), sw_next := next_cas (sw_next w)\<rparr>"

definition interfere :: "shared_world \<Rightarrow> shared_world" where
  "interfere w = (case sw_others w of
     [] \<Rightarrow> w
   | Write_impu i # others \<Rightarrow> write_impu i (w\<lparr>sw_others := others\<rparr>)
   | Write_mapping m # others \<Rightarrow> write_mapping m (w\<lparr>sw_others := others\<rparr>))"

definition entry_cas :: "(cas \<times> 'a) option \<Rightarrow> cas" where
  "entry_cas x = (case x of None \<Rightarrow> 0 | Some (c, r) \<Rightarrow> c)"

definition shared_store :: "shared_world impu_ops" where
  "shared_store = \<lparr>op_id = 2,
     op_get_impu = (\<lambda>k w. (case sw_impus w k of
        None \<Rightarrow> (NOT_FOUND, None) | Some (c, i) \<Rightarrow> (OK, Some (stored_view c (Some 2) i)), interfere w)),
     op_set_impu_without_cas = (\<lambda>i w. (OK, interfere (write_impu i w))),
     op_add_impu = (\<lambda>i w. if sw_impus w (impu_key i) = None then (OK, interfere (write_impu i w))
        else (DATA_CONTENTION, interfere w)),
     op_set_impu = (\<lambda>i w. if impu_cas i = entry_cas (sw_impus w (impu_key i)) then (OK, interfere (write_impu i w))
        else (DATA_CONTENTION, interfere w)),
     op_delete_impu = (\<lambda>i w. (OK, interfere (w\<lparr>sw_impus := (sw_impus w)(impu_key i := None)\<rparr>))),
     op_get_impi_mapping = (\<lambda>k w. (case sw_mappings w k of
        None \<Rightarrow> (NOT_FOUND, None) | Some (c, m) \<Rightarrow> (OK, Some (m\<lparr>p_impi := k, p_cas := c\<rparr>)), interfere w)),
     op_set_impi_mapping = (\<lambda>m w. if p_cas m = entry_cas (sw_mappings w (p_impi m)) then (OK, interfere (write_mapping m w))
        else (DATA_CONTENTION, interfere w)),
     op_delete_impi_mapping = (\<lambda>m w. (OK, interfere (w\<lparr>sw_mappings := (sw_mappings w)(p_impi m := None)\<rparr>)))\<rparr>"

lemma interfere_others: "length (sw_others (interfere w)) = length (sw_others w) - 1"
  by (simp add: interfere_def write_impu_def write_mapping_def split: list.split other_write.split)

lemma interfere_none: "sw_others w = [] \<Longrightarrow> interfere w = w"
  by (simp add: interfere_def)

lemma interfere_keeps: "sw_mappings w k \<noteq> None \<Longrightarrow> sw_mappings (interfere w) k \<noteq> None"
  by (auto simp: interfere_def write_impu_def write_mapping_def split: list.split other_write.split)

lemma shared_ops:
  "op_set_impu shared_store i w = (if impu_cas i = entry_cas (sw_impus w (impu_key i))
     then (OK, interfere (write_impu i w)) else (DATA_CONTENTION, interfere w))"
  "op_set_impi_mapping shared_store m w = (if p_cas m = entry_cas (sw_mappings w (p_impi m))
     then (OK, interfere (write_mapping m w)) else (DATA_CONTENTION, interfere w))"
  "op_get_impi_mapping shared_store k w = (case sw_mappings w k of
     None \<Rightarrow> (NOT_FOUND, None) | Some (c, m) \<Rightarrow> (OK, Some (m\<lparr>p_impi := k, p_cas := c\<rparr>)), interfere w)"
  "op_delete_impu shared_store i w = (OK, interfere (w\<lparr>sw_impus := (sw_impus w)(impu_key i := None)\<rparr>))"
  by (simp_all add: shared_store_def)

lemma impu_cas_stored: "impu_cas (stored_view c st i) = c"
  by (cases i) simp_all

lemma ticks_still: "ticks (\<lambda>w. (t, w)) w w' \<Longrightarrow> w' = w"
  by (induction rule: rtranclp_induct) simp_all

lemma shared_store_fresh:
  "read_for_impu (\<lambda>w. (t, w)) shared_store w i w2 \<longleftrightarrow>
     impu_cas i = entry_cas (sw_impus w (impu_key i)) \<and> w2 = interfere w"
  "read_for_mapping (\<lambda>w. (t, w)) shared_store w m w2 \<longleftrightarrow>
     p_cas m = entry_cas (sw_mappings w (p_impi m)) \<and> w2 = interfere w"
  using ticks_still [of t "interfere w" w2]
  by (auto simp: read_for_impu_def read_for_mapping_def shared_store_def entry_cas_def impu_cas_stored split: option.splits)

lemma shared_store_bounded: "bounded_interference (\<lambda>w. (t, w)) shared_store (\<lambda>w. length (sw_others w))"
proof -
  have busy: "sw_others w \<noteq> []" if "f (interfere w) \<noteq> f w" for f :: "shared_world \<Rightarrow> cas" and w
    using that interfere_none [of w] by auto
  have drop: "length (sw_others (interfere (interfere w))) < length (sw_others w)" if "sw_others w \<noteq> []" for w
    using that by (cases "sw_others w") (simp_all add: interfere_others)
  have there: "sw_mappings (interfere w) (p_impi m) \<noteq> None"
    if fresh: "p_cas m = 0 \<or> (\<exists>w0. read_for_mapping (\<lambda>w. (t, w)) shared_store w0 m w)"
      and stale: "p_cas m \<noteq> entry_cas (sw_mappings w (p_impi m))" for m w
  proof (rule interfere_keeps, rule notI)
    assume none: "sw_mappings w (p_impi m) = None"
    then obtain w0 where "w = interfere w0" "p_cas m = entry_cas (sw_mappings w0 (p_impi m))" "p_cas m \<noteq> 0"
      using fresh stale by (auto simp: shared_store_fresh entry_cas_def)
    then show False
      using interfere_keeps [of w0 "p_impi m"] none by (cases "sw_mappings w0 (p_impi m)") (auto simp: entry_cas_def)
  qed
  show ?thesis
    unfolding bounded_interference_def
  proof (intro conjI allI impI, goal_cases)
    case (1 w i w2)
    then have "sw_others w \<noteq> []" "w2 = interfere w"
      using busy [of "\<lambda>w. entry_cas (sw_impus w (impu_key i))" w] by (auto simp: shared_store_fresh shared_ops split: if_splits)
    then show ?case using 1 drop by (auto simp: shared_ops split: if_splits)
  next
    case (2 w m w2)
    then have "sw_others w \<noteq> []" "w2 = interfere w"
      using busy [of "\<lambda>w. entry_cas (sw_mappings w (p_impi m))" w] by (auto simp: shared_store_fresh shared_ops split: if_splits)
    then show ?case using 2 drop by (auto simp: shared_ops split: if_splits)
  next
    case (5 m w)
    then show ?case using there [of m w] by (auto simp: shared_ops split: option.split if_splits)
  qed (auto simp: shared_ops split: option.splits)
qed


section \<open>Retries that never end\<close>

lemma impu_loop_stuck:
  assumes bad: "\<And>w. bad w \<Longrightarrow> \<exists>w'. irs_impu_pass clk action store irs None w = (DATA_CONTENTION, irs, w') \<and> bad w'"
  shows "bad w \<Longrightarrow> irs_impu_loop clk action store irs None w = None"
proof -
  let ?P = "\<lambda>c a st i d w r. c = clk \<longrightarrow> a = action \<longrightarrow> st = store \<longrightarrow> i = irs \<longrightarrow> d = None \<longrightarrow> \<not> bad w"
  have "?P c a st i d w r" if "irs_impu_loop c a st i d w = Some r" for c a st i d w r
  proof (rule irs_impu_loop.raw_induct [where P = ?P, OF _ that])
    fix loop c a st i d w r
    assume IH: "\<And>c a st i d w r. loop c a st i d w = Some r \<Longrightarrow> ?P c a st i d w r"
      and run: "(let (status, irs1, w1) = irs_impu_pass c a st i d w
        in if status = DATA_CONTENTION then loop c a st irs1 None w1 else Some (status, irs1, w1)) = Some r"
    show "?P c a st i d w r"
    proof (intro impI notI)
      assume e: "c = clk" "a = action" "st = store" "i = irs" "d = None" "bad w"
      then obtain w' where "irs_impu_pass clk action store irs None w = (DATA_CONTENTION, irs, w')" "bad w'"
        using bad by blast
      then show False using run e IH [of clk action store irs None w' r] by simp
    qed
  qed
  then show "bad w \<Longrightarrow> irs_impu_loop clk action store irs None w = None"
    by (cases "irs_impu_loop clk action store irs None w") blast+
qed

lemma add_mapping_stuck:
  assumes gone: "\<And>w. gone w \<Longrightarrow> \<exists>w1 w2. op_set_impi_mapping store m w = (DATA_CONTENTION, w1) \<and>
      op_get_impi_mapping store impi w1 = ((NOT_FOUND, None), w2) \<and> gone w2"
  shows "gone w \<Longrightarrow> add_mapping_loop clk store d ttl refreshed impi m w = None"
proof -
  let ?P = "\<lambda>c st d' tt rf k m' w r. st = store \<longrightarrow> k = impi \<longrightarrow> m' = m \<longrightarrow> \<not> gone w"
  have "?P c st d' tt rf k m' w r" if "add_mapping_loop c st d' tt rf k m' w = Some r" for c st d' tt rf k m' w r
  proof (rule add_mapping_loop.raw_induct [where P = ?P, OF _ that], intro impI notI, goal_cases)
    case (1 loop c st d' tt rf k m' w r)
    then obtain w1 w2 where "op_set_impi_mapping store m w = (DATA_CONTENTION, w1)"
      "op_get_impi_mapping store impi w1 = ((NOT_FOUND, None), w2)" "gone w2"
      using gone by blast
    then show ?case using 1(2-) 1(1) [of c store d' tt rf impi m w2 r] by simp
  qed
  then show "gone w \<Longrightarrow> add_mapping_loop clk store d ttl refreshed impi m w = None"
    by (cases "add_mapping_loop clk store d ttl refreshed impi m w") blast+
qed

text \<open>A CAS write over an entry that exists but cannot be decoded, with the value for an absent one.\<close>

lemma set_undecodable:
  assumes good: "ims_good (E, V) S" and "fst (r_impu (ims_view (E, V) w) (s_id S) (impu_key i)) = ERROR"
    and fits: "ims_fits (E, V) (clock E w) i" and "impu_cas i = 0"
  shows "\<exists>w'. set_impu E S i w = (DATA_CONTENTION, w') \<and> ims_view (E, V) w' = ims_view (E, V) w"
proof -
  have S: "store_contract E V S" using good by (simp add: ims_good_def)
  note T = after_time [OF S, of w]
  let ?r = "set_data (s_store S) ''impu'' (impu_key i) (snd (to_data E i)) (impu_cas i)
    (s64 (impu_expiry i - s32 (fst (time0 E w)))) (snd (time0 E w))"
  obtain d c where d: "V w (s_id S, ''impu'', impu_key i) = Some (d, c)"
    using assms(2) by (auto simp: ims_view_def read_impu_def split: option.splits)
  have "\<not> cas_matches (V (snd (time0 E w)) (s_id S, ''impu'', impu_key i)) (impu_cas i)"
    using d store_contractD(9) [OF S d] assms(4) by (simp add: T cas_matches_def)
  moreover have "0 < s64 (impu_expiry i - s32 (fst (time0 E w)))"
    using fits T by (simp add: ims_fits_def)
  ultimately have "fst ?r = DATA_CONTENTION \<and> same_view E V (snd (time0 E w)) (snd ?r)"
    by (intro store_contractD(6) [OF S])
  moreover have "set_impu E S i w = ?r"
    using fits by (simp add: set_impu_def ims_fits_def case_prod_unfold Let_def)
  ultimately show ?thesis
    using view_frame [of E V w "snd ?r"] T by (auto simp: same_view_def prod_eq_iff)
qed

lemma undecodable_pass:
  assumes good: "ims_good (E, V) S"
    and bad: "fst (r_impu (ims_view (E, V) w) (s_id S) (m_default_impu irs)) = ERROR"
    and fits: "ims_fits (E, V) (clock E w) (DefaultImpu (irs_record (clock E w) irs 0 None))"
  shows "\<exists>w'. irs_impu_pass (time0 E) SET_IMPU (impu_store_ops E S) irs None w = (DATA_CONTENTION, irs, w') \<and>
    ims_view (E, V) w' = ims_view (E, V) w"
proof -
  have S: "store_contract E V S" using good by (simp add: ims_good_def)
  obtain st x w1 where g: "get_impu E S (m_default_impu irs) w = ((st, x), w1)" by (metis surj_pair)
  have r: "r_impu (ims_view (E, V) w) (s_id S) (m_default_impu irs) = (st, x)" "ims_view (E, V) w1 = ims_view (E, V) w"
    using read_law(1,2) [OF good, of "m_default_impu irs" w] g by simp_all
  then have x: "x = None"
    using bad by (auto simp: ims_view_def read_impu_def split: option.splits)
  let ?w2 = "snd (time0 E w1)"
  have t: "fst (time0 E w1) = clock E w" "ims_view (E, V) ?w2 = ims_view (E, V) w" "clock E ?w2 = clock E w"
    using after_time [OF S, of w1] r(2) by (simp_all add: ims_view_def)
  obtain w3 where "set_impu E S (DefaultImpu (irs_record (clock E w) irs 0 None)) ?w2 = (DATA_CONTENTION, w3)"
    "ims_view (E, V) w3 = ims_view (E, V) w"
    using set_undecodable [OF good, of ?w2 "DefaultImpu (irs_record (clock E w) irs 0 None)"] bad fits t by auto
  then show ?thesis
    using g x t(1) by (simp add: irs_impu_pass_def impu_store_ops_def get_impu_of_def create_impu_eq)
qed


text \<open>A record of a later version: its first byte is not the version this program writes.\<close>

definition undecodable_world :: ref_world where
  "undecodable_world = \<lparr>rw_data = [((2, ''impu'', ''sip:a''), (''z'', 1))], rw_cas = 1, rw_time = 100\<rparr>"


text \<open>
  A store whose mapping of one IMPI another node deletes each time it has been read here (after the
  first time there is nothing left to delete).
\<close>

definition deleted_after_read :: "('w, 'j) ext \<Rightarrow> 'w impu_store \<Rightarrow> string \<Rightarrow> 'w impu_ops" where
  "deleted_after_read E S impi = (impu_store_ops E S)\<lparr>op_get_impi_mapping := (\<lambda>k w.
     let (r, w1) = get_impi_mapping E S k w in (r, snd (delete_data (s_store S) ''impi_mapping'' impi w1)))\<rparr>"

lemma deleted_after_read_get:
  assumes "ims_good (E, V) S"
  shows "\<exists>w'. op_get_impi_mapping (deleted_after_read E S impi) impi w = (r_map (ims_view (E, V) w) (s_id S) impi, w') \<and>
    ims_view (E, V) w' = drop_map (s_id S) impi (ims_view (E, V) w)"
proof -
  obtain r w1 where g: "get_impi_mapping E S impi w = (r, w1)" by fastforce
  have "r = r_map (ims_view (E, V) w) (s_id S) impi" "ims_view (E, V) w1 = ims_view (E, V) w"
    using read_law(3,4) [OF assms, of impi w] g by simp_all
  then show ?thesis
    using g store_contractD(8) [of E V S "''impi_mapping''" impi w1] assms
      view_drop_map [of V "snd (delete_data (s_store S) ''impi_mapping'' impi w1)" w1 "s_id S" impi E]
    by (simp add: deleted_after_read_def ims_good_def)
qed

lemma deleted_after_read_set:
  assumes "ims_good (E, V) S" and "ims_fits_mapping (E, V) (clock E w) m"
    and "fst (r_map (ims_view (E, V) w) (s_id S) (p_impi m)) \<noteq> ERROR"
    and "\<not> map_cas_ok (ims_view (E, V) w) (s_id S) (p_impi m) (p_cas m)"
  shows "\<exists>w'. op_set_impi_mapping (deleted_after_read E S impi) m w = (DATA_CONTENTION, w') \<and>
    ims_view (E, V) w' = ims_view (E, V) w"
  using mapping_write_law [OF assms(1-3)] assms(4)
  by (cases "set_impi_mapping E S m w") (simp add: deleted_after_read_def impu_store_ops_def)

lemma stale_mapping_stuck:
  assumes good: "ims_good (E, V) S" and "r_map (ims_view (E, V) w) (s_id S) (p_impi m) = (NOT_FOUND, None)"
    and "p_cas m \<noteq> 0" and "ims_fits_mapping (E, V) (clock E w) m"
  shows "add_mapping_loop clk (deleted_after_read E S (p_impi m)) d ttl refreshed (p_impi m) m w = None"
proof (rule add_mapping_stuck [where gone = "\<lambda>w'. ims_view (E, V) w' = ims_view (E, V) w"])
  let ?v = "ims_view (E, V)" and ?st = "deleted_after_read E S (p_impi m)"
  fix w' assume same: "?v w' = ?v w"
  then have "clock E w' = clock E w" by (simp add: ims_view_def)
  then obtain w1 where w1: "op_set_impi_mapping ?st m w' = (DATA_CONTENTION, w1)" "?v w1 = ?v w'"
    using deleted_after_read_set [OF good, of w' m] same assms(2-4) by (auto simp: map_cas_ok_def)
  have "drop_map (s_id S) (p_impi m) (?v w) = ?v w"
    using assms(2) by (simp add: drop_map_def fun_upd_idem)
  then obtain w2 where "op_get_impi_mapping ?st (p_impi m) w1 = ((NOT_FOUND, None), w2)" "?v w2 = ?v w"
    using deleted_after_read_get [OF good, of "p_impi m" w1] w1(2) same assms(2) by auto
  with w1(1) show "\<exists>w1 w2. op_set_impi_mapping ?st m w' = (DATA_CONTENTION, w1) \<and>
      op_get_impi_mapping ?st (p_impi m) w1 = ((NOT_FOUND, None), w2) \<and> ?v w2 = ?v w" by blast
qed simp

text \<open>
  C26: adding the mapping of an IMPI can retry for ever as well. The mapping exists, so the first
  write fails; it is read, and another node deletes it before it is written back. The record kept for
  the next attempts has the CAS value of the deleted entry. Every further write of it fails and every
  further read finds nothing, though the comment in the code expects the write to go through.
\<close>

theorem mapping_addition_never_ends:
  assumes good: "ims_good (E, V) S"
    and "impis_in irs DELETED = []" and "m_refreshed irs \<longrightarrow> impis_in irs UNCHANGED = []"
    and "impis_in irs ADDED = impi # impis"
    and r: "r_map (ims_view (E, V) w) (s_id S) impi = (OK, Some m)"
    and "m_refreshed irs \<or> \<not> has_default_impu m (m_default_impu irs)"
    and fits: "mapping_writable (ims_fits_mapping (E, V) (clock E w)) (clock E w) irs impi (OK, Some m)"
  shows "update_irs_impi_mappings (time0 E) (deleted_after_read E S impi) irs w = None"
proof -
  let ?v = "ims_view (E, V)" and ?n = "s_id S" and ?t = "clock E w" and ?d = "m_default_impu irs"
  let ?st = "deleted_after_read E S impi"
  let ?loop = "add_mapping_loop (time0 E) ?st ?d (m_ttl irs) (m_refreshed irs) impi"
  have S: "store_contract E V S" using good by (simp add: ims_good_def)
  have time: "fst (time0 E w') = r_now (?v w') \<and> ?v (snd (time0 E w')) = ?v w'" for w'
    using ims.time_law [of "(E, V)" S w'] good by simp
  have now: "clock E w' = r_now (?v w')" for w' by (simp add: ims_view_def)
  have m: "p_impi m = impi" "p_cas m \<noteq> 0"
    using ims.mapping_shape [of "(E, V)" S w ?n impi] good r by simp_all
  let ?new = "new_ImpiMapping impi ?d (s64 (?t + m_ttl irs))"
  let ?x = "s32 (m_ttl irs + s32 ?t)"
  define m2 where "m2 = (if \<not> has_default_impu (set_expiry ?x m) ?d
    then add_default_impu ?d (set_expiry ?x m) else set_expiry ?x m)"
  have m2: "p_impi m2 = impi" "p_cas m2 \<noteq> 0" "ims_fits_mapping (E, V) ?t m2"
    using m fits by (auto simp: m2_def mapping_ops mapping_writable_def)
  let ?gone = "\<lambda>w'. ?v w' = drop_map ?n impi (?v w)"
  have stuck: "?loop m2 w' = None" if "?gone w'" for w'
    using stale_mapping_stuck [OF good, of w' m2] m2 that by (simp add: now drop_map_def)
  obtain w0 where w0: "time0 E w = (?t, w0)" "?v w0 = ?v w"
    using time [of w] by (cases "time0 E w") (simp add: now)
  have "ims_fits_mapping (E, V) (clock E w0) ?new" "clock E w0 = ?t"
    using fits w0 by (simp_all add: mapping_writable_def now)
  then obtain w1 where w1: "op_set_impi_mapping ?st ?new w0 = (DATA_CONTENTION, w1)" "?v w1 = ?v w"
    using deleted_after_read_set [OF good, of w0 ?new] w0 r m(2) by (auto simp: map_cas_ok_def new_ImpiMapping_def)
  obtain w2 where w2: "op_get_impi_mapping ?st impi w1 = ((OK, Some m), w2)" "?gone w2"
    using deleted_after_read_get [OF good, of impi w1] w1(2) r by auto
  obtain w3 where w3: "time0 E w2 = (?t, w3)" "?gone w3"
    using time [of w2] w2(2) by (cases "time0 E w2") (simp add: now drop_map_def)
  have "?loop ?new w0 = ?loop m2 w3"
    using w1(1) w2(1) w3(1) assms(6) unfolding m2_def
    by (subst add_mapping_loop.simps) (auto simp: has_default_impu_def set_expiry_def)
  then have "?loop ?new w0 = None" using stuck w3(2) by simp
  then show ?thesis
    using assms(2-4) w0(1) by (cases "m_refreshed irs") (simp_all add: update_irs_impi_mappings_def)
qed

definition mapped_world :: ref_world where
  "mapped_world = snd (set_impi_mapping ref_ext (ref_store 2)
     \<lparr>p_impi = ''i1'', p_cas = 0, p_expiry = 400, p_default_impus = [''sip:z'']\<rparr> (empty_world 100))"

theorem mapping_addition_never_ends_witness:
  "update_irs_impi_mappings (time0 ref_ext) (deleted_after_read ref_ext (ref_store 2) ''i1'') sample_irs mapped_world = None"
proof -
  let ?m = "\<lparr>p_impi = ''i1'', p_cas = 0, p_expiry = 400, p_default_impus = [''sip:z'']\<rparr>"
  have id: "s_id (ref_store 2) = 2" and now: "clock ref_ext (empty_world 100) = 100"
    by (simp_all add: ref_store_def clock_def ref_ext_def empty_world_def)
  have "ims_fits_mapping (ref_ext, ref_contents) 100 ?m"
    by (simp add: ims_fits_mapping_def storable_mapping_def mapping_members_def no_nul_def s32_def s64_def)
  then obtain c where v: "ims_view (ref_ext, ref_contents) mapped_world =
      put_map 2 c ?m (ims_view (ref_ext, ref_contents) (empty_world 100))"
    using mapping_write_law [OF ref_good, of "empty_world 100" ?m 2]
    by (auto simp: id now sample_view map_cas_ok_def mapped_world_def)
  have now': "clock ref_ext mapped_world = 100"
    using arg_cong [OF v, of r_now] by (simp add: ims_view_def put_map_def now)
  have lists: "impis_in sample_irs DELETED = []" "impis_in sample_irs UNCHANGED = []" "impis_in sample_irs ADDED = [''i1'']"
    by (simp_all add: impis_in_def get_elements_in_state_def sample_irs_def new_mirs_def)
  show ?thesis
    by (rule mapping_addition_never_ends [OF ref_good [of 2] lists(1) _ lists(3), where m = "?m\<lparr>p_cas := c\<rparr>"])
      (simp_all add: id now' v put_map_def lists mapping_writable_def ims_fits_mapping_def storable_mapping_def
        mapping_members_def mapping_ops no_nul_def s32_def s64_def sample_irs_def new_mirs_def impis_in_def
        get_elements_in_state_def)
qed

end
