(* ===== verification/Sites.thy ===== *)
theory Sites
  imports Store_Properties
begin

text \<open>
  The cache on several sites and with several writers. A put through \<open>MemcachedCache\<close> reaches the
  stores of all sites, where a node of that site finds the set; and when two nodes change the same
  registration set, the second one's put merges what the first one wrote instead of overwriting it.
\<close>

section \<open>All sites\<close>

lemma resolved_same_site: "same_site n v v' \<Longrightarrow> resolved v' n irs = resolved v n irs"
  by (auto simp: same_site_def resolved_def impu_cas_ok_def split: option.split Impu.split)

lemma put_accepts_same_site:
  assumes "same_site (s_id S) (ims_view (E, V) w) (ims_view (E, V) w')"
  shows "put_accepts E V S w' irs irs' = put_accepts E V S w irs irs'"
  using assms resolved_same_site [OF assms]
  by (simp add: put_accepts_def same_site_def irs_writable_def Let_def)

text \<open>
  The set as each site in turn stores it: what one site merges into it goes on to the next, as the
  object is passed on by reference.
\<close>

fun site_sets :: "('w, 'j) ext \<Rightarrow> ('w \<Rightarrow> contents) \<Rightarrow> 'w \<Rightarrow> 'w impu_store list \<Rightarrow> mirs \<Rightarrow> mirs list" where
  "site_sets E V w [] irs = []"
| "site_sets E V w (S # sites) irs =
     (let irs' = (if m_existing irs then resolved (ims_view (E, V) w) (s_id S) irs else irs)
      in irs' # site_sets E V w sites irs')"

fun sites_accept :: "('w, 'j) ext \<Rightarrow> ('w \<Rightarrow> contents) \<Rightarrow> 'w \<Rightarrow> 'w impu_store list \<Rightarrow> mirs \<Rightarrow> bool" where
  "sites_accept E V w [] irs \<longleftrightarrow> True"
| "sites_accept E V w (S # sites) irs \<longleftrightarrow>
     (let irs' = (if m_existing irs then resolved (ims_view (E, V) w) (s_id S) irs else irs)
      in put_accepts E V S w irs irs' \<and> sites_accept E V w sites irs')"

definition stored_at_sites ::
  "('w, 'j) ext \<Rightarrow> ('w \<Rightarrow> contents) \<Rightarrow> 'w impu_store list \<Rightarrow> mirs list \<Rightarrow> 'w \<Rightarrow> 'w \<Rightarrow> bool" where
  "stored_at_sites E V sites irss w w' \<longleftrightarrow>
     list_all2 (\<lambda>S irs. irs_stored irs (s_id S) (ims_view (E, V) w)
       (graft (s_id S) (ims_view (E, V) w) (ims_view (E, V) w'))) sites irss"

lemma put_at_sites:
  assumes "sites_accept E V w sites irs" and "distinct (map s_id sites)"
    and "\<forall>S \<in> set sites. same_site (s_id S) (ims_view (E, V) w) (ims_view (E, V) w1)"
  shows "\<exists>irs' w'. perform_remotes (put_irs_action (time0 E)) (map (impu_store_ops E) sites) irs w1 = Some (irs', w') \<and>
    stored_at_sites E V sites (site_sets E V w sites irs) w w' \<and>
    (\<forall>n. n \<notin> s_id ` set sites \<longrightarrow> same_site n (ims_view (E, V) w1) (ims_view (E, V) w'))"
  using assms
proof (induction sites arbitrary: irs w1)
  case Nil
  then show ?case by (simp add: stored_at_sites_def)
next
  case (Cons S sites)
  let ?v = "ims_view (E, V)" and ?n = "s_id S"
  define irs1 where "irs1 = (if m_existing irs then resolved (?v w) ?n irs else irs)"
  have same: "same_site ?n (?v w) (?v w1)" using Cons.prems(3) by simp
  have "put_accepts E V S w1 irs irs1"
    using Cons.prems(1) put_accepts_same_site [OF same] by (simp add: irs1_def Let_def)
  then obtain w2 where put: "put_irs_action (time0 E) (impu_store_ops E S) irs w1 = Some (OK, irs1, w2)"
    and st: "irs_stored irs1 ?n (?v w1) (?v w2)"
    using put_accepts_put [of E V S w1 irs irs1] by blast
  have rest: "sites_accept E V w sites irs1" "distinct (map s_id sites)" "?n \<notin> s_id ` set sites"
    using Cons.prems(1,2) by (simp_all add: irs1_def Let_def)
  have "\<forall>T \<in> set sites. same_site (s_id T) (?v w) (?v w2)"
  proof
    fix T assume T: "T \<in> set sites"
    then have "s_id T \<noteq> ?n" using rest(3) by (metis image_eqI)
    then show "same_site (s_id T) (?v w) (?v w2)"
      using same_site_trans [OF _ irs_stored_others [OF st]] Cons.prems(3) T by simp
  qed
  from Cons.IH [OF rest(1,2) this] obtain irs' w' where
    IH: "perform_remotes (put_irs_action (time0 E)) (map (impu_store_ops E) sites) irs1 w2 = Some (irs', w')"
      "stored_at_sites E V sites (site_sets E V w sites irs1) w w'"
      "\<forall>n. n \<notin> s_id ` set sites \<longrightarrow> same_site n (?v w2) (?v w')"
    by blast
  have "irs_stored irs1 ?n (?v w) (graft ?n (?v w) (?v w'))"
    using irs_stored_graft [OF st same] IH(3) rest(3) by blast
  moreover have "same_site n (?v w1) (?v w')" if "n \<notin> s_id ` set (S # sites)" for n
    using that same_site_trans [OF irs_stored_others [OF st]] IH(3) by simp
  ultimately show ?case
    using put IH(1,2) by (simp add: stored_at_sites_def irs1_def Let_def)
qed

lemma list_all2_conj: "list_all2 P xs ys \<Longrightarrow> list_all2 Q xs ys \<Longrightarrow> list_all2 (\<lambda>x y. P x y \<and> Q x y) xs ys"
  by (simp add: list_all2_conv_all_nth)

lemma site_sets_ok: "sites_accept E V w sites irs \<Longrightarrow>
    list_all2 (\<lambda>S irs. ims_good (E, V) S \<and> mirs_ok irs) sites (site_sets E V w sites irs)"
  by (induction sites arbitrary: irs) (auto simp: put_accepts_def irs_writable_def Let_def)

lemma put_all_sites:
  assumes cache: "c_clk cache = time0 E" "c_local cache = impu_store_ops E S"
      "c_remotes cache = map (impu_store_ops E) remotes"
    and "distinct (map s_id (S # remotes))" and "sites_accept E V w (S # remotes) irs" and "has_changed irs"
    and cb: "\<forall>w. ims_view (E, V) (progress_cb w) = ims_view (E, V) w"
  shows "\<exists>irs' w'. put_implicit_registration_set cache irs progress_cb w = Some (OK, irs', w') \<and>
    list_all2 (\<lambda>T irs_t.
      irs_stored irs_t (s_id T) (ims_view (E, V) w) (graft (s_id T) (ims_view (E, V) w) (ims_view (E, V) w')) \<and>
      (\<forall>node impu. c_local node = impu_store_ops E T \<and> c_clk node = time0 E \<and>
         impu \<in> insert (m_default_impu irs_t) (set (written_impus irs_t)) \<longrightarrow> finds_set node impu w' irs_t))
      (S # remotes) (site_sets E V w (S # remotes) irs)"
proof -
  let ?v = "ims_view (E, V)"
  define irs1 where "irs1 = (if m_existing irs then resolved (?v w) (s_id S) irs else irs)"
  have acc: "put_accepts E V S w irs irs1" "sites_accept E V w remotes irs1"
    using assms(5) by (simp_all add: irs1_def Let_def)
  obtain w1 where put: "put_irs_action (time0 E) (impu_store_ops E S) irs w = Some (OK, irs1, w1)"
    and st: "irs_stored irs1 (s_id S) (?v w) (?v w1)"
    using put_accepts_put [OF acc(1)] by blast
  have ids: "s_id S \<notin> s_id ` set remotes" "distinct (map s_id remotes)" using assms(4) by simp_all
  have "\<forall>T \<in> set remotes. same_site (s_id T) (?v w) (?v (progress_cb w1))"
  proof
    fix T assume "T \<in> set remotes"
    then have "s_id T \<noteq> s_id S" using ids(1) by (metis image_eqI)
    then show "same_site (s_id T) (?v w) (?v (progress_cb w1))"
      using irs_stored_others [OF st] cb by simp
  qed
  from put_at_sites [OF acc(2) ids(2) this] obtain irs' w' where
    rem: "perform_remotes (put_irs_action (time0 E)) (c_remotes cache) irs1 (progress_cb w1) = Some (irs', w')"
      "stored_at_sites E V remotes (site_sets E V w remotes irs1) w w'"
      "same_site (s_id S) (?v (progress_cb w1)) (?v w')"
    unfolding cache(3) using ids(1) by blast
  have "irs_stored irs1 (s_id S) (?v w) (graft (s_id S) (?v w) (?v w'))"
    using irs_stored_graft [OF st] rem(3) cb by simp
  then have stored: "stored_at_sites E V (S # remotes) (site_sets E V w (S # remotes) irs) w w'"
    using rem(2) by (simp add: stored_at_sites_def irs1_def Let_def)
  have run: "put_implicit_registration_set cache irs progress_cb w = Some (OK, irs', w')"
    using put rem(1) cache(1,2) \<open>has_changed irs\<close>
    by (simp add: put_implicit_registration_set_def perform_def)
  have found: "irs_stored irs_t (s_id T) (?v w) (graft (s_id T) (?v w) (?v w')) \<and>
      (\<forall>node impu. c_local node = impu_store_ops E T \<and> c_clk node = time0 E \<and>
         impu \<in> insert (m_default_impu irs_t) (set (written_impus irs_t)) \<longrightarrow> finds_set node impu w' irs_t)"
    if "irs_stored irs_t (s_id T) (?v w) (graft (s_id T) (?v w) (?v w')) \<and> ims_good (E, V) T \<and> mirs_ok irs_t" for T irs_t
    using that stored_found [of E V T irs_t "?v w" w'] by simp
  note both = list_all2_conj [OF stored [unfolded stored_at_sites_def] site_sets_ok [OF assms(5)]]
  show ?thesis
    by (intro exI conjI, rule run, rule list_all2_mono [OF both], rule found)
qed

text \<open>
  C7: a put reaches every site. When the stores of all sites accept the set, putting it through the
  cache ends with success, every site's tables are consistent with the set as that site stores it
  (merged with what it held, for an existing set), and a node of any site, whose local store that
  is, then finds this set under the default IMPU and every associated IMPU written.
\<close>

theorem put_reaches_every_site:
  assumes cache: "c_clk cache = time0 E" "c_local cache = impu_store_ops E S"
      "c_remotes cache = map (impu_store_ops E) remotes"
    and "distinct (map s_id (S # remotes))" and "sites_accept E V w (S # remotes) irs" and "has_changed irs"
    and cb: "\<forall>w. ims_view (E, V) (progress_cb w) = ims_view (E, V) w"
  shows "\<exists>irs' w'. put_implicit_registration_set cache irs progress_cb w = Some (OK, irs', w') \<and>
    list_all2 (\<lambda>T irs_t.
      irs_stored irs_t (s_id T) (ims_view (E, V) w) (graft (s_id T) (ims_view (E, V) w) (ims_view (E, V) w')) \<and>
      (\<forall>node impu. c_local node = impu_store_ops E T \<and> c_clk node = time0 E \<and>
         impu \<in> insert (m_default_impu irs_t) (set (written_impus irs_t)) \<longrightarrow> finds_set node impu w' irs_t))
      (S # remotes) (site_sets E V w (S # remotes) irs)"
  using assms by (rule put_all_sites)

lemma sample_accepts_at: "put_accepts ref_ext ref_contents (ref_store n) (empty_world 100) sample_irs sample_irs"
proof -
  have "ims_fits (ref_ext, ref_contents) 100 (stored_view 0 (Some n) sample_assoc)"
    using sample_assoc_fits by (simp only: ims_fits_stored)
  moreover have "stored_view 0 (Some n) sample_assoc = AssociatedImpu (assoc_record 100 sample_irs n ''sip:b'')"
    by (simp add: sample_assoc_def assoc_record_def sample_irs_def new_mirs_def s64_def)
  moreover have "\<not> m_existing sample_irs" "m_registration_state sample_irs = REGISTERED" "s_id (ref_store n) = n"
    "written_impus sample_irs = [''sip:b'']"
    by (simp_all add: sample_irs_def new_mirs_def ref_store_def written_impus_def impus_in_def get_elements_in_state_def)
  ultimately show ?thesis
    using sample_writable sample_default_fits ref_good
    by (simp add: put_accepts_def sample_view irs_writable_def)
qed

definition two_site_cache :: "ref_world memcached_cache" where
  "two_site_cache = \<lparr>c_clk = time0 ref_ext, c_local = impu_store_ops ref_ext (ref_store 2),
     c_remotes = [impu_store_ops ref_ext (ref_store 3)]\<rparr>"

theorem put_reaches_every_site_witness:
  "\<exists>irs' w'. put_implicit_registration_set two_site_cache sample_irs id (empty_world 100) = Some (OK, irs', w') \<and>
    finds_set \<lparr>c_clk = time0 ref_ext, c_local = impu_store_ops ref_ext (ref_store 3), c_remotes = []\<rparr> ''sip:b'' w' sample_irs"
proof -
  have f: "\<not> m_existing sample_irs" "has_changed sample_irs" "''sip:b'' \<in> set (written_impus sample_irs)"
    by (simp_all add: sample_irs_def new_mirs_def has_changed_def written_impus_def impus_in_def get_elements_in_state_def)
  have "distinct (map s_id [ref_store 2, ref_store 3])"
    "sites_accept ref_ext ref_contents (empty_world 100) [ref_store 2, ref_store 3] sample_irs"
    using f sample_accepts_at by (simp_all add: ref_store_def)
  then show ?thesis
    using put_reaches_every_site [of two_site_cache ref_ext "ref_store 2" "[ref_store 3]" ref_contents "empty_world 100" sample_irs id]
      f by (fastforce simp: two_site_cache_def)
qed

section \<open>Losing a site\<close>

lemma site_sets_new: "\<not> m_existing irs \<Longrightarrow> site_sets E V w sites irs = map (\<lambda>_. irs) sites"
  by (induction sites) simp_all

lemma read_remotes_view:
  assumes "\<forall>T \<in> set sites. ims_good (E, V) T"
  shows "\<exists>w'. read_remotes (map (impu_store_ops E) sites) k w =
      (map (\<lambda>T. r_impu (ims_view (E, V) w) (s_id T) k) sites, w') \<and> ims_view (E, V) w' = ims_view (E, V) w"
  using assms
proof (induction sites arbitrary: w)
  case Nil
  then show ?case by simp
next
  case (Cons T sites)
  obtain r w1 where g: "get_impu E T k w = (r, w1)" by fastforce
  have r: "r = r_impu (ims_view (E, V) w) (s_id T) k" "ims_view (E, V) w1 = ims_view (E, V) w"
    using read_law(1,2) [of E V T k w] Cons.prems g by simp_all
  then show ?case
    using Cons.IH [of w1] Cons.prems g by (auto simp: impu_store_ops_def)
qed

lemma gr_from_remote:
  assumes "ims_good (E, V) S" and "c_local cache = impu_store_ops E S"
    and "\<forall>T \<in> set (T # remotes). ims_good (E, V) T" and "c_remotes cache = map (impu_store_ops E) (T # remotes)"
    and "r_impu (ims_view (E, V) w) (s_id S) k = (NOT_FOUND, None)"
    and "fst (r_impu (ims_view (E, V) w) (s_id T) k) = OK"
  shows "\<exists>w'. get_impu_for_impu_gr cache k w = (r_impu (ims_view (E, V) w) (s_id T) k, w') \<and>
    ims_view (E, V) w' = ims_view (E, V) w"
proof -
  obtain w1 where g: "get_impu E S k w = ((NOT_FOUND, None), w1)" "ims_view (E, V) w1 = ims_view (E, V) w"
    using read_law(1,2) [OF assms(1), of k w] assms(5) by (cases "get_impu E S k w") simp
  obtain w2 where "read_remotes (c_remotes cache) k w1 =
      (map (\<lambda>T. r_impu (ims_view (E, V) w) (s_id T) k) (T # remotes), w2)" "ims_view (E, V) w2 = ims_view (E, V) w"
    using read_remotes_view [OF assms(3), of k w1] g(2) assms(4) by auto
  then show ?thesis
    using g(1) assms(2,6) first_ok_find [of "(NOT_FOUND, None)"]
    by (cases "r_impu (ims_view (E, V) w) (s_id T) k") (simp add: get_impu_for_impu_gr_def impu_store_ops_def)
qed


definition lose_site :: "nat \<Rightarrow> ref_world \<Rightarrow> ref_world" where
  "lose_site n w = w\<lparr>rw_data := filter (\<lambda>p. fst (fst p) \<noteq> n) (rw_data w)\<rparr>"

lemma lose_site_view:
  "n' \<noteq> n \<Longrightarrow> same_site n' (ims_view (ref_ext, ref_contents) w) (ims_view (ref_ext, ref_contents) (lose_site n w))"
  "r_impu (ims_view (ref_ext, ref_contents) (lose_site n w)) n k = (NOT_FOUND, None)"
proof -
  have "map_of (filter (\<lambda>p. fst (fst p) \<noteq> n) xs) x = (if fst x \<noteq> n then map_of xs x else None)"
    for xs :: "((nat \<times> string \<times> string) \<times> (string \<times> cas)) list" and x
    by (induction xs) auto
  then have c: "ref_contents (lose_site n w) x = (if fst x \<noteq> n then ref_contents w x else None)" for x
    by (simp add: ref_contents_def lose_site_def)
  have "clock ref_ext (lose_site n w) = clock ref_ext w"
    by (simp add: clock_def ref_ext_def lose_site_def)
  then show "n' \<noteq> n \<Longrightarrow> same_site n' (ims_view (ref_ext, ref_contents) w) (ims_view (ref_ext, ref_contents) (lose_site n w))"
    "r_impu (ims_view (ref_ext, ref_contents) (lose_site n w)) n k = (NOT_FOUND, None)"
    by (simp_all add: same_site_def ims_view_def read_impu_def read_mapping_def c fun_eq_iff)
qed


section \<open>Two writers\<close>

lemma put_stored:
  assumes "put_accepts E V S w irs irs'"
    and "put_irs_action (time0 E) (impu_store_ops E S) irs w = Some (OK, irs', w1)"
  obtains c where "c \<noteq> 0" and "ims_good (E, V) S" and "mirs_ok irs'" and "m_default_impu irs' = m_default_impu irs"
    and "clock E w1 = clock E w"
    and "fst (get_impu E S (m_default_impu irs) w1) =
      (OK, Some (stored_view c (Some (s_id S)) (DefaultImpu (irs_record (clock E w) irs' 0 None))))"
proof -
  have good: "ims_good (E, V) S" and ok: "mirs_ok irs'"
    and irs': "irs' = (if m_existing irs then resolved (ims_view (E, V) w) (s_id S) irs else irs)"
    using assms(1) unfolding put_accepts_def irs_writable_def Let_def by blast+
  have key: "m_default_impu irs' = m_default_impu irs"
    by (auto simp: irs' resolved_def split: option.splits Impu.splits)
  have st: "irs_stored irs' (s_id S) (ims_view (E, V) w) (ims_view (E, V) w1)"
    using put_accepts_put [OF assms(1)] assms(2) by auto
  then obtain c where "c \<noteq> 0" "r_impu (ims_view (E, V) w1) (s_id S) (m_default_impu irs) =
      (OK, Some (stored_view c (Some (s_id S)) (DefaultImpu (irs_record (clock E w) irs' 0 None))))"
    unfolding irs_stored_def r_now_ims_view key by auto
  then show thesis
    using that [of c] good ok key st read_law(1) [OF good, of "m_default_impu irs" w1]
    by (simp add: irs_stored_def r_now_ims_view)
qed


text \<open>Two sets for one subscriber: a new registration, and a change that adds an associated IMPU.\<close>

definition first_irs :: mirs where
  "first_irs = sample_irs\<lparr>m_impis := []\<rparr>"

definition second_irs :: mirs where
  "second_irs = (new_mirs 300 REGISTERED)\<lparr>m_default_impu := ''sip:a'', m_existing := True, m_refreshed := False,
     m_store := Some 2, m_associated_impus := [(''sip:c'', ADDED)]\<rparr>"

definition second_merged :: mirs where
  "second_merged = second_irs\<lparr>m_ims_sub_xml := ''xml'',
     m_associated_impus := [(''sip:b'', UNCHANGED), (''sip:c'', ADDED)]\<rparr>"

lemmas two_irs = first_irs_def second_irs_def second_merged_def sample_irs_def new_mirs_def

lemma two_fits:
  "ims_fits (ref_ext, V) 100 (DefaultImpu (irs_record 100 first_irs 0 None))"
  "ims_fits (ref_ext, V) 100 (DefaultImpu (irs_record 100 second_irs 0 None))"
  "ims_fits (ref_ext, V) 100 (DefaultImpu (irs_record 100 second_merged 0 None))"
  "ims_fits (ref_ext, V) 100 (AssociatedImpu (assoc_record 100 first_irs 2 ''sip:b''))"
  "ims_fits (ref_ext, V) 100 (AssociatedImpu (assoc_record 100 second_merged 2 ''sip:c''))"
  by (rule ref_fits; simp add: irs_record_def create_impu_def two_irs get_associated_impis_def
      get_associated_impus_def present_elements_def assoc_record_def storable_def no_nul_def no_charging_def s64_def
      s32_def json_text_def write_object ref_lengths json_names)+

lemma first_accepts: "put_accepts ref_ext ref_contents (ref_store 2) (empty_world 100) first_irs first_irs"
proof -
  have "written_impus first_irs = [''sip:b'']" "mirs_ok first_irs" "m_impis first_irs = []" "\<not> m_existing first_irs"
    "m_default_impu first_irs = ''sip:a''" "m_registration_state first_irs = REGISTERED" "s_id (ref_store 2) = 2"
    by (simp_all add: written_impus_def impus_in_def get_elements_in_state_def two_irs mirs_ok_def ref_store_def)
  then show ?thesis
    using two_fits ref_good by (simp add: put_accepts_def sample_view irs_writable_def)
qed

lemma second_accepts:
  assumes "fst (get_impu ref_ext (ref_store 2) ''sip:a'' w) =
      (OK, Some (stored_view c (Some 2) (DefaultImpu (irs_record 100 first_irs 0 None))))"
    and "clock ref_ext w = 100" and "c \<noteq> 0"
  shows "put_accepts ref_ext ref_contents (ref_store 2) w second_irs second_merged"
    and "\<not> impu_cas_ok (ims_view (ref_ext, ref_contents) w) 2 ''sip:a'' 0"
proof -
  have id: "s_id (ref_store 2) = 2" by (simp add: ref_store_def)
  have r: "r_impu (ims_view (ref_ext, ref_contents) w) 2 ''sip:a'' =
      (OK, Some (stored_view c (Some 2) (DefaultImpu (irs_record 100 first_irs 0 None))))"
    using read_law(1) [OF ref_good, of 2 "''sip:a''" w] assms(1) id by simp
  then show cas: "\<not> impu_cas_ok (ims_view (ref_ext, ref_contents) w) 2 ''sip:a'' 0"
    using assms(3) by (simp add: impu_cas_ok_def)
  have m: "merged 100 ((irs_record 100 first_irs 0 None)\<lparr>i_cas := c, i_store := Some 2, d_registration_state := stored_state REGISTERED\<rparr>)
      second_irs = second_merged"
    by (simp add: merged_def update_from_impu_from_store_def irs_record_def create_impu_def two_irs merge_data_sets_def
        get_associated_impis_def get_associated_impus_def present_elements_def s32_def stored_state_def no_charging_def
        omap_map_def Let_def)
  have f: "m_default_impu second_irs = ''sip:a''" "m_existing second_irs" "m_cas second_irs = 0"
    "written_impus second_merged = [''sip:c'']" "mirs_ok second_merged" "m_impis second_merged = []"
    "m_default_impu second_merged = ''sip:a''" "d_registration_state (irs_record 100 first_irs 0 None) = REGISTERED"
    by (simp_all add: written_impus_def impus_in_def get_elements_in_state_def two_irs mirs_ok_def irs_record_def
        create_impu_def)
  have "resolved (ims_view (ref_ext, ref_contents) w) 2 second_irs = second_merged"
    using cas r m f by (simp add: resolved_def r_now_ims_view assms(2))
  then show "put_accepts ref_ext ref_contents (ref_store 2) w second_irs second_merged"
    using two_fits ref_good r f by (simp add: put_accepts_def id r_now_ims_view assms(2) irs_writable_def)
qed


end
