(* ===== verification/Registry.thy ===== *)
theory Registry
  imports Sites
begin

text \<open>
  What the cache's store is for, without records, CAS values and expiry checks: a registry of
  registration sets by default IMPU, with links from the associated IMPUs and the IMPIs. Putting and
  deleting sets (\<open>put_irs_action\<close>, \<open>delete_irs_action\<close>) and looking them up
  (\<open>get_implicit_registration_set_for_impu\<close>) refine the operations of the registry, for every sequence
  of accepted writes to one site.
\<close>

section \<open>The specification\<close>

text \<open>The contents of a stored record: its CAS value and store do not count.\<close>

definition entry_of :: "default_impu \<Rightarrow> default_impu" where
  "entry_of d = d\<lparr>i_cas := 0, i_store := None\<rparr>"

definition set_entry :: "int \<Rightarrow> mirs \<Rightarrow> default_impu" where
  "set_entry now irs = (irs_record now irs 0 None)\<lparr>d_registration_state := stored_state (m_registration_state irs)\<rparr>"

record registry =
  g_sets :: "string \<rightharpoonup> default_impu"
  g_links :: "string \<rightharpoonup> string"
  g_impis :: "string \<Rightarrow> string set"

definition registry_put :: "int \<Rightarrow> mirs \<Rightarrow> registry \<Rightarrow> registry" where
  "registry_put now irs R = (let d = m_default_impu irs in
     \<lparr>g_sets = (\<lambda>k. if k = d then Some (set_entry now irs)
        else if k \<in> set (written_impus irs) then None else g_sets R k),
      g_links = (\<lambda>k. if k = d then None else if k \<in> set (written_impus irs) then Some d
        else if k \<in> set (impus_in irs DELETED) \<and> g_links R k = Some d then None else g_links R k),
      g_impis = (\<lambda>impi. mapped_after irs impi (g_impis R impi))\<rparr>)"

definition registry_delete :: "mirs \<Rightarrow> registry \<Rightarrow> registry" where
  "registry_delete irs R = (let d = m_default_impu irs in
     \<lparr>g_sets = (g_sets R)(d := None),
      g_links = (\<lambda>k. if k = d \<or> map_of (m_associated_impus irs) k \<noteq> None \<and> g_links R k = Some d then None
        else g_links R k),
      g_impis = (\<lambda>impi. if map_of (m_impis irs) impi \<noteq> None then g_impis R impi - {d} else g_impis R impi)\<rparr>)"

text \<open>An associated IMPU counts only when the set it links to lists it.\<close>

definition registry_lookup :: "registry \<Rightarrow> string \<Rightarrow> default_impu option" where
  "registry_lookup R k =
     (case g_links R k of
        None \<Rightarrow> g_sets R k
      | Some d \<Rightarrow> (case g_sets R d of
          Some e \<Rightarrow> if k \<in> set (d_associated_impus e) then Some e else None
        | None \<Rightarrow> None))"

section \<open>The site as a registry\<close>

definition registry_of :: "repo_view \<Rightarrow> nat \<Rightarrow> registry" where
  "registry_of v n =
     \<lparr>g_sets = (\<lambda>k. case snd (r_impu v n k) of Some (DefaultImpu d) \<Rightarrow> Some (entry_of d) | _ \<Rightarrow> None),
      g_links = (\<lambda>k. case snd (r_impu v n k) of Some (AssociatedImpu a) \<Rightarrow> Some (a_default_impu a) | _ \<Rightarrow> None),
      g_impis = mapped v n\<rparr>"

definition readable_site :: "repo_view \<Rightarrow> nat \<Rightarrow> bool" where
  "readable_site v n \<longleftrightarrow> (\<forall>k. fst (r_impu v n k) \<noteq> ERROR)"

lemma put_refines:
  assumes st: "irs_stored irs n v v'" and ok: "m_default_impu irs \<notin> set (written_impus irs)"
  shows "registry_of v' n = registry_put (r_now v) irs (registry_of v n)"
proof -
  let ?d = "m_default_impu irs" and ?W = "set (written_impus irs)"
  obtain c where c: "r_impu v' n ?d = (OK, Some (stored_view c (Some n) (DefaultImpu (irs_record (r_now v) irs 0 None))))"
    using st unfolding irs_stored_def by blast
  have w: "\<exists>c. r_impu v' n k = (OK, Some (AssociatedImpu ((assoc_record (r_now v) irs n k)\<lparr>i_cas := c\<rparr>)))" if "k \<in> ?W" for k
    using st that unfolding irs_stored_def by blast
  have o: "r_impu v' n k = (if k \<in> set (impus_in irs DELETED) \<and> links_to v n k ?d then (NOT_FOUND, None) else r_impu v n k)"
    if "k \<noteq> ?d" "k \<notin> ?W" for k
    using st that unfolding irs_stored_def by blast
  have m: "mapped v' n impi = mapped_after irs impi (mapped v n impi)" for impi
    using st unfolding irs_stored_def by blast
  have "g_sets (registry_of v' n) k = g_sets (registry_put (r_now v) irs (registry_of v n)) k \<and>
      g_links (registry_of v' n) k = g_links (registry_put (r_now v) irs (registry_of v n)) k" for k
  proof (cases "k = ?d")
    case True
    then show ?thesis
      using c by (simp add: registry_of_def registry_put_def Let_def entry_of_def set_entry_def irs_record_def
          create_impu_def)
  next
    case False
    then show ?thesis
      using w [of k] o [of k]
      by (cases "k \<in> ?W")
        (auto simp: registry_of_def registry_put_def Let_def links_to_def split: option.splits Impu.splits)
  qed
  then show ?thesis
    using m by (intro registry.equality ext) (auto simp: registry_of_def registry_put_def Let_def)
qed

lemma delete_refines:
  assumes st: "irs_removed irs n v v'"
  shows "registry_of v' n = registry_delete irs (registry_of v n)"
proof -
  have i: "r_impu v' n k = (if k = m_default_impu irs \<or>
      map_of (m_associated_impus irs) k \<noteq> None \<and> links_to v n k (m_default_impu irs) then (NOT_FOUND, None) else r_impu v n k)" for k
    using st unfolding irs_removed_def by (cases "k = m_default_impu irs") simp_all
  have m: "mapped v' n impi = (if map_of (m_impis irs) impi \<noteq> None then mapped v n impi - {m_default_impu irs}
      else mapped v n impi)" for impi
    using st unfolding irs_removed_def by blast
  show ?thesis
    by (intro registry.equality ext)
      (auto simp: registry_of_def registry_delete_def i m Let_def links_to_def split: option.splits Impu.splits)
qed

lemma stored_readable:
  assumes "irs_stored irs n v v'" and "readable_site v n"
  shows "readable_site v' n"
  unfolding readable_site_def
proof
  fix k
  have "fst (r_impu v' n k) = OK" if "k = m_default_impu irs"
    using assms(1) that unfolding irs_stored_def by fastforce
  moreover have "fst (r_impu v' n k) = OK" if "k \<in> set (written_impus irs)"
    using assms(1) that unfolding irs_stored_def by fastforce
  moreover have "fst (r_impu v' n k) = NOT_FOUND \<or> r_impu v' n k = r_impu v n k"
    if "k \<noteq> m_default_impu irs" "k \<notin> set (written_impus irs)"
    using assms(1) that unfolding irs_stored_def by (metis fst_conv)
  ultimately show "fst (r_impu v' n k) \<noteq> ERROR"
    using assms(2) by (force simp: readable_site_def)
qed

lemma removed_readable: "irs_removed irs n v v' \<Longrightarrow> readable_site v n \<Longrightarrow> readable_site v' n"
  unfolding irs_removed_def readable_site_def by (metis fst_conv status.distinct)

section \<open>Histories\<close>

definition delete_accepts ::
  "('w, 'j) ext \<Rightarrow> ('w \<Rightarrow> contents) \<Rightarrow> 'w impu_store \<Rightarrow> 'w \<Rightarrow> mirs \<Rightarrow> mirs \<Rightarrow> bool" where
  "delete_accepts E V S w irs irs1 \<longleftrightarrow>
     ims_good (E, V) S \<and> mirs_ok irs \<and>
     fst (r_impu (ims_view (E, V) w) (s_id S) (m_default_impu irs)) \<noteq> ERROR \<and>
     irs1 = delete_target (ims_view (E, V) w) (s_id S) irs \<and>
     (\<forall>impi. map_of (m_impis irs1) impi \<noteq> None \<longrightarrow>
        mapping_writable (ims_fits_mapping (E, V) (clock E w)) (clock E w) irs1 impi
          (r_map (ims_view (E, V) w) (s_id S) impi))"

lemma delete_accepts_delete:
  assumes "delete_accepts E V S w irs irs1"
  shows "\<exists>w'. delete_irs_action (time0 E) (impu_store_ops E S) irs w =
      Some (OK, delete_impis (delete_assoc_impus irs1), w') \<and>
    irs_removed irs1 (s_id S) (ims_view (E, V) w) (ims_view (E, V) w')"
proof -
  have sid: "op_id (impu_store_ops E S) = s_id S" by (simp add: impu_store_ops_def)
  show ?thesis
    using ims.delete_irs_action_quiet [of "(E, V)" S w irs irs1] assms
    unfolding delete_accepts_def r_now_ims_view fst_conv sid by blast
qed

text \<open>
  A sequence of writes to one site, each accepted in the state it meets, with the set as it was
  stored or taken away.
\<close>

datatype site_op = Put_op mirs | Delete_op mirs

inductive site_history ::
  "('w, 'j) ext \<Rightarrow> ('w \<Rightarrow> contents) \<Rightarrow> 'w impu_store \<Rightarrow> site_op list \<Rightarrow> 'w \<Rightarrow> 'w \<Rightarrow> bool" for E V S where
  history_nil: "site_history E V S [] w w"
| history_put: "put_accepts E V S w irs irs' \<Longrightarrow>
    put_irs_action (time0 E) (impu_store_ops E S) irs w = Some (OK, irs', w1) \<Longrightarrow>
    site_history E V S ops w1 w2 \<Longrightarrow> site_history E V S (Put_op irs' # ops) w w2"
| history_delete: "delete_accepts E V S w irs irs' \<Longrightarrow>
    delete_irs_action (time0 E) (impu_store_ops E S) irs w = Some (OK, irs'', w1) \<Longrightarrow>
    site_history E V S ops w1 w2 \<Longrightarrow> site_history E V S (Delete_op irs' # ops) w w2"

fun registry_op :: "int \<Rightarrow> site_op \<Rightarrow> registry \<Rightarrow> registry" where
  "registry_op now (Put_op irs) R = registry_put now irs R"
| "registry_op now (Delete_op irs) R = registry_delete irs R"

lemma history_simulation:
  assumes "site_history E V S ops w w'"
  shows "registry_of (ims_view (E, V) w') (s_id S) =
      fold (registry_op (clock E w)) ops (registry_of (ims_view (E, V) w) (s_id S)) \<and>
    clock E w' = clock E w \<and>
    (readable_site (ims_view (E, V) w) (s_id S) \<longrightarrow> readable_site (ims_view (E, V) w') (s_id S))"
  using assms
proof induction
  case (history_nil w)
  then show ?case by simp
next
  case (history_put w irs irs' w1 ops w2)
  have st: "irs_stored irs' (s_id S) (ims_view (E, V) w) (ims_view (E, V) w1)"
    using put_accepts_put [OF history_put.hyps(1)] history_put.hyps(2) by auto
  have "m_default_impu irs' \<notin> set (written_impus irs')"
    using history_put.hyps(1) unfolding put_accepts_def irs_writable_def Let_def by blast
  from put_refines [OF st this] stored_readable [OF st] history_put.IH st show ?case
    by (simp add: irs_stored_def r_now_ims_view)
next
  case (history_delete w irs irs' irs'' w1 ops w2)
  have st: "irs_removed irs' (s_id S) (ims_view (E, V) w) (ims_view (E, V) w1)"
    using delete_accepts_delete [OF history_delete.hyps(1)] history_delete.hyps(2) by auto
  from delete_refines [OF st] removed_readable [OF st] history_delete.IH st show ?case
    by (simp add: irs_removed_def r_now_ims_view)
qed

section \<open>Looking up\<close>

text \<open>The set a lookup builds from an entry, and what of a set does not come from the entry.\<close>

definition set_of_entry :: "int \<Rightarrow> default_impu \<Rightarrow> mirs" where
  "set_of_entry now e = fst (mirs_of_impu (\<lambda>w. (now, w)) e ())"

definition forget_origin :: "mirs \<Rightarrow> mirs" where
  "forget_origin irs = irs\<lparr>m_cas := 0, m_store := None\<rparr>"

lemma mirs_of_impu_entry:
  "mirs_of_impu clk d w = (mirs, w') \<Longrightarrow> forget_origin mirs = set_of_entry (fst (clk w)) (entry_of d)"
  by (auto simp: mirs_of_impu_def set_of_entry_def forget_origin_def entry_of_def Let_def split: prod.splits)

lemmas lookup_simps = get_implicit_registration_set_for_impu_def registry_lookup_def registry_of_def

lemma gr_one_site:
  assumes "ims_good (E, V) S" and "c_local cache = impu_store_ops E S" and "c_remotes cache = []"
  obtains w' where "get_impu_for_impu_gr cache k w = (r_impu (ims_view (E, V) w) (s_id S) k, w')"
    and "ims_view (E, V) w' = ims_view (E, V) w"
proof -
  obtain st x w' where g: "get_impu E S k w = ((st, x), w')" by (metis surj_pair)
  moreover have "r_impu (ims_view (E, V) w) (s_id S) k = (st, x)" "ims_view (E, V) w' = ims_view (E, V) w"
    using read_law(1,2) [OF assms(1), of k w] g by simp_all
  ultimately show thesis
    using assms(2,3) that by (simp add: get_impu_for_impu_gr_def impu_store_ops_def)
qed

lemma site_entry_cases:
  assumes "ims_good (E, V) S" and "readable_site (ims_view (E, V) w) n"
  obtains "r_impu (ims_view (E, V) w) n k = (NOT_FOUND, None)"
  | d where "r_impu (ims_view (E, V) w) n k = (OK, Some (DefaultImpu d))"
  | a where "r_impu (ims_view (E, V) w) n k = (OK, Some (AssociatedImpu a))"
proof -
  obtain u x where r: "r_impu (ims_view (E, V) w) n k = (u, x)" by fastforce
  then have "u \<noteq> ERROR" using assms(2) by (metis fst_conv readable_site_def)
  then show thesis
    using ims.impu_shape [OF assms(1) r] r that by (cases x; cases "the x") auto
qed

lemma lookup_refines:
  assumes good: "ims_good (E, V) S" and cache: "c_local cache = impu_store_ops E S" "c_clk cache = time0 E" "c_remotes cache = []"
    and readable: "readable_site (ims_view (E, V) w) (s_id S)"
  shows "map_prod id (map_option forget_origin) (fst (get_implicit_registration_set_for_impu cache k w)) =
    (case registry_lookup (registry_of (ims_view (E, V) w) (s_id S)) k of
       None \<Rightarrow> (NOT_FOUND, None) | Some e \<Rightarrow> (OK, Some (set_of_entry (clock E w) e)))"
proof -
  let ?v = "ims_view (E, V)" and ?n = "s_id S"
  have built: "forget_origin (fst (mirs_of_impu (time0 E) d w')) = set_of_entry (clock E w) (entry_of d)"
    if "?v w' = ?v w" for d w'
    using mirs_of_impu_entry [OF prod.collapse [symmetric], of "time0 E" d w'] arg_cong [OF that, of r_now]
    by (simp add: r_now_ims_view clock_def)
  obtain w1 where w1: "get_impu_for_impu_gr cache k w = (r_impu (?v w) ?n k, w1)" "?v w1 = ?v w"
    using gr_one_site [OF good cache(1,3)] .
  show ?thesis
  proof (cases rule: site_entry_cases [OF good readable, of k])
    case 1
    then show ?thesis using w1 by (simp add: lookup_simps)
  next
    case (2 d)
    then show ?thesis
      using w1(1) built [OF w1(2), of d] cache(2) by (simp add: lookup_simps case_prod_unfold)
  next
    case (3 a)
    obtain w2 where w2: "get_impu_for_impu_gr cache (a_default_impu a) w1 = (r_impu (?v w) ?n (a_default_impu a), w2)"
      "?v w2 = ?v w"
      using gr_one_site [OF good cache(1,3), of "a_default_impu a" w1] w1(2) by metis
    show ?thesis
      using w1(1) w2(1) 3 built [OF w2(2)] cache(2)
      by (cases rule: site_entry_cases [OF good readable, of "a_default_impu a"])
        (simp_all add: lookup_simps has_associated_impu_def entry_of_def case_prod_unfold)
  qed
qed

text \<open>
  C3: one site is a registry of registration sets. After any sequence of accepted puts and deletes
  the tables of the site, CAS values apart, are what the same sequence of registry operations makes
  of the tables at the start, and a lookup by any IMPU returns the set the registry has for it, or
  \<open>NOT_FOUND\<close> when it has none.
\<close>

theorem history_refines_registry:
  assumes "site_history E V S ops w w'" and "ims_good (E, V) S" and "readable_site (ims_view (E, V) w) (s_id S)"
    and "c_local cache = impu_store_ops E S" and "c_clk cache = time0 E" and "c_remotes cache = []"
    and "R = fold (registry_op (clock E w)) ops (registry_of (ims_view (E, V) w) (s_id S))"
  shows "registry_of (ims_view (E, V) w') (s_id S) = R \<and>
    map_prod id (map_option forget_origin) (fst (get_implicit_registration_set_for_impu cache impu w')) =
      (case registry_lookup R impu of
         None \<Rightarrow> (NOT_FOUND, None)
       | Some e \<Rightarrow> (OK, Some (set_of_entry (clock E w) e)))"
proof -
  note H = history_simulation [OF assms(1)]
  then have "clock E w' = clock E w" by blast
  from lookup_refines [OF assms(2,4-6), of w' impu, unfolded this] H show ?thesis
    using assms(3,7) by simp
qed

text \<open>A set is deleted of which the store has nothing, and then put.\<close>

lemma first_history: "\<exists>w'. site_history ref_ext ref_contents (ref_store 2) [Delete_op (mark_as_refreshed first_irs), Put_op first_irs]
    (empty_world 100) w'"
proof -
  let ?E = ref_ext and ?V = ref_contents and ?S = "ref_store 2" and ?v = "ims_view (ref_ext, ref_contents)"
  let ?irs = "mark_as_refreshed first_irs"
  have id: "s_id ?S = 2" by (simp add: ref_store_def)
  have acc: "delete_accepts ?E ?V ?S (empty_world 100) first_irs ?irs"
    using ref_good by (simp add: delete_accepts_def id sample_view delete_target_def two_irs mark_as_refreshed_def mirs_ok_def)
  then obtain irs' w1 where del: "delete_irs_action (time0 ?E) (impu_store_ops ?E ?S) first_irs (empty_world 100) = Some (OK, irs', w1)"
    and rm: "irs_removed ?irs 2 (?v (empty_world 100)) (?v w1)"
    using delete_accepts_delete [OF acc] id by auto
  have now: "clock ?E w1 = 100" "r_impu (?v w1) 2 ''sip:a'' = (NOT_FOUND, None)"
    using rm by (simp_all add: irs_removed_def sample_view mark_as_refreshed_def two_irs flip: r_now_ims_view [of "(ref_ext, ref_contents)", simplified])
  have f: "written_impus first_irs = [''sip:b'']" "mirs_ok first_irs" "m_impis first_irs = []" "\<not> m_existing first_irs"
    "m_default_impu first_irs = ''sip:a''"
    by (simp_all add: written_impus_def impus_in_def get_elements_in_state_def two_irs mirs_ok_def)
  have put: "put_accepts ?E ?V ?S w1 first_irs first_irs"
    using two_fits ref_good now f by (simp add: put_accepts_def id r_now_ims_view irs_writable_def)
  then obtain w2 where "put_irs_action (time0 ?E) (impu_store_ops ?E ?S) first_irs w1 = Some (OK, first_irs, w2)"
    using put_accepts_put [OF put] by blast
  from history_delete [OF acc del history_put [OF put this history_nil]] show ?thesis by blast
qed

theorem history_refines_registry_witness:
  "\<exists>w'. fst (fst (get_implicit_registration_set_for_impu sample_cache ''sip:b'' w')) = OK \<and>
    registry_of (ims_view (ref_ext, ref_contents) w') 2 =
      registry_put 100 first_irs (registry_of (ims_view (ref_ext, ref_contents) (empty_world 100)) 2)"
proof -
  let ?v = "ims_view (ref_ext, ref_contents)" and ?irs = "mark_as_refreshed first_irs"
  obtain w' where h: "site_history ref_ext ref_contents (ref_store 2) [Delete_op ?irs, Put_op first_irs] (empty_world 100) w'"
    using first_history by blast
  have id: "s_id (ref_store 2) = 2" "clock ref_ext (empty_world 100) = 100"
    "c_local sample_cache = impu_store_ops ref_ext (ref_store 2)" "c_clk sample_cache = time0 ref_ext" "c_remotes sample_cache = []"
    by (simp_all add: ref_store_def clock_def ref_ext_def empty_world_def sample_cache_def)
  have none: "mapped (?v (empty_world 100)) 2 = (\<lambda>_. {})"
    by (rule ext) (simp add: mapped_def sample_view)
  have empty: "registry_delete ?irs (registry_of (?v (empty_world 100)) 2) = registry_of (?v (empty_world 100)) 2"
    unfolding registry_delete_def registry_of_def none Let_def by (simp add: sample_view fun_eq_iff)
  let ?R = "registry_put 100 first_irs (registry_of (?v (empty_world 100)) 2)"
  have R: "?R = fold (registry_op (clock ref_ext (empty_world 100))) [Delete_op ?irs, Put_op first_irs]
      (registry_of (?v (empty_world 100)) (s_id (ref_store 2)))"
    by (simp add: id empty)
  have look: "registry_lookup ?R ''sip:b'' = Some (set_entry 100 first_irs)"
    by (simp add: registry_lookup_def registry_put_def Let_def written_impus_def impus_in_def get_elements_in_state_def
        two_irs set_entry_def irs_record_def create_impu_def get_associated_impus_def present_elements_def)
  have "readable_site (?v (empty_world 100)) (s_id (ref_store 2))"
    by (simp add: readable_site_def sample_view)
  from history_refines_registry [OF h ref_good this id(3-5) R, of "''sip:b''"] show ?thesis
    unfolding look id by (auto simp: prod_eq_iff)
qed

end
