(* ===== verification/Hss_Connection.thy ===== *)
theory Hss_Connection
  imports Reg_Data
begin

text \<open>
  The interface between the HTTP handlers and the HSS (\<open>include/hss_connection.h\<close>,
  \<open>src/hss_connection.cpp\<close>): result codes, the four requests and their answers. What the handlers
  rely on is the locale \<open>hss_connection\<close>; the Diameter and the Homestead-Prov connections
  interpret it.
\<close>

section \<open>Result codes and assignment types\<close>

datatype ResultCode =
    RC_SUCCESS | RC_SERVER_UNAVAILABLE | RC_NOT_FOUND | RC_FORBIDDEN | RC_TIMEOUT
  | RC_NEW_WILDCARD | RC_ASSIGNMENT_TYPE | RC_UNKNOWN_AUTH_SCHEME | RC_UNKNOWN

datatype ServerAssignmentType =
    NO_ASSIGNMENT | REGISTRATION | RE_REGISTRATION | UNREGISTERED_USER | TIMEOUT_DEREGISTRATION
  | USER_DEREGISTRATION | TIMEOUT_DEREGISTRATION_STORE_SERVER_NAME
  | USER_DEREGISTRATION_STORE_SERVER_NAME | ADMINISTRATIVE_DEREGISTRATION
  | AUTHENTICATION_FAILURE | AUTHENTICATION_TIMEOUT | DEREGISTRATION_TOO_MUCH_DATA

fun sat_value :: "ServerAssignmentType \<Rightarrow> int" where
  "sat_value NO_ASSIGNMENT = 0"
| "sat_value REGISTRATION = 1"
| "sat_value RE_REGISTRATION = 2"
| "sat_value UNREGISTERED_USER = 3"
| "sat_value TIMEOUT_DEREGISTRATION = 4"
| "sat_value USER_DEREGISTRATION = 5"
| "sat_value TIMEOUT_DEREGISTRATION_STORE_SERVER_NAME = 6"
| "sat_value USER_DEREGISTRATION_STORE_SERVER_NAME = 7"
| "sat_value ADMINISTRATIVE_DEREGISTRATION = 8"
| "sat_value AUTHENTICATION_FAILURE = 9"
| "sat_value AUTHENTICATION_TIMEOUT = 10"
| "sat_value DEREGISTRATION_TOO_MUCH_DATA = 11"

section \<open>Requests\<close>

record MultimediaAuthRequest =
  mar_impi :: string
  mar_impu :: string
  mar_server_name :: string
  mar_scheme :: string
  mar_authorization :: string

record UserAuthRequest =
  uar_impi :: string
  uar_impu :: string
  uar_visited_network :: string
  uar_authorization_type :: string
  uar_emergency :: bool

record LocationInfoRequest =
  lir_impu :: string
  lir_originating :: string
  lir_authorization_type :: string

record ServerAssignmentRequest =
  sar_impi :: string
  sar_impu :: string
  sar_server_name :: string
  sar_type :: ServerAssignmentType
  sar_support_shared_ifcs :: bool
  sar_wildcard_impu :: string

section \<open>Answers\<close>

text \<open>An \<open>AuthVector*\<close> is an option; the constructors with a result code alone are the \<open>_of_rc\<close> ones.\<close>

record MultimediaAuthAnswer =
  maa_result :: ResultCode
  maa_av :: "AuthVector option"
  maa_scheme :: string

record UserAuthAnswer =
  uaa_result :: ResultCode
  uaa_json_result :: int
  uaa_server :: string
  uaa_capabilities :: ServerCapabilities

record LocationInfoAnswer =
  lia_result :: ResultCode
  lia_json_result :: int
  lia_server :: string
  lia_capabilities :: ServerCapabilities
  lia_wildcard_impu :: string

record ServerAssignmentAnswer =
  saa_result :: ResultCode
  saa_charging :: ChargingAddresses
  saa_service_profile :: string
  saa_wildcard_impu :: string

definition maa_of_rc :: "ResultCode \<Rightarrow> MultimediaAuthAnswer" where
  "maa_of_rc rc = \<lparr>maa_result = rc, maa_av = None, maa_scheme = ''''\<rparr>"

definition uaa_of_rc :: "ResultCode \<Rightarrow> UserAuthAnswer" where
  "uaa_of_rc rc =
     \<lparr>uaa_result = rc, uaa_json_result = 0, uaa_server = '''', uaa_capabilities = no_capabilities\<rparr>"

definition lia_of_rc :: "ResultCode \<Rightarrow> LocationInfoAnswer" where
  "lia_of_rc rc =
     \<lparr>lia_result = rc, lia_json_result = 0, lia_server = '''', lia_capabilities = no_capabilities,
      lia_wildcard_impu = ''''\<rparr>"

definition saa_of_rc :: "ResultCode \<Rightarrow> ServerAssignmentAnswer" where
  "saa_of_rc rc =
     \<lparr>saa_result = rc, saa_charging = no_charging, saa_service_profile = '''', saa_wildcard_impu = ''''\<rparr>"

text \<open>The statics that \<open>configure_auth_schemes\<close> sets.\<close>

record auth_schemes =
  scheme_digest :: string
  scheme_akav1 :: string
  scheme_akav2 :: string

definition configure_auth_schemes :: "string \<Rightarrow> string \<Rightarrow> string \<Rightarrow> auth_schemes" where
  "configure_auth_schemes digest akav1 akav2 =
     \<lparr>scheme_digest = digest, scheme_akav1 = akav1, scheme_akav2 = akav2\<rparr>"

section \<open>The interface\<close>

text \<open>
  What a successful authentication answer holds. The handlers cast the pointer to the subclass the
  scheme stands for, digest first, so the vector has to be of that subclass.
\<close>

definition maa_typed :: "auth_schemes \<Rightarrow> MultimediaAuthAnswer \<Rightarrow> bool" where
  "maa_typed S maa \<longleftrightarrow>
     (maa_result maa = RC_SUCCESS \<longrightarrow>
       (if maa_scheme maa = scheme_digest S then \<exists>v. maa_av maa = Some (DigestAV v)
        else if maa_scheme maa = scheme_akav1 S \<or> maa_scheme maa = scheme_akav2 S
        then \<exists>v. maa_av maa = Some (AKAAV v)
        else False))"

text \<open>
  \<open>mar\<close>, \<open>uar\<close>, \<open>lir\<close> and \<open>sar\<close> are the answers to the requests, as functions of the request and
  of what the outside world sent back. A new wildcard comes only with the wildcard, the codes of
  the other transactions do not occur, and only a successful assignment carries data.
\<close>

locale hss_connection =
  fixes schemes :: auth_schemes
    and mar :: "MultimediaAuthRequest \<Rightarrow> 'r \<Rightarrow> MultimediaAuthAnswer"
    and uar :: "UserAuthRequest \<Rightarrow> 'r \<Rightarrow> UserAuthAnswer"
    and lir :: "LocationInfoRequest \<Rightarrow> 'r \<Rightarrow> LocationInfoAnswer"
    and sar :: "ServerAssignmentRequest \<Rightarrow> 'r \<Rightarrow> ServerAssignmentAnswer"
  assumes mar_typed: "maa_typed schemes (mar mreq r)"
    and mar_codes: "maa_result (mar mreq r) \<in>
          {RC_SUCCESS, RC_SERVER_UNAVAILABLE, RC_NOT_FOUND, RC_TIMEOUT, RC_UNKNOWN_AUTH_SCHEME, RC_UNKNOWN}"
    and uar_json: "uaa_result (uar ureq r) = RC_SUCCESS \<Longrightarrow> uaa_json_result (uar ureq r) \<noteq> 0"
    and uar_codes: "uaa_result (uar ureq r) \<in>
          {RC_SUCCESS, RC_SERVER_UNAVAILABLE, RC_NOT_FOUND, RC_FORBIDDEN, RC_TIMEOUT, RC_UNKNOWN}"
    and lir_json: "lia_result (lir lreq r) = RC_SUCCESS \<Longrightarrow> lia_json_result (lir lreq r) \<noteq> 0"
    and lir_codes: "lia_result (lir lreq r) \<in>
          {RC_SUCCESS, RC_SERVER_UNAVAILABLE, RC_NOT_FOUND, RC_TIMEOUT, RC_UNKNOWN}"
    and sar_wildcard: "saa_result (sar sreq r) = RC_NEW_WILDCARD \<longleftrightarrow> saa_wildcard_impu (sar sreq r) \<noteq> ''''"
    and sar_codes: "saa_result (sar sreq r) \<in>
          {RC_SUCCESS, RC_SERVER_UNAVAILABLE, RC_NOT_FOUND, RC_NEW_WILDCARD, RC_TIMEOUT, RC_UNKNOWN}"
    and sar_data: "saa_result (sar sreq r) \<noteq> RC_SUCCESS \<Longrightarrow>
          saa_service_profile (sar sreq r) = '''' \<and> saa_charging (sar sreq r) = no_charging"

end
