(* ===== verification/Cx_Messages.thy ===== *)
theory Cx_Messages
  imports Hss_Connection
begin

text \<open>
  The Cx messages of \<open>src/cx.cpp\<close> and \<open>include/cx.h\<close>: the constructors, as the AVPs they add in
  order, and the accessors. The Diameter stack of cpp-common is a parameter: the accessors read a
  received message or AVP through \<open>diameter_api\<close>, and \<open>diameter_contract\<close> states what a received
  message has to do with the one that was built. The results are the round trips between the
  constructors and the accessors, and where the constructors lose or overrun the event charging
  functions.
\<close>

section \<open>The Diameter library\<close>

text \<open>The AVPs of the base dictionary and of \<open>Cx::Dictionary\<close> that the program names.\<close>

datatype avp_name =
    AVP_AUTH_SESSION_STATE | AVP_DESTINATION_HOST | AVP_DESTINATION_REALM | AVP_USER_NAME
  | AVP_RESULT_CODE | AVP_EXPERIMENTAL_RESULT | AVP_EXPERIMENTAL_RESULT_CODE
  | AVP_DIGEST_HA1 | AVP_DIGEST_REALM | AVP_DIGEST_QOP
  | AVP_PUBLIC_IDENTITY | AVP_SIP_AUTH_DATA_ITEM | AVP_SIP_AUTH_SCHEME | AVP_SIP_AUTHORIZATION
  | AVP_SIP_NUMBER_AUTH_ITEMS | AVP_SERVER_NAME | AVP_SIP_DIGEST_AUTHENTICATE
  | AVP_CX_DIGEST_HA1 | AVP_CX_DIGEST_REALM | AVP_VISITED_NETWORK_IDENTIFIER
  | AVP_SERVER_CAPABILITIES | AVP_MANDATORY_CAPABILITY | AVP_OPTIONAL_CAPABILITY
  | AVP_SERVER_ASSIGNMENT_TYPE | AVP_USER_AUTHORIZATION_TYPE | AVP_ORIGINATING_REQUEST
  | AVP_USER_DATA_ALREADY_AVAILABLE | AVP_USER_DATA | AVP_CX_DIGEST_QOP | AVP_SIP_AUTHENTICATE
  | AVP_CONFIDENTIALITY_KEY | AVP_INTEGRITY_KEY | AVP_ASSOCIATED_IDENTITIES
  | AVP_DEREGISTRATION_REASON | AVP_REASON_CODE | AVP_CHARGING_INFORMATION
  | AVP_PRIMARY_CCF_NAME | AVP_SECONDARY_CCF_NAME | AVP_PRIMARY_ECF_NAME | AVP_SECONDARY_ECF_NAME
  | AVP_SUPPORTED_FEATURES | AVP_VENDOR_ID | AVP_FEATURE_LIST_ID | AVP_FEATURE_LIST
  | AVP_WILDCARDED_PUBLIC_IDENTITY | AVP_UAR_FLAGS

datatype command =
    USER_AUTHORIZATION_REQUEST | USER_AUTHORIZATION_ANSWER | LOCATION_INFO_REQUEST
  | MULTIMEDIA_AUTH_REQUEST | MULTIMEDIA_AUTH_ANSWER | SERVER_ASSIGNMENT_REQUEST
  | SERVER_ASSIGNMENT_ANSWER | REGISTRATION_TERMINATION_REQUEST | PUSH_PROFILE_REQUEST

text \<open>
  A message that is being built: the calls made on it. \<open>Session_Id\<close>, \<open>App_Id\<close> and \<open>Origin\<close> are
  \<open>add_new_session_id\<close>, \<open>add_app_id\<close> for Cx and \<open>add_origin\<close>; \<open>Set_Result_Code\<close> and \<open>Add\<close> are the
  methods of these names. A message is made for a command, or by \<open>build_response\<close> from a request.
\<close>

datatype avp = Avp (avp_code: avp_name) avp_value
and avp_value = ValStr string | ValI32 int | ValU32 int | Group "avp list"

datatype part = Session_Id | App_Id | Origin | Set_Result_Code string | Add avp

datatype 'm message = Message command "part list" | Response 'm "part list"

text \<open>
  A received message, or one of its AVPs, has the type \<open>'m\<close>. \<open>dm_begin m n\<close> are the AVPs that the
  iterator \<open>begin(n)\<close> visits before \<open>end()\<close>; the \<open>dm_val\<close> fields read an AVP; \<open>dm_get_str\<close> and its
  companions are \<open>get_str_from_avp\<close> and so on, \<open>None\<close> for \<open>false\<close>; \<open>dm_result_code\<close> and
  \<open>dm_experimental_result\<close> are the accessors of \<open>Diameter::Message\<close>, the latter with the code and
  the vendor. \<open>base64_encode\<close> and \<open>hex\<close> are cpp-common's.
\<close>

record 'm diameter_api =
  dm_begin :: "'m \<Rightarrow> avp_name \<Rightarrow> 'm list"
  dm_val_str :: "'m \<Rightarrow> string"
  dm_val_i32 :: "'m \<Rightarrow> int"
  dm_val_u32 :: "'m \<Rightarrow> int"
  dm_val_os :: "'m \<Rightarrow> string"
  dm_get_str :: "'m \<Rightarrow> avp_name \<Rightarrow> string option"
  dm_get_i32 :: "'m \<Rightarrow> avp_name \<Rightarrow> int option"
  dm_get_u32 :: "'m \<Rightarrow> avp_name \<Rightarrow> int option"
  dm_result_code :: "'m \<Rightarrow> int option"
  dm_experimental_result :: "'m \<Rightarrow> (int \<times> int) option"
  dm_impi :: "'m \<Rightarrow> string"
  dm_auth_session_state :: "'m \<Rightarrow> int"
  base64_encode :: "string \<Rightarrow> string"
  hex :: "string \<Rightarrow> string"

definition dm_first :: "'m diameter_api \<Rightarrow> 'm \<Rightarrow> avp_name \<Rightarrow> 'm option" where
  "dm_first D m n = (case dm_begin D m n of [] \<Rightarrow> None | a # _ \<Rightarrow> Some a)"

section \<open>Parts the constructors share\<close>

definition str_avp :: "avp_name \<Rightarrow> string \<Rightarrow> avp" where
  "str_avp n s = Avp n (ValStr s)"

definition i32_avp :: "avp_name \<Rightarrow> int \<Rightarrow> avp" where
  "i32_avp n i = Avp n (ValI32 i)"

definition add_if :: "bool \<Rightarrow> 'a list \<Rightarrow> 'a list" where
  "add_if b xs = (if b then xs else [])"

text \<open>The result of an answer: the result code, or the experimental result when it is zero.\<close>

definition result_avp :: "int \<Rightarrow> int \<Rightarrow> int \<Rightarrow> avp" where
  "result_avp result_code vendor_id experimental_result_code =
     (if result_code \<noteq> 0 then i32_avp AVP_RESULT_CODE result_code
      else Avp AVP_EXPERIMENTAL_RESULT
        (Group [Avp AVP_VENDOR_ID (ValU32 vendor_id),
                i32_avp AVP_EXPERIMENTAL_RESULT_CODE experimental_result_code]))"

text \<open>The multimedia-auth and server-assignment answers add the two in the other order.\<close>

definition result_avp' :: "int \<Rightarrow> int \<Rightarrow> int \<Rightarrow> avp" where
  "result_avp' result_code vendor_id experimental_result_code =
     (if result_code \<noteq> 0 then i32_avp AVP_RESULT_CODE result_code
      else Avp AVP_EXPERIMENTAL_RESULT
        (Group [i32_avp AVP_EXPERIMENTAL_RESULT_CODE experimental_result_code,
                Avp AVP_VENDOR_ID (ValU32 vendor_id)]))"

definition capabilities_avp :: "ServerCapabilities \<Rightarrow> avp" where
  "capabilities_avp capabs =
     Avp AVP_SERVER_CAPABILITIES (Group
       (add_if (cap_server_name capabs \<noteq> '''') [str_avp AVP_SERVER_NAME (cap_server_name capabs)] @
        map (i32_avp AVP_MANDATORY_CAPABILITY) (mandatory_capabilities capabs) @
        map (i32_avp AVP_OPTIONAL_CAPABILITY) (optional_capabilities capabs)))"

text \<open>
  The Charging-Information of a server-assignment answer and of a push-profile request. The
  secondary event charging function is guarded by the number of collection functions, so
  \<open>ecfs[1]\<close> may be read where there is none: that is undefined behaviour, and \<open>None\<close> here.
\<close>

definition charging_avp :: "ChargingAddresses \<Rightarrow> avp option" where
  "charging_avp c =
     (if 1 < length (ccfs c) \<and> \<not> 1 < length (ecfs c) then None
      else Some (Avp AVP_CHARGING_INFORMATION (Group
        (add_if (ccfs c \<noteq> []) [str_avp AVP_PRIMARY_CCF_NAME (ccfs c ! 0)] @
         add_if (1 < length (ccfs c)) [str_avp AVP_SECONDARY_CCF_NAME (ccfs c ! 1)] @
         add_if (ecfs c \<noteq> []) [str_avp AVP_PRIMARY_ECF_NAME (ecfs c ! 0)] @
         add_if (1 < length (ccfs c)) [str_avp AVP_SECONDARY_ECF_NAME (ecfs c ! 1)]))))"

definition request_head :: "string \<Rightarrow> string \<Rightarrow> part list" where
  "request_head dest_host dest_realm =
     [Session_Id, App_Id, Add (i32_avp AVP_AUTH_SESSION_STATE 1), Origin] @
     add_if (dest_host \<noteq> '''') [Add (str_avp AVP_DESTINATION_HOST dest_host)] @
     [Add (str_avp AVP_DESTINATION_REALM dest_realm)]"

section \<open>User-Authorization and Location-Info\<close>

definition cx_UserAuthorizationRequest ::
  "string \<Rightarrow> string \<Rightarrow> string \<Rightarrow> string \<Rightarrow> string \<Rightarrow> string \<Rightarrow> bool \<Rightarrow> 'm message" where
  "cx_UserAuthorizationRequest dest_host dest_realm impi impu visited_network authorization_type emergency =
     Message USER_AUTHORIZATION_REQUEST
       (request_head dest_host dest_realm @
        [Add (str_avp AVP_USER_NAME impi), Add (str_avp AVP_PUBLIC_IDENTITY impu),
         Add (str_avp AVP_VISITED_NETWORK_IDENTIFIER visited_network),
         Add (i32_avp AVP_USER_AUTHORIZATION_TYPE
           (if authorization_type = ''DEREG'' then 1 else if authorization_type = ''CAPAB'' then 2 else 0))] @
        add_if emergency [Add (Avp AVP_UAR_FLAGS (ValU32 1))])"

definition cx_UserAuthorizationAnswer ::
  "int \<Rightarrow> int \<Rightarrow> int \<Rightarrow> string \<Rightarrow> ServerCapabilities \<Rightarrow> 'm message" where
  "cx_UserAuthorizationAnswer result_code vendor_id experimental_result_code server_name capabs =
     Message USER_AUTHORIZATION_ANSWER
       ([Add (result_avp result_code vendor_id experimental_result_code)] @
        add_if (server_name \<noteq> '''') [Add (str_avp AVP_SERVER_NAME server_name)] @
        [Add (capabilities_avp capabs)])"

text \<open>\<open>server_capabilities()\<close> of both answers.\<close>

definition cx_server_capabilities :: "'m diameter_api \<Rightarrow> 'm \<Rightarrow> ServerCapabilities" where
  "cx_server_capabilities D m =
     (case dm_first D m AVP_SERVER_CAPABILITIES of
        None \<Rightarrow> no_capabilities
      | Some a \<Rightarrow>
          \<lparr>mandatory_capabilities = map (dm_val_i32 D) (dm_begin D a AVP_MANDATORY_CAPABILITY),
           optional_capabilities = map (dm_val_i32 D) (dm_begin D a AVP_OPTIONAL_CAPABILITY),
           cap_server_name = (case dm_first D a AVP_SERVER_NAME of
             None \<Rightarrow> '''' | Some n \<Rightarrow> dm_val_str D n)\<rparr>)"

definition cx_LocationInfoRequest ::
  "string \<Rightarrow> string \<Rightarrow> string \<Rightarrow> string \<Rightarrow> string \<Rightarrow> 'm message" where
  "cx_LocationInfoRequest dest_host dest_realm originating_request impu authorization_type =
     Message LOCATION_INFO_REQUEST
       (request_head dest_host dest_realm @
        add_if (originating_request = ''true'') [Add (i32_avp AVP_ORIGINATING_REQUEST 0)] @
        [Add (str_avp AVP_PUBLIC_IDENTITY impu)] @
        add_if (authorization_type = ''CAPAB'') [Add (i32_avp AVP_USER_AUTHORIZATION_TYPE 2)])"

text \<open>The location-info answer is made for the command of the user-authorization answer.\<close>

definition cx_LocationInfoAnswer ::
  "int \<Rightarrow> int \<Rightarrow> int \<Rightarrow> string \<Rightarrow> ServerCapabilities \<Rightarrow> string \<Rightarrow> 'm message" where
  "cx_LocationInfoAnswer result_code vendor_id experimental_result_code server_name capabs wildcard =
     Message USER_AUTHORIZATION_ANSWER
       ([Add (result_avp result_code vendor_id experimental_result_code)] @
        add_if (server_name \<noteq> '''') [Add (str_avp AVP_SERVER_NAME server_name)] @
        [Add (capabilities_avp capabs)] @
        add_if (wildcard \<noteq> '''') [Add (str_avp AVP_WILDCARDED_PUBLIC_IDENTITY wildcard)])"

section \<open>Multimedia-Auth\<close>

definition cx_MultimediaAuthRequest ::
  "string \<Rightarrow> string \<Rightarrow> string \<Rightarrow> string \<Rightarrow> string \<Rightarrow> string \<Rightarrow> string \<Rightarrow> 'm message" where
  "cx_MultimediaAuthRequest dest_realm dest_host impi impu server_name sip_auth_scheme sip_authorization =
     Message MULTIMEDIA_AUTH_REQUEST
       ([Session_Id, App_Id, Add (i32_avp AVP_AUTH_SESSION_STATE 1),
         Add (str_avp AVP_DESTINATION_REALM dest_realm)] @
        add_if (dest_host \<noteq> '''') [Add (str_avp AVP_DESTINATION_HOST dest_host)] @
        [Origin, Add (str_avp AVP_USER_NAME impi), Add (str_avp AVP_PUBLIC_IDENTITY impu),
         Add (Avp AVP_SIP_AUTH_DATA_ITEM (Group
           ([str_avp AVP_SIP_AUTH_SCHEME sip_auth_scheme] @
            add_if (sip_authorization \<noteq> '''') [str_avp AVP_SIP_AUTHORIZATION sip_authorization]))),
         Add (i32_avp AVP_SIP_NUMBER_AUTH_ITEMS 1),
         Add (str_avp AVP_SERVER_NAME server_name)])"

text \<open>A string AVP inside the SIP-Auth-Data-Item, empty when there is none.\<close>

definition auth_item_str :: "'m diameter_api \<Rightarrow> 'm \<Rightarrow> avp_name \<Rightarrow> string" where
  "auth_item_str D m n =
     (case dm_first D m AVP_SIP_AUTH_DATA_ITEM of
        None \<Rightarrow> ''''
      | Some a \<Rightarrow> (case dm_first D a n of None \<Rightarrow> '''' | Some v \<Rightarrow> dm_val_str D v))"

definition cx_sip_auth_scheme :: "'m diameter_api \<Rightarrow> 'm \<Rightarrow> string" where
  "cx_sip_auth_scheme D m = auth_item_str D m AVP_SIP_AUTH_SCHEME"

definition cx_sip_authorization :: "'m diameter_api \<Rightarrow> 'm \<Rightarrow> string" where
  "cx_sip_authorization D m = auth_item_str D m AVP_SIP_AUTHORIZATION"

definition cx_MultimediaAuthAnswer ::
  "int \<Rightarrow> int \<Rightarrow> int \<Rightarrow> string \<Rightarrow> DigestAuthVector \<Rightarrow> AKAAuthVector \<Rightarrow> 'm message" where
  "cx_MultimediaAuthAnswer result_code vendor_id experimental_result_code scheme digest_av aka_av =
     Message MULTIMEDIA_AUTH_ANSWER
       [Add (result_avp' result_code vendor_id experimental_result_code),
        Add (Avp AVP_SIP_AUTH_DATA_ITEM (Group
          (add_if (scheme \<noteq> '''') [str_avp AVP_SIP_AUTH_SCHEME scheme] @
           [Avp AVP_SIP_DIGEST_AUTHENTICATE (Group
              [str_avp AVP_CX_DIGEST_HA1 (ha1 digest_av), str_avp AVP_CX_DIGEST_REALM (realm digest_av),
               str_avp AVP_CX_DIGEST_QOP (qop digest_av)]),
            str_avp AVP_SIP_AUTHENTICATE (challenge aka_av),
            str_avp AVP_SIP_AUTHORIZATION (response aka_av),
            str_avp AVP_CONFIDENTIALITY_KEY (crypt_key aka_av),
            str_avp AVP_INTEGRITY_KEY (integrity_key aka_av)])))]"

text \<open>
  One member of the digest: the 3GPP AVP, else the AVP of the base dictionary that some HSSs use,
  else the empty string of the new vector.
\<close>

definition digest_member :: "'m diameter_api \<Rightarrow> 'm \<Rightarrow> avp_name \<Rightarrow> avp_name \<Rightarrow> string" where
  "digest_member D a n1 n2 =
     (case dm_first D a n1 of
        Some v \<Rightarrow> dm_val_str D v
      | None \<Rightarrow> (case dm_first D a n2 of Some v \<Rightarrow> dm_val_str D v | None \<Rightarrow> ''''))"

definition cx_digest_auth_vector :: "'m diameter_api \<Rightarrow> 'm \<Rightarrow> DigestAuthVector" where
  "cx_digest_auth_vector D m =
     (case dm_first D m AVP_SIP_AUTH_DATA_ITEM of
        None \<Rightarrow> new_DigestAuthVector
      | Some item \<Rightarrow>
          (case dm_first D item AVP_SIP_DIGEST_AUTHENTICATE of
             None \<Rightarrow> new_DigestAuthVector
           | Some a \<Rightarrow>
               \<lparr>ha1 = digest_member D a AVP_CX_DIGEST_HA1 AVP_DIGEST_HA1,
                realm = digest_member D a AVP_CX_DIGEST_REALM AVP_DIGEST_REALM,
                qop = digest_member D a AVP_CX_DIGEST_QOP AVP_DIGEST_QOP\<rparr>))"

definition aka_member :: "'m diameter_api \<Rightarrow> (string \<Rightarrow> string) \<Rightarrow> 'm \<Rightarrow> avp_name \<Rightarrow> string" where
  "aka_member D encode item n =
     (case dm_first D item n of None \<Rightarrow> '''' | Some v \<Rightarrow> encode (dm_val_os D v))"

definition cx_aka_auth_vector :: "'m diameter_api \<Rightarrow> 'm \<Rightarrow> AKAAuthVector" where
  "cx_aka_auth_vector D m =
     (case dm_first D m AVP_SIP_AUTH_DATA_ITEM of
        None \<Rightarrow> new_AKAAuthVector
      | Some item \<Rightarrow>
          new_AKAAuthVector
            \<lparr>challenge := aka_member D (base64_encode D) item AVP_SIP_AUTHENTICATE,
             response := aka_member D (hex D) item AVP_SIP_AUTHORIZATION,
             crypt_key := aka_member D (hex D) item AVP_CONFIDENTIALITY_KEY,
             integrity_key := aka_member D (hex D) item AVP_INTEGRITY_KEY\<rparr>)"

definition cx_akav2_auth_vector :: "'m diameter_api \<Rightarrow> 'm \<Rightarrow> AKAAuthVector" where
  "cx_akav2_auth_vector D m = (cx_aka_auth_vector D m)\<lparr>version := 2\<rparr>"

section \<open>Server-Assignment\<close>

fun include_wildcard_on_sar :: "ServerAssignmentType \<Rightarrow> bool" where
  "include_wildcard_on_sar UNREGISTERED_USER = True"
| "include_wildcard_on_sar NO_ASSIGNMENT = True"
| "include_wildcard_on_sar TIMEOUT_DEREGISTRATION_STORE_SERVER_NAME = True"
| "include_wildcard_on_sar ADMINISTRATIVE_DEREGISTRATION = True"
| "include_wildcard_on_sar DEREGISTRATION_TOO_MUCH_DATA = True"
| "include_wildcard_on_sar TIMEOUT_DEREGISTRATION = True"
| "include_wildcard_on_sar _ = False"

definition cx_ServerAssignmentRequest ::
  "string \<Rightarrow> string \<Rightarrow> string \<Rightarrow> string \<Rightarrow> string \<Rightarrow> ServerAssignmentType \<Rightarrow> bool \<Rightarrow> string \<Rightarrow>
     'm message" where
  "cx_ServerAssignmentRequest dest_host dest_realm impi impu server_name type support_shared_ifcs wildcard =
     Message SERVER_ASSIGNMENT_REQUEST
       (request_head dest_host dest_realm @
        add_if (impi \<noteq> '''') [Add (str_avp AVP_USER_NAME impi)] @
        [Add (str_avp AVP_PUBLIC_IDENTITY impu), Add (str_avp AVP_SERVER_NAME server_name),
         Add (i32_avp AVP_SERVER_ASSIGNMENT_TYPE (sat_value type)),
         Add (i32_avp AVP_USER_DATA_ALREADY_AVAILABLE 0)] @
        add_if (wildcard \<noteq> '''' \<and> include_wildcard_on_sar type)
          [Add (str_avp AVP_WILDCARDED_PUBLIC_IDENTITY wildcard)] @
        add_if support_shared_ifcs
          [Add (Avp AVP_SUPPORTED_FEATURES (Group
             [Avp AVP_VENDOR_ID (ValU32 10415), Avp AVP_FEATURE_LIST_ID (ValU32 1),
              Avp AVP_FEATURE_LIST (ValU32 1)]))])"

definition cx_ServerAssignmentAnswer ::
  "int \<Rightarrow> int \<Rightarrow> int \<Rightarrow> string \<Rightarrow> ChargingAddresses \<Rightarrow> string \<Rightarrow> 'm message option" where
  "cx_ServerAssignmentAnswer result_code vendor_id experimental_result_code ims_subscription charging wildcard =
     do {
       info \<leftarrow> (if charging_empty charging then Some []
               else map_option (\<lambda>a. [Add a]) (charging_avp charging));
       Some (Message SERVER_ASSIGNMENT_ANSWER
         ([Add (result_avp' result_code vendor_id experimental_result_code),
           Add (str_avp AVP_USER_DATA ims_subscription)] @ info @
          add_if (wildcard \<noteq> '''') [Add (str_avp AVP_WILDCARDED_PUBLIC_IDENTITY wildcard)]))
     }"

text \<open>
  The addresses in a Charging-Information AVP: each name that is present is pushed back, primary
  before secondary.
\<close>

definition read_names :: "'m diameter_api \<Rightarrow> 'm \<Rightarrow> avp_name \<Rightarrow> avp_name \<Rightarrow> string list" where
  "read_names D info primary secondary =
     (case dm_first D info primary of None \<Rightarrow> [] | Some v \<Rightarrow> [dm_val_str D v]) @
     (case dm_first D info secondary of None \<Rightarrow> [] | Some v \<Rightarrow> [dm_val_str D v])"

definition read_charging :: "'m diameter_api \<Rightarrow> 'm \<Rightarrow> ChargingAddresses" where
  "read_charging D info =
     \<lparr>ccfs = read_names D info AVP_PRIMARY_CCF_NAME AVP_SECONDARY_CCF_NAME,
      ecfs = read_names D info AVP_PRIMARY_ECF_NAME AVP_SECONDARY_ECF_NAME\<rparr>"

definition cx_saa_charging_addrs :: "'m diameter_api \<Rightarrow> 'm \<Rightarrow> ChargingAddresses" where
  "cx_saa_charging_addrs D m =
     (case dm_first D m AVP_CHARGING_INFORMATION of
        None \<Rightarrow> no_charging
      | Some info \<Rightarrow> read_charging D info)"

section \<open>Registration-Termination\<close>

definition associated_identities_part :: "string list \<Rightarrow> part list" where
  "associated_identities_part identities =
     add_if (identities \<noteq> [])
       [Add (Avp AVP_ASSOCIATED_IDENTITIES (Group (map (str_avp AVP_USER_NAME) identities)))]"

definition cx_RegistrationTerminationRequest ::
  "int \<Rightarrow> string \<Rightarrow> string list \<Rightarrow> string list \<Rightarrow> int \<Rightarrow> 'm message" where
  "cx_RegistrationTerminationRequest deregistration_reason impi associated_identities impus auth_session_state =
     Message REGISTRATION_TERMINATION_REQUEST
       ([Add (i32_avp AVP_AUTH_SESSION_STATE auth_session_state), Add (str_avp AVP_USER_NAME impi)] @
        associated_identities_part associated_identities @
        map (\<lambda>impu. Add (str_avp AVP_PUBLIC_IDENTITY impu)) impus @
        [Add (Avp AVP_DEREGISTRATION_REASON (Group [i32_avp AVP_REASON_CODE deregistration_reason]))])"

definition cx_associated_identities :: "'m diameter_api \<Rightarrow> 'm \<Rightarrow> string list" where
  "cx_associated_identities D m =
     (case dm_first D m AVP_ASSOCIATED_IDENTITIES of
        None \<Rightarrow> []
      | Some a \<Rightarrow> map (dm_val_str D) (dm_begin D a AVP_USER_NAME))"

definition cx_impus :: "'m diameter_api \<Rightarrow> 'm \<Rightarrow> string list" where
  "cx_impus D m = map (dm_val_str D) (dm_begin D m AVP_PUBLIC_IDENTITY)"

definition cx_deregistration_reason :: "'m diameter_api \<Rightarrow> 'm \<Rightarrow> int" where
  "cx_deregistration_reason D m =
     (case dm_first D m AVP_DEREGISTRATION_REASON of
        None \<Rightarrow> 0
      | Some a \<Rightarrow> (case dm_first D a AVP_REASON_CODE of None \<Rightarrow> 0 | Some v \<Rightarrow> dm_val_i32 D v))"

definition cx_RegistrationTerminationAnswer ::
  "'m \<Rightarrow> string \<Rightarrow> int \<Rightarrow> string list \<Rightarrow> 'm message" where
  "cx_RegistrationTerminationAnswer rtr result_code auth_session_state associated_identities =
     Response rtr
       ([App_Id, Set_Result_Code result_code, Add (i32_avp AVP_AUTH_SESSION_STATE auth_session_state)] @
        associated_identities_part associated_identities)"

section \<open>Push-Profile\<close>

definition cx_PushProfileRequest ::
  "string \<Rightarrow> string \<Rightarrow> ChargingAddresses \<Rightarrow> int \<Rightarrow> 'm message option" where
  "cx_PushProfileRequest impi ims_subscription charging auth_session_state =
     do {
       info \<leftarrow> (if charging_empty charging then Some []
               else map_option (\<lambda>a. [Add a]) (charging_avp charging));
       Some (Message PUSH_PROFILE_REQUEST
         ([Add (str_avp AVP_USER_NAME impi)] @
          add_if (ims_subscription \<noteq> '''') [Add (str_avp AVP_USER_DATA ims_subscription)] @
          [Add (i32_avp AVP_AUTH_SESSION_STATE auth_session_state)] @ info))
     }"

text \<open>Whether there is charging information, and the addresses afterwards.\<close>

definition cx_ppr_charging_addrs :: "'m diameter_api \<Rightarrow> 'm \<Rightarrow> bool \<times> ChargingAddresses" where
  "cx_ppr_charging_addrs D m =
     (case dm_first D m AVP_CHARGING_INFORMATION of
        None \<Rightarrow> (False, no_charging)
      | Some info \<Rightarrow> (True, read_charging D info))"

definition cx_PushProfileAnswer :: "'m \<Rightarrow> string \<Rightarrow> int \<Rightarrow> 'm message" where
  "cx_PushProfileAnswer ppr result_code auth_session_state =
     Response ppr
       [App_Id, Set_Result_Code result_code, Add (i32_avp AVP_AUTH_SESSION_STATE auth_session_state)]"

section \<open>Accessors that read one AVP\<close>

text \<open>\<open>impu()\<close> returns the empty string when the AVP is missing; the others report it.\<close>

definition cx_impu :: "'m diameter_api \<Rightarrow> 'm \<Rightarrow> string" where
  "cx_impu D m = (case dm_get_str D m AVP_PUBLIC_IDENTITY of None \<Rightarrow> '''' | Some s \<Rightarrow> s)"

definition cx_server_name :: "'m diameter_api \<Rightarrow> 'm \<Rightarrow> string option" where
  "cx_server_name D m = dm_get_str D m AVP_SERVER_NAME"

definition cx_user_data :: "'m diameter_api \<Rightarrow> 'm \<Rightarrow> string option" where
  "cx_user_data D m = dm_get_str D m AVP_USER_DATA"

definition cx_wildcarded_public_identity :: "'m diameter_api \<Rightarrow> 'm \<Rightarrow> string option" where
  "cx_wildcarded_public_identity D m = dm_get_str D m AVP_WILDCARDED_PUBLIC_IDENTITY"

definition cx_server_assignment_type :: "'m diameter_api \<Rightarrow> 'm \<Rightarrow> int option" where
  "cx_server_assignment_type D m = dm_get_i32 D m AVP_SERVER_ASSIGNMENT_TYPE"

definition cx_visited_network :: "'m diameter_api \<Rightarrow> 'm \<Rightarrow> string option" where
  "cx_visited_network D m = dm_get_str D m AVP_VISITED_NETWORK_IDENTIFIER"

definition cx_auth_type :: "'m diameter_api \<Rightarrow> 'm \<Rightarrow> int option" where
  "cx_auth_type D m = dm_get_i32 D m AVP_USER_AUTHORIZATION_TYPE"

definition cx_uar_flags :: "'m diameter_api \<Rightarrow> 'm \<Rightarrow> int option" where
  "cx_uar_flags D m = dm_get_u32 D m AVP_UAR_FLAGS"

definition cx_originating :: "'m diameter_api \<Rightarrow> 'm \<Rightarrow> int option" where
  "cx_originating D m = dm_get_i32 D m AVP_ORIGINATING_REQUEST"

definition cx_sip_number_auth_items :: "'m diameter_api \<Rightarrow> 'm \<Rightarrow> int option" where
  "cx_sip_number_auth_items D m = dm_get_i32 D m AVP_SIP_NUMBER_AUTH_ITEMS"

definition cx_user_data_already_available :: "'m diameter_api \<Rightarrow> 'm \<Rightarrow> int option" where
  "cx_user_data_already_available D m = dm_get_i32 D m AVP_USER_DATA_ALREADY_AVAILABLE"

lemmas accessor_defs = cx_impu_def cx_server_name_def cx_server_assignment_type_def
  cx_wildcarded_public_identity_def cx_visited_network_def cx_auth_type_def cx_uar_flags_def cx_originating_def
  cx_sip_auth_scheme_def cx_sip_authorization_def auth_item_str_def cx_sip_number_auth_items_def
  cx_user_data_already_available_def

section \<open>What a received message has to do with the one that was built\<close>

text \<open>
  \<open>received\<close> is the received form of a message that was built and \<open>node\<close> that of one of its
  AVPs. Iterating over the AVPs with a name gives those that were added under it, in the order of
  the calls, and the value accessors give what was put in. For a response this is so for the AVPs
  the stack does not add itself.
\<close>

fun added :: "part list \<Rightarrow> avp list" where
  "added [] = []"
| "added (Add a # ps) = a # added ps"
| "added (_ # ps) = added ps"

fun parts :: "'m message \<Rightarrow> part list" where
  "parts (Message c ps) = ps"
| "parts (Response m ps) = ps"

definition int32 :: "int \<Rightarrow> bool" where
  "int32 i \<longleftrightarrow> - 2147483648 \<le> i \<and> i < 2147483648"

definition stack_avps :: "avp_name set" where
  "stack_avps = {AVP_RESULT_CODE, AVP_USER_NAME, AVP_AUTH_SESSION_STATE}"

definition diameter_contract :: "'m diameter_api \<Rightarrow> ('m message \<Rightarrow> 'm) \<Rightarrow> (avp \<Rightarrow> 'm) \<Rightarrow> bool" where
  "diameter_contract D received node \<longleftrightarrow>
     (\<forall>c ps n. dm_begin D (received (Message c ps)) n =
        map node (filter (\<lambda>a. avp_code a = n) (added ps))) \<and>
     (\<forall>m ps n. n \<notin> stack_avps \<longrightarrow> dm_begin D (received (Response m ps)) n =
        map node (filter (\<lambda>a. avp_code a = n) (added ps))) \<and>
     (\<forall>g as n. dm_begin D (node (Avp g (Group as))) n = map node (filter (\<lambda>a. avp_code a = n) as)) \<and>
     (\<forall>n s. dm_val_str D (node (Avp n (ValStr s))) = s) \<and>
     (\<forall>n s. dm_val_os D (node (Avp n (ValStr s))) = s) \<and>
     (\<forall>n i. int32 i \<longrightarrow> dm_val_i32 D (node (Avp n (ValI32 i))) = i) \<and>
     (\<forall>m n. dm_get_str D m n = map_option (dm_val_str D) (dm_first D m n)) \<and>
     (\<forall>m n. dm_get_i32 D m n = map_option (dm_val_i32 D) (dm_first D m n)) \<and>
     (\<forall>m n. dm_get_u32 D m n = map_option (dm_val_u32 D) (dm_first D m n)) \<and>
     (\<forall>n i. 0 \<le> i \<and> i < 4294967296 \<longrightarrow> dm_val_u32 D (node (Avp n (ValU32 i))) = i) \<and>
     (\<forall>m. dm_result_code D m = dm_get_i32 D m AVP_RESULT_CODE) \<and>
     (\<forall>m. dm_first D m AVP_EXPERIMENTAL_RESULT = None \<longrightarrow> dm_experimental_result D m = None) \<and>
     (\<forall>m a c v. dm_first D m AVP_EXPERIMENTAL_RESULT = Some a \<and>
        dm_first D a AVP_EXPERIMENTAL_RESULT_CODE = Some c \<and> dm_first D a AVP_VENDOR_ID = Some v \<longrightarrow>
        dm_experimental_result D m = Some (dm_val_i32 D c, dm_val_u32 D v))"

lemma diameter_contractD:
  assumes "diameter_contract D received node"
  shows begin_received: "dm_begin D (received (Message c ps)) n = map node (filter (\<lambda>a. avp_code a = n) (added ps))"
    and begin_response: "n \<notin> stack_avps \<Longrightarrow>
      dm_begin D (received (Response m ps)) n = map node (filter (\<lambda>a. avp_code a = n) (added ps))"
    and begin_node: "dm_begin D (node (Avp g (Group as))) n = map node (filter (\<lambda>a. avp_code a = n) as)"
    and val_str_node: "dm_val_str D (node (str_avp k s)) = s"
    and val_os_node: "dm_val_os D (node (str_avp k s)) = s"
    and val_i32_node: "int32 i \<Longrightarrow> dm_val_i32 D (node (i32_avp k i)) = i"
    and get_str: "dm_get_str D m n = map_option (dm_val_str D) (dm_first D m n)"
    and get_i32: "dm_get_i32 D m n = map_option (dm_val_i32 D) (dm_first D m n)"
    and get_u32: "dm_get_u32 D m n = map_option (dm_val_u32 D) (dm_first D m n)"
    and val_u32_node: "0 \<le> i \<Longrightarrow> i < 4294967296 \<Longrightarrow> dm_val_u32 D (node (Avp k (ValU32 i))) = i"
    and get_result_code: "dm_result_code D m = dm_get_i32 D m AVP_RESULT_CODE"
    and no_experimental: "dm_first D m AVP_EXPERIMENTAL_RESULT = None \<Longrightarrow> dm_experimental_result D m = None"
    and get_experimental: "dm_first D m AVP_EXPERIMENTAL_RESULT = Some a \<Longrightarrow>
      dm_first D a AVP_EXPERIMENTAL_RESULT_CODE = Some c' \<Longrightarrow> dm_first D a AVP_VENDOR_ID = Some v \<Longrightarrow>
      dm_experimental_result D m = Some (dm_val_i32 D c', dm_val_u32 D v)"
  using assms by (auto simp: diameter_contract_def str_avp_def i32_avp_def)

lemma added_append [simp]: "added (ps @ qs) = added ps @ added qs"
  by (induction ps rule: added.induct) auto

lemma added_add_if [simp]: "added (add_if b ps) = add_if b (added ps)"
  by (simp add: add_if_def)

lemma filter_add_if [simp]: "filter P (add_if b xs) = add_if b (filter P xs)"
  by (simp add: add_if_def)

lemma map_add_if [simp]: "map f (add_if b xs) = add_if b (map f xs)"
  by (simp add: add_if_def)

lemma added_map_Add [simp]: "added (map (\<lambda>x. Add (f x)) xs) = map f xs"
  by (induction xs) auto

lemma avp_code_leaf [simp]: "avp_code (str_avp n s) = n" "avp_code (i32_avp n i) = n"
  by (simp_all add: str_avp_def i32_avp_def)

lemma filter_leaves [simp]:
  "filter (\<lambda>a. avp_code a = n) (map (str_avp k) xs) = add_if (k = n) (map (str_avp k) xs)"
  "filter (\<lambda>a. avp_code a = n) (map (i32_avp k) is) = add_if (k = n) (map (i32_avp k) is)"
  by (auto simp: add_if_def)

lemma add_if_simps [simp]: "add_if True xs = xs" "add_if False xs = []" "add_if b [] = []"
  by (simp_all add: add_if_def)

lemma avp_code_composed [simp]:
  "avp_code (capabilities_avp c) = AVP_SERVER_CAPABILITIES"
  "charging_avp ch = Some a \<Longrightarrow> avp_code a = AVP_CHARGING_INFORMATION"
  by (auto simp: capabilities_avp_def charging_avp_def split: if_splits)

lemma avp_code_result [simp]:
  "n \<notin> {AVP_RESULT_CODE, AVP_EXPERIMENTAL_RESULT} \<Longrightarrow> avp_code (result_avp r v e) \<noteq> n"
  "n \<notin> {AVP_RESULT_CODE, AVP_EXPERIMENTAL_RESULT} \<Longrightarrow> avp_code (result_avp' r v e) \<noteq> n"
  by (auto simp: result_avp_def result_avp'_def)

lemmas received_simps = begin_received begin_response begin_node val_str_node val_os_node
  val_i32_node val_u32_node get_str get_i32 get_u32 get_result_code

section \<open>Round trips\<close>

lemma first_add_if [simp]:
  "(case add_if b [x] of [] \<Rightarrow> None | a # as \<Rightarrow> Some a) = (if b then Some x else None)"
  "(case add_if b [x] @ ys of [] \<Rightarrow> None | a # as \<Rightarrow> Some a) =
     (if b then Some x else case ys of [] \<Rightarrow> None | a # as \<Rightarrow> Some a)"
  by (simp_all add: add_if_def)


lemma charging_read:
  assumes c: "diameter_contract D received node" and a: "charging_avp ch = Some a"
  shows "read_charging D (node a) = \<lparr>ccfs = take 2 (ccfs ch),
    ecfs = take (if 1 < length (ccfs ch) then 2 else 1) (ecfs ch)\<rparr>"
proof -
  obtain cs es where ch: "ch = \<lparr>ccfs = cs, ecfs = es\<rparr>" by (cases ch) auto
  show ?thesis
    using a unfolding ch
    by (cases cs rule: remdups_adj.cases; cases es rule: remdups_adj.cases)
      (auto simp: charging_avp_def read_charging_def read_names_def dm_first_def received_simps [OF c]
        numeral_2_eq_2)
qed

lemma saa_charging_read:
  assumes c: "diameter_contract D received node"
    and m: "cx_ServerAssignmentAnswer r v e xml ch wildcard = Some m"
  shows "cx_saa_charging_addrs D (received m) = \<lparr>ccfs = take 2 (ccfs ch),
    ecfs = take (if 1 < length (ccfs ch) then 2 else 1) (ecfs ch)\<rparr>"
proof (cases "charging_empty ch")
  case True
  then show ?thesis
    using m by (auto simp: cx_ServerAssignmentAnswer_def cx_saa_charging_addrs_def received_simps [OF c]
        dm_first_def charging_empty_def no_charging_def)
next
  case False
  then obtain a where a: "charging_avp ch = Some a"
    using m by (cases "charging_avp ch") (auto simp: cx_ServerAssignmentAnswer_def)
  then have "avp_code a = AVP_CHARGING_INFORMATION" by simp
  then show ?thesis
    using m False a by (auto simp: cx_ServerAssignmentAnswer_def cx_saa_charging_addrs_def
        received_simps [OF c] dm_first_def charging_read [OF c a])
qed

lemma ppr_charging_read:
  assumes c: "diameter_contract D received node"
    and m: "cx_PushProfileRequest impi xml ch state = Some m"
  shows "cx_ppr_charging_addrs D (received m) = (\<not> charging_empty ch, \<lparr>ccfs = take 2 (ccfs ch),
    ecfs = take (if 1 < length (ccfs ch) then 2 else 1) (ecfs ch)\<rparr>)"
proof (cases "charging_empty ch")
  case True
  then show ?thesis
    using m by (auto simp: cx_PushProfileRequest_def cx_ppr_charging_addrs_def received_simps [OF c]
        dm_first_def charging_empty_def no_charging_def)
next
  case False
  then obtain a where a: "charging_avp ch = Some a"
    using m by (cases "charging_avp ch") (auto simp: cx_PushProfileRequest_def)
  then have "avp_code a = AVP_CHARGING_INFORMATION" by simp
  then show ?thesis
    using m False a by (auto simp: cx_PushProfileRequest_def cx_ppr_charging_addrs_def
        received_simps [OF c] dm_first_def charging_read [OF c a])
qed

lemma charging_undefined:
  "cx_ServerAssignmentAnswer r v e xml ch wildcard = None \<longleftrightarrow> 1 < length (ccfs ch) \<and> length (ecfs ch) \<le> 1"
  "cx_PushProfileRequest impi xml ch state = None \<longleftrightarrow> 1 < length (ccfs ch) \<and> length (ecfs ch) \<le> 1"
  by (auto simp: cx_ServerAssignmentAnswer_def cx_PushProfileRequest_def charging_avp_def charging_empty_def)

text \<open>
  C39: the charging addresses of a server-assignment answer and of a push-profile request. At most two
  collection functions and one event function arrive; a second event function arrives only with a
  second collection function. With two collection functions and fewer than two event functions the
  constructors read past the end of the list.
\<close>

theorem charging_roundtrip:
  fixes D :: "'m diameter_api"
  assumes "diameter_contract D received node"
  shows "(cx_ServerAssignmentAnswer r v e xml ch wildcard = (None :: 'm message option) \<longleftrightarrow>
      1 < length (ccfs ch) \<and> length (ecfs ch) \<le> 1) \<and>
    (cx_PushProfileRequest impi xml ch state = (None :: 'm message option) \<longleftrightarrow>
      1 < length (ccfs ch) \<and> length (ecfs ch) \<le> 1) \<and>
    (\<forall>m. cx_ServerAssignmentAnswer r v e xml ch wildcard = Some m \<longrightarrow>
      cx_saa_charging_addrs D (received m) = \<lparr>ccfs = take 2 (ccfs ch),
        ecfs = take (if 1 < length (ccfs ch) then 2 else 1) (ecfs ch)\<rparr>) \<and>
    (\<forall>m. cx_PushProfileRequest impi xml ch state = Some m \<longrightarrow>
      cx_ppr_charging_addrs D (received m) = (\<not> charging_empty ch, \<lparr>ccfs = take 2 (ccfs ch),
        ecfs = take (if 1 < length (ccfs ch) then 2 else 1) (ecfs ch)\<rparr>))"
  by (auto simp: charging_undefined saa_charging_read [OF assms] ppr_charging_read [OF assms])

text \<open>
  The termination task reads from a registration-termination request the reason, the private
  identities and the public identities it was built with, and the HSS reads from the answer the
  private identities that were deregistered.
\<close>

theorem rtr_roundtrip:
  assumes "diameter_contract D received node" and "int32 reason"
    and "m = received (cx_RegistrationTerminationRequest reason impi identities impus state)"
  shows "cx_deregistration_reason D m = reason \<and> cx_associated_identities D m = identities \<and>
    cx_impus D m = impus \<and>
    cx_associated_identities D (received (cx_RegistrationTerminationAnswer m res state' identities')) =
      identities'"
  using assms(2)
  by (auto simp: assms(3) received_simps [OF assms(1)] dm_first_def stack_avps_def o_def
      cx_RegistrationTerminationRequest_def cx_RegistrationTerminationAnswer_def
      associated_identities_part_def cx_deregistration_reason_def cx_associated_identities_def cx_impus_def)

text \<open>
  The connection reads from an answer the capabilities and the vectors it was built with: the
  digest as it is, the AKA vector with its challenge in base 64 and the rest in hexadecimal.
\<close>

theorem answers_roundtrip:
  assumes "diameter_contract D received node"
    and "list_all int32 (mandatory_capabilities capabs)" and "list_all int32 (optional_capabilities capabs)"
    and "maa = received (cx_MultimediaAuthAnswer r v e scheme digest aka)"
  shows "cx_server_capabilities D (received (cx_UserAuthorizationAnswer r v e server capabs)) = capabs \<and>
    cx_server_capabilities D (received (cx_LocationInfoAnswer r v e server capabs wildcard)) = capabs \<and>
    cx_sip_auth_scheme D maa = scheme \<and> cx_digest_auth_vector D maa = digest \<and>
    cx_aka_auth_vector D maa =
      \<lparr>challenge = base64_encode D (challenge aka), response = hex D (response aka),
       crypt_key = hex D (crypt_key aka), integrity_key = hex D (integrity_key aka), version = 1\<rparr> \<and>
    version (cx_akav2_auth_vector D maa) = 2"
proof -
  note c = received_simps [OF assms(1)] dm_first_def
  have ints: "map (\<lambda>i. dm_val_i32 D (node (i32_avp k i))) is = is" if "list_all int32 is" for k "is"
    using that by (induction "is") (auto simp: c)
  have caps: "cx_server_capabilities D m = capabs"
    if "dm_begin D m AVP_SERVER_CAPABILITIES = [node (capabilities_avp capabs)]" for m
    using that assms(2,3)
    by (cases capabs) (auto simp: cx_server_capabilities_def capabilities_avp_def c o_def ints)
  show ?thesis
    by (auto intro!: caps simp: assms(4) c cx_UserAuthorizationAnswer_def cx_LocationInfoAnswer_def
        cx_MultimediaAuthAnswer_def cx_sip_auth_scheme_def auth_item_str_def cx_digest_auth_vector_def
        digest_member_def cx_aka_auth_vector_def aka_member_def new_AKAAuthVector_def
        cx_akav2_auth_vector_def)
qed

section \<open>A concrete stack\<close>

text \<open>Messages received as they were built satisfy the contract, which the witnesses use.\<close>

datatype ref_msg = RMessage command "part list" | RResponse ref_msg "part list" | RAvp avp

fun ref_received :: "ref_msg message \<Rightarrow> ref_msg" where
  "ref_received (Message c ps) = RMessage c ps"
| "ref_received (Response m ps) = RResponse m ps"

fun ref_avps :: "ref_msg \<Rightarrow> avp list" where
  "ref_avps (RMessage c ps) = added ps"
| "ref_avps (RResponse m ps) = added ps"
| "ref_avps (RAvp (Avp n (Group as))) = as"
| "ref_avps (RAvp _) = []"

fun ref_str :: "ref_msg \<Rightarrow> string" where
  "ref_str (RAvp (Avp n (ValStr s))) = s"
| "ref_str _ = ''''"

fun ref_int :: "ref_msg \<Rightarrow> int" where
  "ref_int (RAvp (Avp n (ValI32 i))) = i"
| "ref_int (RAvp (Avp n (ValU32 i))) = i"
| "ref_int _ = 0"

definition ref_begin :: "ref_msg \<Rightarrow> avp_name \<Rightarrow> ref_msg list" where
  "ref_begin m n = map RAvp (filter (\<lambda>a. avp_code a = n) (ref_avps m))"

definition ref_first :: "ref_msg \<Rightarrow> avp_name \<Rightarrow> ref_msg option" where
  "ref_first m n = (case ref_begin m n of [] \<Rightarrow> None | a # _ \<Rightarrow> Some a)"

definition ref_diameter :: "ref_msg diameter_api" where
  "ref_diameter =
     \<lparr>dm_begin = ref_begin, dm_val_str = ref_str, dm_val_i32 = ref_int, dm_val_u32 = ref_int, dm_val_os = ref_str,
      dm_get_str = (\<lambda>m n. map_option ref_str (ref_first m n)),
      dm_get_i32 = (\<lambda>m n. map_option ref_int (ref_first m n)),
      dm_get_u32 = (\<lambda>m n. map_option ref_int (ref_first m n)),
      dm_result_code = (\<lambda>m. map_option ref_int (ref_first m AVP_RESULT_CODE)),
      dm_experimental_result = (\<lambda>m. map_option (\<lambda>a.
        (case ref_first a AVP_EXPERIMENTAL_RESULT_CODE of None \<Rightarrow> 0 | Some v \<Rightarrow> ref_int v,
         case ref_first a AVP_VENDOR_ID of None \<Rightarrow> 0 | Some v \<Rightarrow> ref_int v))
        (ref_first m AVP_EXPERIMENTAL_RESULT)),
      dm_impi = (\<lambda>m. case ref_first m AVP_USER_NAME of None \<Rightarrow> '''' | Some v \<Rightarrow> ref_str v),
      dm_auth_session_state =
        (\<lambda>m. case ref_first m AVP_AUTH_SESSION_STATE of None \<Rightarrow> 0 | Some v \<Rightarrow> ref_int v),
      base64_encode = rev, hex = id\<rparr>"

lemma ref_diameter_contract: "diameter_contract ref_diameter ref_received RAvp"
  by (simp add: diameter_contract_def ref_diameter_def ref_begin_def ref_first_def dm_first_def)


theorem charging_roundtrip_witness:
  "cx_ServerAssignmentAnswer 2001 0 0 ''xml'' \<lparr>ccfs = [''c1'', ''c2''], ecfs = [''e1'']\<rparr> '''' =
     (None :: ref_msg message option)"
  using charging_roundtrip [OF ref_diameter_contract, of 2001 0 0 "''xml''"
      "\<lparr>ccfs = [''c1'', ''c2''], ecfs = [''e1'']\<rparr>" "''''" "''''" 0] by simp

theorem rtr_roundtrip_witness:
  "cx_impus ref_diameter (ref_received
     (cx_RegistrationTerminationRequest 0 ''i'' [''j''] [''sip:a'', ''sip:b''] 1)) = [''sip:a'', ''sip:b'']"
  using rtr_roundtrip [OF ref_diameter_contract _ refl, of 0 "''i''" "[''j'']" "[''sip:a'', ''sip:b'']" 1]
  by (simp add: int32_def)

theorem answers_roundtrip_witness:
  "cx_server_capabilities ref_diameter (ref_received (cx_UserAuthorizationAnswer 2001 0 0 ''s''
     \<lparr>mandatory_capabilities = [1, 2], optional_capabilities = [3], cap_server_name = ''n''\<rparr>)) =
     \<lparr>mandatory_capabilities = [1, 2], optional_capabilities = [3], cap_server_name = ''n''\<rparr>"
  using answers_roundtrip [OF ref_diameter_contract _ _ refl, where
      capabs = "\<lparr>mandatory_capabilities = [1, 2], optional_capabilities = [3], cap_server_name = ''n''\<rparr>"
      and r = 2001 and v = 0 and e = 0 and server = "''s''"]
  by (simp add: int32_def)

end
