(* ===== verification/Diameter_Hss.thy ===== *)
theory Diameter_Hss
  imports Cx_Messages
begin

text \<open>
  The Diameter connection to the HSS (\<open>src/diameter_hss_connection.cpp\<close>): the requests it sends,
  the answers it makes of what comes back, and the statistics it counts. It interprets the locale
  \<open>hss_connection\<close>. The results: what the HSS put into an answer reaches the handler, and an answer
  that carries one of the two result codes is counted once.
\<close>

unbundle bit_operations_syntax

section \<open>Constants\<close>

abbreviation (input) DIAMETER_SUCCESS :: int where "DIAMETER_SUCCESS \<equiv> 2001"
abbreviation (input) DIAMETER_UNABLE_TO_DELIVER :: int where "DIAMETER_UNABLE_TO_DELIVER \<equiv> 3002"
abbreviation (input) DIAMETER_TOO_BUSY :: int where "DIAMETER_TOO_BUSY \<equiv> 3004"
abbreviation (input) DIAMETER_AUTHORIZATION_REJECTED :: int where "DIAMETER_AUTHORIZATION_REJECTED \<equiv> 5003"
abbreviation (input) VENDOR_ID_3GPP :: int where "VENDOR_ID_3GPP \<equiv> 10415"
abbreviation (input) DIAMETER_FIRST_REGISTRATION :: int where "DIAMETER_FIRST_REGISTRATION \<equiv> 2001"
abbreviation (input) DIAMETER_SUBSEQUENT_REGISTRATION :: int where
  "DIAMETER_SUBSEQUENT_REGISTRATION \<equiv> 2002"
abbreviation (input) DIAMETER_UNREGISTERED_SERVICE :: int where "DIAMETER_UNREGISTERED_SERVICE \<equiv> 2003"
abbreviation (input) DIAMETER_ERROR_USER_UNKNOWN :: int where "DIAMETER_ERROR_USER_UNKNOWN \<equiv> 5001"
abbreviation (input) DIAMETER_ERROR_IDENTITIES_DONT_MATCH :: int where
  "DIAMETER_ERROR_IDENTITIES_DONT_MATCH \<equiv> 5002"
abbreviation (input) DIAMETER_ERROR_IDENTITY_NOT_REGISTERED :: int where
  "DIAMETER_ERROR_IDENTITY_NOT_REGISTERED \<equiv> 5003"
abbreviation (input) DIAMETER_ERROR_ROAMING_NOT_ALLOWED :: int where
  "DIAMETER_ERROR_ROAMING_NOT_ALLOWED \<equiv> 5004"
abbreviation (input) DIAMETER_ERROR_IN_ASSIGNMENT_TYPE :: int where
  "DIAMETER_ERROR_IN_ASSIGNMENT_TYPE \<equiv> 5007"

section \<open>Statistics\<close>

datatype app_id = APP_BASE | APP_3GPP | APP_TIMEOUT

datatype stat =
    Increment app_id int | Subtract_time nat
  | Update_hss_latency nat | Update_digest_latency nat | Update_subscription_latency nat

definition STAT_HSS_LATENCY :: "32 word" where "STAT_HSS_LATENCY = 1"
definition STAT_HSS_DIGEST_LATENCY :: "32 word" where "STAT_HSS_DIGEST_LATENCY = 2"
definition STAT_HSS_SUBSCRIPTION_LATENCY :: "32 word" where "STAT_HSS_SUBSCRIPTION_LATENCY = 4"

definition DIGEST_STATS :: "32 word" where
  "DIGEST_STATS = STAT_HSS_LATENCY OR STAT_HSS_DIGEST_LATENCY"

definition SUBSCRIPTION_STATS :: "32 word" where
  "SUBSCRIPTION_STATS = STAT_HSS_LATENCY OR STAT_HSS_SUBSCRIPTION_LATENCY"

definition increment_results :: "int \<Rightarrow> int \<Rightarrow> int \<Rightarrow> stat list" where
  "increment_results result experimental vendor =
     (if result \<noteq> 0 then [Increment APP_BASE result]
      else if experimental \<noteq> 0 \<and> vendor = VENDOR_ID_3GPP then [Increment APP_3GPP experimental]
      else [])"

text \<open>
  Whether there is a statistics manager and a stopwatch, and the duration that \<open>get_duration\<close>
  reports, if any.
\<close>

record tsx_env =
  has_stats_manager :: bool
  has_stopwatch :: bool
  duration :: "nat option"

definition update_latency_stats :: "tsx_env \<Rightarrow> 32 word \<Rightarrow> stat list" where
  "update_latency_stats env stat_updates =
     (if has_stats_manager env then
        (case duration env of
           None \<Rightarrow> []
         | Some latency \<Rightarrow>
             (if has_stopwatch env then [Subtract_time latency] else []) @
             (if stat_updates AND STAT_HSS_LATENCY \<noteq> 0 then [Update_hss_latency latency] else []) @
             (if stat_updates AND STAT_HSS_DIGEST_LATENCY \<noteq> 0 then [Update_digest_latency latency] else []) @
             (if stat_updates AND STAT_HSS_SUBSCRIPTION_LATENCY \<noteq> 0
              then [Update_subscription_latency latency] else []))
      else [])"

section \<open>Answers\<close>

text \<open>The result code, the experimental result code and the vendor, zero where they are missing.\<close>

definition result_code :: "'m diameter_api \<Rightarrow> 'm \<Rightarrow> int" where
  "result_code D m = (case dm_result_code D m of None \<Rightarrow> 0 | Some r \<Rightarrow> r)"

definition experimental_result :: "'m diameter_api \<Rightarrow> 'm \<Rightarrow> int" where
  "experimental_result D m = (case dm_experimental_result D m of None \<Rightarrow> 0 | Some (e, v) \<Rightarrow> e)"

definition vendor_id :: "'m diameter_api \<Rightarrow> 'm \<Rightarrow> int" where
  "vendor_id D m = (case dm_experimental_result D m of None \<Rightarrow> 0 | Some (e, v) \<Rightarrow> v)"

definition count_answer :: "'m diameter_api \<Rightarrow> 'm \<Rightarrow> stat list" where
  "count_answer D m = increment_results (result_code D m) (experimental_result D m) (vendor_id D m)"

definition mar_create_answer :: "auth_schemes \<Rightarrow> 'm diameter_api \<Rightarrow> 'm \<Rightarrow> MultimediaAuthAnswer" where
  "mar_create_answer S D rsp =
     (if result_code D rsp = DIAMETER_SUCCESS then
        let auth_scheme = cx_sip_auth_scheme D rsp;
            (rc, av) =
              (if auth_scheme = scheme_digest S
               then (RC_SUCCESS, Some (DigestAV (cx_digest_auth_vector D rsp)))
               else if auth_scheme = scheme_akav1 S
               then (RC_SUCCESS, Some (AKAAV (cx_aka_auth_vector D rsp)))
               else if auth_scheme = scheme_akav2 S
               then (RC_SUCCESS, Some (AKAAV (cx_akav2_auth_vector D rsp)))
               else (RC_UNKNOWN_AUTH_SCHEME, None))
        in \<lparr>maa_result = rc, maa_av = av, maa_scheme = auth_scheme\<rparr>
      else if result_code D rsp = DIAMETER_UNABLE_TO_DELIVER then
        \<lparr>maa_result = RC_SERVER_UNAVAILABLE, maa_av = None, maa_scheme = ''''\<rparr>
      else if experimental_result D rsp = DIAMETER_ERROR_USER_UNKNOWN \<and> vendor_id D rsp = VENDOR_ID_3GPP then
        \<lparr>maa_result = RC_NOT_FOUND, maa_av = None, maa_scheme = ''''\<rparr>
      else \<lparr>maa_result = RC_UNKNOWN, maa_av = None, maa_scheme = ''''\<rparr>)"

text \<open>The server name, or the capabilities when the answer has no server name.\<close>

definition name_or_capabilities :: "'m diameter_api \<Rightarrow> 'm \<Rightarrow> string \<times> ServerCapabilities" where
  "name_or_capabilities D rsp =
     (case cx_server_name D rsp of
        Some server_name \<Rightarrow> (server_name, no_capabilities)
      | None \<Rightarrow> ('''', cx_server_capabilities D rsp))"

definition uar_create_answer :: "'m diameter_api \<Rightarrow> 'm \<Rightarrow> UserAuthAnswer" where
  "uar_create_answer D rsp =
     (let result = result_code D rsp; experimental = experimental_result D rsp
      in if result = DIAMETER_SUCCESS \<or> experimental = DIAMETER_FIRST_REGISTRATION \<or>
            experimental = DIAMETER_SUBSEQUENT_REGISTRATION then
           let (server_name, capabilities) = name_or_capabilities D rsp
           in \<lparr>uaa_result = RC_SUCCESS,
               uaa_json_result = (if result \<noteq> 0 then result else experimental),
               uaa_server = server_name, uaa_capabilities = capabilities\<rparr>
         else if experimental = DIAMETER_ERROR_USER_UNKNOWN \<or>
                 experimental = DIAMETER_ERROR_IDENTITIES_DONT_MATCH then uaa_of_rc RC_NOT_FOUND
         else if result = DIAMETER_AUTHORIZATION_REJECTED \<or>
                 experimental = DIAMETER_ERROR_ROAMING_NOT_ALLOWED then uaa_of_rc RC_FORBIDDEN
         else if result = DIAMETER_TOO_BUSY then uaa_of_rc RC_TIMEOUT
         else if result = DIAMETER_UNABLE_TO_DELIVER then uaa_of_rc RC_SERVER_UNAVAILABLE
         else uaa_of_rc RC_UNKNOWN)"

definition lir_create_answer :: "'m diameter_api \<Rightarrow> 'm \<Rightarrow> LocationInfoAnswer" where
  "lir_create_answer D rsp =
     (let result = result_code D rsp; experimental = experimental_result D rsp; vendor = vendor_id D rsp
      in if result = DIAMETER_SUCCESS \<or>
            (vendor = VENDOR_ID_3GPP \<and>
             (experimental = DIAMETER_UNREGISTERED_SERVICE \<or>
              experimental = DIAMETER_ERROR_IDENTITY_NOT_REGISTERED)) then
           let (server_name, capabilities) = name_or_capabilities D rsp
           in \<lparr>lia_result = RC_SUCCESS,
               lia_json_result = (if result \<noteq> 0 then result else experimental),
               lia_server = server_name, lia_capabilities = capabilities,
               lia_wildcard_impu = (case cx_wildcarded_public_identity D rsp of None \<Rightarrow> '''' | Some w \<Rightarrow> w)\<rparr>
         else if vendor = VENDOR_ID_3GPP \<and> experimental = DIAMETER_ERROR_USER_UNKNOWN then
           lia_of_rc RC_NOT_FOUND
         else if result = DIAMETER_TOO_BUSY then lia_of_rc RC_TIMEOUT
         else if result = DIAMETER_UNABLE_TO_DELIVER then lia_of_rc RC_SERVER_UNAVAILABLE
         else lia_of_rc RC_UNKNOWN)"

definition sar_create_answer :: "'m diameter_api \<Rightarrow> 'm \<Rightarrow> ServerAssignmentAnswer" where
  "sar_create_answer D rsp =
     (let result = result_code D rsp; experimental = experimental_result D rsp
      in if result = DIAMETER_SUCCESS then
           \<lparr>saa_result = RC_SUCCESS, saa_charging = cx_saa_charging_addrs D rsp,
            saa_service_profile = (case cx_user_data D rsp of None \<Rightarrow> '''' | Some xml \<Rightarrow> xml),
            saa_wildcard_impu = ''''\<rparr>
         else if result = DIAMETER_UNABLE_TO_DELIVER then saa_of_rc RC_SERVER_UNAVAILABLE
         else if experimental = DIAMETER_ERROR_USER_UNKNOWN \<and> vendor_id D rsp = VENDOR_ID_3GPP then
           saa_of_rc RC_NOT_FOUND
         else if experimental = DIAMETER_ERROR_IN_ASSIGNMENT_TYPE then
           let wildcard_impu = (case cx_wildcarded_public_identity D rsp of None \<Rightarrow> '''' | Some w \<Rightarrow> w)
           in if wildcard_impu \<noteq> '''' then
                (saa_of_rc RC_NEW_WILDCARD)\<lparr>saa_wildcard_impu := wildcard_impu\<rparr>
              else saa_of_rc RC_UNKNOWN
         else saa_of_rc RC_UNKNOWN)"

section \<open>Transactions\<close>

text \<open>
  A transaction ends with a response or a timeout. It yields the answer passed to the callback
  and the statistics, in order.
\<close>

datatype 'm tsx_end = Rsp 'm | Timed_out

definition on_response ::
  "'m diameter_api \<Rightarrow> tsx_env \<Rightarrow> 32 word \<Rightarrow> ('m \<Rightarrow> 'a) \<Rightarrow> 'm \<Rightarrow> 'a \<times> stat list" where
  "on_response D env stat_updates create_answer rsp =
     (create_answer rsp, update_latency_stats env stat_updates @ count_answer D rsp)"

definition on_timeout :: "tsx_env \<Rightarrow> 32 word \<Rightarrow> (ResultCode \<Rightarrow> 'a) \<Rightarrow> 'a \<times> stat list" where
  "on_timeout env stat_updates of_rc =
     (of_rc RC_SERVER_UNAVAILABLE, update_latency_stats env stat_updates @ [Increment APP_TIMEOUT 0])"

definition complete ::
  "'m diameter_api \<Rightarrow> tsx_env \<Rightarrow> 32 word \<Rightarrow> ('m \<Rightarrow> 'a) \<Rightarrow> (ResultCode \<Rightarrow> 'a) \<Rightarrow> 'm tsx_end \<Rightarrow>
     'a \<times> stat list" where
  "complete D env stat_updates create_answer of_rc r =
     (case r of
        Rsp m \<Rightarrow> on_response D env stat_updates create_answer m
      | Timed_out \<Rightarrow> on_timeout env stat_updates of_rc)"

section \<open>Requests\<close>

record diameter_conn =
  dest_realm :: string
  dest_host :: string
  diameter_timeout_ms :: int

text \<open>A send is the message and the timeout of \<open>Message::send\<close>.\<close>

definition diameter_send_mar :: "diameter_conn \<Rightarrow> MultimediaAuthRequest \<Rightarrow> 'm message \<times> int" where
  "diameter_send_mar conn req =
     (cx_MultimediaAuthRequest (dest_realm conn) (dest_host conn) (mar_impi req) (mar_impu req)
        (mar_server_name req) (mar_scheme req) (mar_authorization req), diameter_timeout_ms conn)"

definition diameter_send_uar :: "diameter_conn \<Rightarrow> UserAuthRequest \<Rightarrow> 'm message \<times> int" where
  "diameter_send_uar conn req =
     (cx_UserAuthorizationRequest (dest_host conn) (dest_realm conn) (uar_impi req) (uar_impu req)
        (uar_visited_network req) (uar_authorization_type req) (uar_emergency req), diameter_timeout_ms conn)"

definition diameter_send_lir :: "diameter_conn \<Rightarrow> LocationInfoRequest \<Rightarrow> 'm message \<times> int" where
  "diameter_send_lir conn req =
     (cx_LocationInfoRequest (dest_host conn) (dest_realm conn) (lir_originating req) (lir_impu req)
        (lir_authorization_type req), diameter_timeout_ms conn)"

definition diameter_send_sar :: "diameter_conn \<Rightarrow> ServerAssignmentRequest \<Rightarrow> 'm message \<times> int" where
  "diameter_send_sar conn req =
     (cx_ServerAssignmentRequest (dest_host conn) (dest_realm conn) (sar_impi req) (sar_impu req)
        (sar_server_name req) (sar_type req) (sar_support_shared_ifcs req) (sar_wildcard_impu req),
      diameter_timeout_ms conn)"

section \<open>The connection implements the interface\<close>

definition diameter_mar ::
  "auth_schemes \<Rightarrow> 'm diameter_api \<Rightarrow> tsx_env \<Rightarrow> MultimediaAuthRequest \<Rightarrow> 'm tsx_end \<Rightarrow> MultimediaAuthAnswer" where
  "diameter_mar S D env req r = fst (complete D env DIGEST_STATS (mar_create_answer S D) maa_of_rc r)"

definition diameter_uar ::
  "'m diameter_api \<Rightarrow> tsx_env \<Rightarrow> UserAuthRequest \<Rightarrow> 'm tsx_end \<Rightarrow> UserAuthAnswer" where
  "diameter_uar D env req r = fst (complete D env SUBSCRIPTION_STATS (uar_create_answer D) uaa_of_rc r)"

definition diameter_lir ::
  "'m diameter_api \<Rightarrow> tsx_env \<Rightarrow> LocationInfoRequest \<Rightarrow> 'm tsx_end \<Rightarrow> LocationInfoAnswer" where
  "diameter_lir D env req r = fst (complete D env SUBSCRIPTION_STATS (lir_create_answer D) lia_of_rc r)"

definition diameter_sar ::
  "'m diameter_api \<Rightarrow> tsx_env \<Rightarrow> ServerAssignmentRequest \<Rightarrow> 'm tsx_end \<Rightarrow> ServerAssignmentAnswer" where
  "diameter_sar D env req r = fst (complete D env SUBSCRIPTION_STATS (sar_create_answer D) saa_of_rc r)"

lemmas diameter_answer_defs = diameter_mar_def diameter_uar_def diameter_lir_def diameter_sar_def
  complete_def on_response_def on_timeout_def

lemmas of_rc_defs = maa_of_rc_def uaa_of_rc_def lia_of_rc_def saa_of_rc_def

interpretation dia: hss_connection S "diameter_mar S D env" "diameter_uar D env" "diameter_lir D env"
    "diameter_sar D env" for S D env
proof
  fix mreq ureq lreq sreq and r :: "'a tsx_end"
  show "maa_typed S (diameter_mar S D env mreq r)"
    by (cases r) (auto simp: maa_typed_def diameter_answer_defs of_rc_defs mar_create_answer_def Let_def)
  show "maa_result (diameter_mar S D env mreq r) \<in>
      {RC_SUCCESS, RC_SERVER_UNAVAILABLE, RC_NOT_FOUND, RC_TIMEOUT, RC_UNKNOWN_AUTH_SCHEME, RC_UNKNOWN}"
    by (cases r) (auto simp: diameter_answer_defs of_rc_defs mar_create_answer_def Let_def)
  show "uaa_result (diameter_uar D env ureq r) = RC_SUCCESS \<Longrightarrow> uaa_json_result (diameter_uar D env ureq r) \<noteq> 0"
    by (cases r) (auto simp: diameter_answer_defs of_rc_defs uar_create_answer_def Let_def
        split: if_splits prod.splits)
  show "uaa_result (diameter_uar D env ureq r) \<in>
      {RC_SUCCESS, RC_SERVER_UNAVAILABLE, RC_NOT_FOUND, RC_FORBIDDEN, RC_TIMEOUT, RC_UNKNOWN}"
    by (cases r) (auto simp: diameter_answer_defs of_rc_defs uar_create_answer_def Let_def split: prod.splits)
  show "lia_result (diameter_lir D env lreq r) = RC_SUCCESS \<Longrightarrow> lia_json_result (diameter_lir D env lreq r) \<noteq> 0"
    by (cases r) (auto simp: diameter_answer_defs of_rc_defs lir_create_answer_def Let_def
        split: if_splits prod.splits)
  show "lia_result (diameter_lir D env lreq r) \<in>
      {RC_SUCCESS, RC_SERVER_UNAVAILABLE, RC_NOT_FOUND, RC_TIMEOUT, RC_UNKNOWN}"
    by (cases r) (auto simp: diameter_answer_defs of_rc_defs lir_create_answer_def Let_def split: prod.splits)
  show "saa_result (diameter_sar D env sreq r) = RC_NEW_WILDCARD \<longleftrightarrow>
      saa_wildcard_impu (diameter_sar D env sreq r) \<noteq> ''''"
    by (cases r) (auto simp: diameter_answer_defs of_rc_defs sar_create_answer_def Let_def)
  show "saa_result (diameter_sar D env sreq r) \<in>
      {RC_SUCCESS, RC_SERVER_UNAVAILABLE, RC_NOT_FOUND, RC_NEW_WILDCARD, RC_TIMEOUT, RC_UNKNOWN}"
    by (cases r) (auto simp: diameter_answer_defs of_rc_defs sar_create_answer_def Let_def)
  show "saa_result (diameter_sar D env sreq r) \<noteq> RC_SUCCESS \<Longrightarrow>
      saa_service_profile (diameter_sar D env sreq r) = '''' \<and> saa_charging (diameter_sar D env sreq r) = no_charging"
    by (cases r) (auto simp: diameter_answer_defs of_rc_defs sar_create_answer_def Let_def)
qed

section \<open>Properties\<close>

lemma codes_of_answer:
  assumes c: "diameter_contract D received node" and r: "int32 r" "int32 e" "0 \<le> v" "v < 4294967296"
    and m: "dm_begin D m AVP_RESULT_CODE = map node (filter (\<lambda>a. avp_code a = AVP_RESULT_CODE) [a])"
      "dm_begin D m AVP_EXPERIMENTAL_RESULT = map node (filter (\<lambda>a. avp_code a = AVP_EXPERIMENTAL_RESULT) [a])"
    and a: "a = result_avp r v e \<or> a = result_avp' r v e"
  shows "result_code D m = r" and "experimental_result D m = (if r = 0 then e else 0)"
    and "vendor_id D m = (if r = 0 then v else 0)"
proof -
  have result: "dm_result_code D m = (if r \<noteq> 0 then Some r else None)"
    using m r a by (cases "r = 0") (auto simp: received_simps [OF c] dm_first_def result_avp_def result_avp'_def)
  show "result_code D m = r"
    by (simp add: result_code_def result)
  have exp: "dm_experimental_result D m = (if r = 0 then Some (e, v) else None)"
  proof (cases "r = 0")
    case True
    have "dm_experimental_result D m = Some (dm_val_i32 D (node (i32_avp AVP_EXPERIMENTAL_RESULT_CODE e)),
        dm_val_u32 D (node (Avp AVP_VENDOR_ID (ValU32 v))))"
      by (rule get_experimental [OF c, where a = "node a"])
        (use True m a in \<open>auto simp: dm_first_def result_avp_def result_avp'_def begin_node [OF c]\<close>)
    then show ?thesis using True r by (simp add: received_simps [OF c])
  next
    case False
    have "dm_experimental_result D m = None"
      by (rule no_experimental [OF c])
        (use False m a in \<open>auto simp: dm_first_def result_avp_def result_avp'_def\<close>)
    then show ?thesis using False by simp
  qed
  show "experimental_result D m = (if r = 0 then e else 0)" "vendor_id D m = (if r = 0 then v else 0)"
    by (simp_all add: experimental_result_def vendor_id_def exp)
qed

text \<open>
  What the HSS puts into a server-assignment answer reaches the handler. A success brings the
  User-Data and the charging addresses; the experimental code 5007 with a wildcarded identity, from
  any vendor, brings the new wildcard; the code 5001 says that the user is unknown only when it
  comes from 3GPP; and no other answer brings data.
\<close>

theorem sar_answer_delivered:
  assumes "diameter_contract D received node" and "int32 r" and "int32 e" and "0 \<le> v" and "v < 4294967296"
    and "cx_ServerAssignmentAnswer r v e xml ch wildcard = Some m"
  shows "diameter_sar D env req (Rsp (received m)) =
    (if r = 2001 then
       \<lparr>saa_result = RC_SUCCESS,
        saa_charging = \<lparr>ccfs = take 2 (ccfs ch), ecfs = take (if 1 < length (ccfs ch) then 2 else 1) (ecfs ch)\<rparr>,
        saa_service_profile = xml, saa_wildcard_impu = ''''\<rparr>
     else if r = 3002 then saa_of_rc RC_SERVER_UNAVAILABLE
     else if r = 0 \<and> e = 5001 \<and> v = 10415 then saa_of_rc RC_NOT_FOUND
     else if r = 0 \<and> e = 5007 \<and> wildcard \<noteq> '''' then
       (saa_of_rc RC_NEW_WILDCARD)\<lparr>saa_wildcard_impu := wildcard\<rparr>
     else saa_of_rc RC_UNKNOWN)"
proof -
  obtain info where m: "m = Message SERVER_ASSIGNMENT_ANSWER
      ([Add (result_avp' r v e), Add (str_avp AVP_USER_DATA xml)] @ info @
       add_if (wildcard \<noteq> '''') [Add (str_avp AVP_WILDCARDED_PUBLIC_IDENTITY wildcard)])"
    and info: "\<forall>a \<in> set (added info). avp_code a = AVP_CHARGING_INFORMATION"
    using assms(6) by (auto simp: cx_ServerAssignmentAnswer_def charging_avp_def split: if_splits)
  have none: "filter (\<lambda>a. avp_code a = n) (added info) = []" if "n \<noteq> AVP_CHARGING_INFORMATION" for n
    using info that by (auto simp: filter_empty_conv)
  note c = received_simps [OF assms(1)] dm_first_def none
  have codes: "result_code D (received m) = r"
    "experimental_result D (received m) = (if r = 0 then e else 0)"
    "vendor_id D (received m) = (if r = 0 then v else 0)"
    by (rule codes_of_answer [OF assms(1-5), where a = "result_avp' r v e"]; simp add: m c)+
  have parts: "cx_user_data D (received m) = Some xml"
    "cx_wildcarded_public_identity D (received m) = (if wildcard \<noteq> '''' then Some wildcard else None)"
    by (simp_all add: m c cx_user_data_def cx_wildcarded_public_identity_def)
  have ch: "cx_saa_charging_addrs D (received m) =
      \<lparr>ccfs = take 2 (ccfs ch), ecfs = take (if 1 < length (ccfs ch) then 2 else 1) (ecfs ch)\<rparr>"
    by (rule saa_charging_read [OF assms(1,6)])
  show ?thesis
    by (simp add: diameter_answer_defs sar_create_answer_def codes parts ch)
qed

definition sample_tsx_env :: tsx_env where
  "sample_tsx_env = \<lparr>has_stats_manager = True, has_stopwatch = True, duration = Some 12\<rparr>"

definition sample_sar :: ServerAssignmentRequest where
  "sample_sar = \<lparr>sar_impi = ''i'', sar_impu = ''sip:a'', sar_server_name = ''s'', sar_type = UNREGISTERED_USER,
     sar_support_shared_ifcs = True, sar_wildcard_impu = ''''\<rparr>"

theorem sar_answer_delivered_witness:
  "diameter_sar ref_diameter sample_tsx_env sample_sar (Rsp (ref_received (Message SERVER_ASSIGNMENT_ANSWER
     [Add (result_avp' 0 10415 5007), Add (str_avp AVP_USER_DATA ''''),
      Add (str_avp AVP_WILDCARDED_PUBLIC_IDENTITY ''w'')]))) =
   (saa_of_rc RC_NEW_WILDCARD)\<lparr>saa_wildcard_impu := ''w''\<rparr>"
proof -
  have "cx_ServerAssignmentAnswer 0 10415 5007 '''' no_charging ''w'' = Some (Message SERVER_ASSIGNMENT_ANSWER
     [Add (result_avp' 0 10415 5007), Add (str_avp AVP_USER_DATA ''''),
      Add (str_avp AVP_WILDCARDED_PUBLIC_IDENTITY ''w'')])"
    by (simp add: cx_ServerAssignmentAnswer_def charging_empty_def no_charging_def)
  from sar_answer_delivered [OF ref_diameter_contract _ _ _ _ this] show ?thesis
    by (simp add: int32_def)
qed

text \<open>
  A transaction counts its outcome at most once, under the result code, under the experimental
  code of 3GPP, or as a timeout; an answer with a result code or a 3GPP experimental code, and a
  timeout, are counted. An authentication adds the latency to the HSS and the digest figures and the
  other requests to the HSS and the subscription figures.
\<close>

theorem outcome_counted:
  "(\<exists>counted. snd (complete D env DIGEST_STATS create of_rc r) =
      (case (has_stats_manager env, duration env) of
         (True, Some t) \<Rightarrow> (if has_stopwatch env then [Subtract_time t] else []) @
            [Update_hss_latency t, Update_digest_latency t]
       | _ \<Rightarrow> []) @ counted \<and>
     snd (complete D env SUBSCRIPTION_STATS create of_rc r) =
      (case (has_stats_manager env, duration env) of
         (True, Some t) \<Rightarrow> (if has_stopwatch env then [Subtract_time t] else []) @
            [Update_hss_latency t, Update_subscription_latency t]
       | _ \<Rightarrow> []) @ counted \<and>
     (case r of
        Timed_out \<Rightarrow> counted = [Increment APP_TIMEOUT 0]
      | Rsp m \<Rightarrow>
          if result_code D m \<noteq> 0 then counted = [Increment APP_BASE (result_code D m)]
          else if experimental_result D m \<noteq> 0 \<and> vendor_id D m = 10415
          then counted = [Increment APP_3GPP (experimental_result D m)]
          else counted = []))"
proof -
  have flags: "DIGEST_STATS AND STAT_HSS_LATENCY \<noteq> 0" "DIGEST_STATS AND STAT_HSS_DIGEST_LATENCY \<noteq> 0"
    "DIGEST_STATS AND STAT_HSS_SUBSCRIPTION_LATENCY = 0" "SUBSCRIPTION_STATS AND STAT_HSS_LATENCY \<noteq> 0"
    "SUBSCRIPTION_STATS AND STAT_HSS_DIGEST_LATENCY = 0"
    "SUBSCRIPTION_STATS AND STAT_HSS_SUBSCRIPTION_LATENCY \<noteq> 0"
    by (simp_all add: DIGEST_STATS_def SUBSCRIPTION_STATS_def STAT_HSS_LATENCY_def
        STAT_HSS_DIGEST_LATENCY_def STAT_HSS_SUBSCRIPTION_LATENCY_def)
  show ?thesis
    by (cases r) (auto simp: complete_def on_response_def on_timeout_def update_latency_stats_def flags
        count_answer_def increment_results_def split: option.split)
qed

end
