(* ===== verification/Hs_Prov.thy ===== *)
theory Hs_Prov
  imports Hss_Connection "HOL-Library.Sublist"
begin

text \<open>
  The connection to Homestead-Prov, used instead of an HSS: the Cassandra reads of
  \<open>src/hsprov_store.cpp\<close> and the connection of \<open>src/hsprov_hss_connection.cpp\<close>, which interprets
  the locale \<open>hss_connection\<close>. Cassandra is a parameter. The results: the charging addresses come
  out primary first whatever the order of the columns, and a vector is handed out exactly when the
  private identity has one and is associated with the public identity.
\<close>

section \<open>Cassandra\<close>

text \<open>
  \<open>ha_get_columns\<close> on a column family, a key and a list of column names gives the columns that
  exist, as name and value, or raises an exception, which the framework of \<open>CassandraStore\<close> turns
  into the result code of the operation.
\<close>

datatype cass_result = CASS_OK | CASS_NOT_FOUND | CASS_OTHER

type_synonym cassandra = "string \<Rightarrow> string \<Rightarrow> string list \<Rightarrow> cass_result + (string \<times> string) list"

definition IMS_SUB_XML_COLUMN_NAME :: string where "IMS_SUB_XML_COLUMN_NAME = ''ims_subscription_xml''"
definition PRIMARY_CCF_COLUMN_NAME :: string where "PRIMARY_CCF_COLUMN_NAME = ''primary_ccf''"
definition SECONDARY_CCF_COLUMN_NAME :: string where "SECONDARY_CCF_COLUMN_NAME = ''secondary_ccf''"
definition PRIMARY_ECF_COLUMN_NAME :: string where "PRIMARY_ECF_COLUMN_NAME = ''primary_ecf''"
definition SECONDARY_ECF_COLUMN_NAME :: string where "SECONDARY_ECF_COLUMN_NAME = ''secondary_ecf''"
definition ASSOC_PUBLIC_ID_COLUMN_PREFIX :: string where "ASSOC_PUBLIC_ID_COLUMN_PREFIX = ''public_id_''"
definition DIGEST_HA1_COLUMN_NAME :: string where "DIGEST_HA1_COLUMN_NAME = ''digest_ha1''"
definition DIGEST_REALM_COLUMN_NAME :: string where "DIGEST_REALM_COLUMN_NAME = ''digest_realm''"
definition DIGEST_QOP_COLUMN_NAME :: string where "DIGEST_QOP_COLUMN_NAME = ''digest_qop''"

lemmas column_names = IMS_SUB_XML_COLUMN_NAME_def PRIMARY_CCF_COLUMN_NAME_def
  SECONDARY_CCF_COLUMN_NAME_def PRIMARY_ECF_COLUMN_NAME_def SECONDARY_ECF_COLUMN_NAME_def
  ASSOC_PUBLIC_ID_COLUMN_PREFIX_def DIGEST_HA1_COLUMN_NAME_def DIGEST_REALM_COLUMN_NAME_def
  DIGEST_QOP_COLUMN_NAME_def

section \<open>Registration data\<close>

text \<open>The members \<open>_xml\<close> and \<open>_charging_addrs\<close> of \<open>GetRegData\<close>, and one turn of its loop.\<close>

record reg_data =
  rd_xml :: string
  rd_charging :: ChargingAddresses

definition read_reg_column :: "string \<times> string \<Rightarrow> reg_data \<Rightarrow> reg_data" where
  "read_reg_column column d =
     (let (name, value) = column; ch = rd_charging d
      in if name = IMS_SUB_XML_COLUMN_NAME then d\<lparr>rd_xml := value\<rparr>
         else if name = PRIMARY_CCF_COLUMN_NAME \<and> value \<noteq> '''' then
           d\<lparr>rd_charging := ch\<lparr>ccfs := value # ccfs ch\<rparr>\<rparr>
         else if name = SECONDARY_CCF_COLUMN_NAME \<and> value \<noteq> '''' then
           d\<lparr>rd_charging := ch\<lparr>ccfs := ccfs ch @ [value]\<rparr>\<rparr>
         else if name = PRIMARY_ECF_COLUMN_NAME \<and> value \<noteq> '''' then
           d\<lparr>rd_charging := ch\<lparr>ecfs := value # ecfs ch\<rparr>\<rparr>
         else if name = SECONDARY_ECF_COLUMN_NAME \<and> value \<noteq> '''' then
           d\<lparr>rd_charging := ch\<lparr>ecfs := ecfs ch @ [value]\<rparr>\<rparr>
         else d)"

definition get_reg_data_perform :: "cassandra \<Rightarrow> string \<Rightarrow> cass_result \<times> reg_data" where
  "get_reg_data_perform cass public_id =
     (case cass ''impu'' public_id
        [IMS_SUB_XML_COLUMN_NAME, PRIMARY_CCF_COLUMN_NAME, SECONDARY_CCF_COLUMN_NAME,
         PRIMARY_ECF_COLUMN_NAME, SECONDARY_ECF_COLUMN_NAME] of
        Inl rc \<Rightarrow> (rc, \<lparr>rd_xml = '''', rd_charging = no_charging\<rparr>)
      | Inr results \<Rightarrow>
          (CASS_OK, fold read_reg_column results \<lparr>rd_xml = '''', rd_charging = no_charging\<rparr>))"

section \<open>Authentication vectors\<close>

text \<open>The vector and \<open>public_id_found\<close>, after one column.\<close>

definition read_av_column ::
  "string \<Rightarrow> string \<times> string \<Rightarrow> DigestAuthVector \<times> bool \<Rightarrow> DigestAuthVector \<times> bool" where
  "read_av_column public_id_col column acc =
     (let (name, value) = column; (av, public_id_found) = acc
      in if name = DIGEST_HA1_COLUMN_NAME then (av\<lparr>ha1 := value\<rparr>, public_id_found)
         else if name = DIGEST_REALM_COLUMN_NAME then (av\<lparr>realm := value\<rparr>, public_id_found)
         else if name = DIGEST_QOP_COLUMN_NAME then (av\<lparr>qop := value\<rparr>, public_id_found)
         else if name = public_id_col then (av, True)
         else (av, public_id_found))"

definition get_av_perform :: "cassandra \<Rightarrow> string \<Rightarrow> string \<Rightarrow> cass_result \<times> DigestAuthVector" where
  "get_av_perform cass private_id public_id =
     (let public_id_requested = (length public_id > 0);
          public_id_col = (if public_id_requested then ASSOC_PUBLIC_ID_COLUMN_PREFIX @ public_id else '''');
          requested_columns =
            [DIGEST_HA1_COLUMN_NAME, DIGEST_REALM_COLUMN_NAME, DIGEST_QOP_COLUMN_NAME] @
            (if public_id_requested then [public_id_col] else [])
      in case cass ''impi'' private_id requested_columns of
           Inl rc \<Rightarrow> (rc, new_DigestAuthVector)
         | Inr results \<Rightarrow>
             let (av, public_id_found) =
               fold (read_av_column public_id_col) results (new_DigestAuthVector, False)
             in if public_id_requested \<and> \<not> public_id_found then (CASS_NOT_FOUND, av)
                else if ha1 av = '''' then (CASS_NOT_FOUND, av)
                else (CASS_OK, av))"

section \<open>Answers\<close>

definition cass_rc :: "cass_result \<Rightarrow> ResultCode" where
  "cass_rc r = (if r = CASS_OK then RC_SUCCESS else if r = CASS_NOT_FOUND then RC_NOT_FOUND else RC_TIMEOUT)"

text \<open>
  The answer to an authentication request. A result code of an operation that failed is not
  \<open>CASS_OK\<close>; the model keeps the three values apart so that the branches are those of the code.
\<close>

definition hsprov_mar ::
  "auth_schemes \<Rightarrow> MultimediaAuthRequest \<Rightarrow> cassandra \<Rightarrow> MultimediaAuthAnswer" where
  "hsprov_mar S req cass =
     (let (rc, av) = get_av_perform cass (mar_impi req) (mar_impu req)
      in \<lparr>maa_result = cass_rc rc,
          maa_av = (if rc = CASS_OK then Some (DigestAV av) else None),
          maa_scheme = scheme_digest S\<rparr>)"

definition hsprov_uar :: "string \<Rightarrow> UserAuthRequest \<Rightarrow> cassandra \<Rightarrow> UserAuthAnswer" where
  "hsprov_uar configured_server_name req cass =
     \<lparr>uaa_result = RC_SUCCESS, uaa_json_result = 2001, uaa_server = configured_server_name,
      uaa_capabilities = no_capabilities\<rparr>"

definition hsprov_lir :: "string \<Rightarrow> LocationInfoRequest \<Rightarrow> cassandra \<Rightarrow> LocationInfoAnswer" where
  "hsprov_lir configured_server_name req cass =
     (let (rc, d) = get_reg_data_perform cass (lir_impu req)
      in \<lparr>lia_result = cass_rc rc,
          lia_json_result = (if rc = CASS_OK then 2001 else 0),
          lia_server = (if rc = CASS_OK then configured_server_name else ''''),
          lia_capabilities = no_capabilities, lia_wildcard_impu = ''''\<rparr>)"

definition hsprov_sar_answer :: "cass_result \<Rightarrow> reg_data \<Rightarrow> ServerAssignmentAnswer" where
  "hsprov_sar_answer rc d =
     (if rc = CASS_OK then
        \<lparr>saa_result = RC_SUCCESS, saa_charging = rd_charging d, saa_service_profile = rd_xml d,
         saa_wildcard_impu = ''''\<rparr>
      else saa_of_rc (cass_rc rc))"

definition hsprov_sar :: "ServerAssignmentRequest \<Rightarrow> cassandra \<Rightarrow> ServerAssignmentAnswer" where
  "hsprov_sar req cass =
     (if sar_type req = REGISTRATION \<or> sar_type req = RE_REGISTRATION \<or> sar_type req = UNREGISTERED_USER then
        let (rc, d) = get_reg_data_perform cass (sar_impu req) in hsprov_sar_answer rc d
      else saa_of_rc RC_SUCCESS)"

text \<open>The latencies added to the Homestead-Prov figure when an operation ends.\<close>

definition hsprov_update_latency_stats :: "bool \<Rightarrow> nat option \<Rightarrow> nat list" where
  "hsprov_update_latency_stats has_stats_manager duration =
     (if has_stats_manager then (case duration of None \<Rightarrow> [] | Some latency \<Rightarrow> [latency]) else [])"

interpretation hsp: hss_connection S "hsprov_mar S" "hsprov_uar name" "hsprov_lir name" hsprov_sar for S name
  by unfold_locales
    (auto simp: maa_typed_def hsprov_mar_def hsprov_uar_def hsprov_lir_def hsprov_sar_def hsprov_sar_answer_def cass_rc_def
      saa_of_rc_def Let_def split: prod.split if_splits)

section \<open>Properties\<close>

definition column_value :: "(string \<times> string) list \<Rightarrow> string \<Rightarrow> string" where
  "column_value results name = (case map_of results name of None \<Rightarrow> '''' | Some v \<Rightarrow> v)"

definition column_values :: "(string \<times> string) list \<Rightarrow> string list \<Rightarrow> string list" where
  "column_values results names = filter (\<lambda>v. v \<noteq> '''') (map (column_value results) names)"

lemma column_value_snoc:
  "fst x \<notin> fst ` set results \<Longrightarrow>
     column_value (results @ [x]) n = (if n = fst x then snd x else column_value results n)"
proof -
  assume "fst x \<notin> fst ` set results"
  then have "map_of results (fst x) = None" by (simp add: map_of_eq_None_iff)
  then show ?thesis
    by (cases x) (auto simp: column_value_def map_add_def split: option.split)
qed

lemma column_value_fresh: "n \<notin> fst ` set results \<Longrightarrow> column_value results n = ''''"
  by (simp add: column_value_def map_of_eq_None_iff [THEN iffD2])

lemma column_names_neq [simp]:
  "IMS_SUB_XML_COLUMN_NAME \<noteq> PRIMARY_CCF_COLUMN_NAME"
  "IMS_SUB_XML_COLUMN_NAME \<noteq> SECONDARY_CCF_COLUMN_NAME"
  "IMS_SUB_XML_COLUMN_NAME \<noteq> PRIMARY_ECF_COLUMN_NAME"
  "IMS_SUB_XML_COLUMN_NAME \<noteq> SECONDARY_ECF_COLUMN_NAME"
  "PRIMARY_CCF_COLUMN_NAME \<noteq> IMS_SUB_XML_COLUMN_NAME"
  "PRIMARY_CCF_COLUMN_NAME \<noteq> SECONDARY_CCF_COLUMN_NAME"
  "PRIMARY_CCF_COLUMN_NAME \<noteq> PRIMARY_ECF_COLUMN_NAME"
  "PRIMARY_CCF_COLUMN_NAME \<noteq> SECONDARY_ECF_COLUMN_NAME"
  "SECONDARY_CCF_COLUMN_NAME \<noteq> IMS_SUB_XML_COLUMN_NAME"
  "SECONDARY_CCF_COLUMN_NAME \<noteq> PRIMARY_CCF_COLUMN_NAME"
  "SECONDARY_CCF_COLUMN_NAME \<noteq> PRIMARY_ECF_COLUMN_NAME"
  "SECONDARY_CCF_COLUMN_NAME \<noteq> SECONDARY_ECF_COLUMN_NAME"
  "PRIMARY_ECF_COLUMN_NAME \<noteq> IMS_SUB_XML_COLUMN_NAME"
  "PRIMARY_ECF_COLUMN_NAME \<noteq> PRIMARY_CCF_COLUMN_NAME"
  "PRIMARY_ECF_COLUMN_NAME \<noteq> SECONDARY_CCF_COLUMN_NAME"
  "PRIMARY_ECF_COLUMN_NAME \<noteq> SECONDARY_ECF_COLUMN_NAME"
  "SECONDARY_ECF_COLUMN_NAME \<noteq> IMS_SUB_XML_COLUMN_NAME"
  "SECONDARY_ECF_COLUMN_NAME \<noteq> PRIMARY_CCF_COLUMN_NAME"
  "SECONDARY_ECF_COLUMN_NAME \<noteq> SECONDARY_CCF_COLUMN_NAME"
  "SECONDARY_ECF_COLUMN_NAME \<noteq> PRIMARY_ECF_COLUMN_NAME"
  "DIGEST_HA1_COLUMN_NAME \<noteq> DIGEST_REALM_COLUMN_NAME"
  "DIGEST_HA1_COLUMN_NAME \<noteq> DIGEST_QOP_COLUMN_NAME"
  "DIGEST_REALM_COLUMN_NAME \<noteq> DIGEST_HA1_COLUMN_NAME"
  "DIGEST_REALM_COLUMN_NAME \<noteq> DIGEST_QOP_COLUMN_NAME"
  "DIGEST_QOP_COLUMN_NAME \<noteq> DIGEST_HA1_COLUMN_NAME"
  "DIGEST_QOP_COLUMN_NAME \<noteq> DIGEST_REALM_COLUMN_NAME"
  by (simp_all add: column_names)

lemma read_reg_columns:
  assumes "distinct (map fst results)"
  shows "fold read_reg_column results \<lparr>rd_xml = '''', rd_charging = no_charging\<rparr> =
    \<lparr>rd_xml = column_value results IMS_SUB_XML_COLUMN_NAME,
     rd_charging =
       \<lparr>ccfs = column_values results [PRIMARY_CCF_COLUMN_NAME, SECONDARY_CCF_COLUMN_NAME],
        ecfs = column_values results [PRIMARY_ECF_COLUMN_NAME, SECONDARY_ECF_COLUMN_NAME]\<rparr>\<rparr>"
  using assms
proof (induction results rule: rev_induct)
  case Nil
  then show ?case by (simp add: column_value_def column_values_def no_charging_def)
next
  case (snoc x results)
  obtain n v where x: "x = (n, v)" by (cases x)
  have fresh: "n \<notin> fst ` set results" and "distinct (map fst results)" using snoc.prems x by auto
  note IH = snoc.IH [OF this(2)]
  show ?case
    using fresh
    by (simp add: x IH) (auto simp: read_reg_column_def column_values_def column_value_snoc column_value_fresh)
qed

text \<open>
  What a registration read returns does not depend on the order in which Cassandra returns the
  columns: the XML column, and the non-empty charging functions, primary before secondary. A server
  assignment that needs no data succeeds without a read.
\<close>

theorem hsprov_sar_data:
  assumes "cass ''impu'' (sar_impu req)
      [IMS_SUB_XML_COLUMN_NAME, PRIMARY_CCF_COLUMN_NAME, SECONDARY_CCF_COLUMN_NAME,
       PRIMARY_ECF_COLUMN_NAME, SECONDARY_ECF_COLUMN_NAME] = Inr results"
    and "distinct (map fst results)"
  shows "hsprov_sar req cass =
    (if sar_type req \<in> {REGISTRATION, RE_REGISTRATION, UNREGISTERED_USER} then
       \<lparr>saa_result = RC_SUCCESS,
        saa_charging =
          \<lparr>ccfs = column_values results [PRIMARY_CCF_COLUMN_NAME, SECONDARY_CCF_COLUMN_NAME],
           ecfs = column_values results [PRIMARY_ECF_COLUMN_NAME, SECONDARY_ECF_COLUMN_NAME]\<rparr>,
        saa_service_profile = column_value results IMS_SUB_XML_COLUMN_NAME, saa_wildcard_impu = ''''\<rparr>
     else saa_of_rc RC_SUCCESS)"
  using assms by (simp add: hsprov_sar_def hsprov_sar_answer_def get_reg_data_perform_def read_reg_columns)

theorem hsprov_sar_data_witness:
  "hsprov_sar \<lparr>sar_impi = '''', sar_impu = ''sip:a'', sar_server_name = '''', sar_type = REGISTRATION,
       sar_support_shared_ifcs = True, sar_wildcard_impu = ''''\<rparr>
     (\<lambda>family key names. Inr [(''secondary_ccf'', ''c2''), (''primary_ccf'', ''c1''), (''ims_subscription_xml'', ''x'')]) =
   \<lparr>saa_result = RC_SUCCESS, saa_charging = \<lparr>ccfs = [''c1'', ''c2''], ecfs = []\<rparr>,
    saa_service_profile = ''x'', saa_wildcard_impu = ''''\<rparr>"
  by (subst hsprov_sar_data [where results =
        "[(''secondary_ccf'', ''c2''), (''primary_ccf'', ''c1''), (''ims_subscription_xml'', ''x'')]"])
    (simp_all add: column_values_def column_value_def column_names)

lemma read_av_columns:
  assumes "distinct (map fst results)"
  shows "fold (read_av_column col) results (new_DigestAuthVector, False) =
    (\<lparr>ha1 = column_value results DIGEST_HA1_COLUMN_NAME, realm = column_value results DIGEST_REALM_COLUMN_NAME,
      qop = column_value results DIGEST_QOP_COLUMN_NAME\<rparr>,
     col \<in> fst ` set results - {DIGEST_HA1_COLUMN_NAME, DIGEST_REALM_COLUMN_NAME, DIGEST_QOP_COLUMN_NAME})"
  using assms
proof (induction results rule: rev_induct)
  case Nil
  then show ?case by (simp add: column_value_def new_DigestAuthVector_def)
next
  case (snoc x results)
  obtain n v where x: "x = (n, v)" by (cases x)
  have fresh: "n \<notin> fst ` set results" and "distinct (map fst results)" using snoc.prems x by auto
  note IH = snoc.IH [OF this(2)]
  show ?case
    using fresh by (simp add: x IH) (auto simp: read_av_column_def column_value_snoc)
qed

text \<open>
  An authentication request on Homestead-Prov succeeds exactly when the private identity has a
  non-empty HA1 and, if a public identity is given, a column that associates the two; the answer is
  then the stored digest. Otherwise the answer says that there is none.
\<close>

theorem hsprov_mar_found:
  assumes "cass ''impi'' (mar_impi req)
      ([DIGEST_HA1_COLUMN_NAME, DIGEST_REALM_COLUMN_NAME, DIGEST_QOP_COLUMN_NAME] @
       (if mar_impu req = '''' then [] else [ASSOC_PUBLIC_ID_COLUMN_PREFIX @ mar_impu req])) = Inr results"
    and "distinct (map fst results)"
  shows "hsprov_mar S req cass =
    (if column_value results DIGEST_HA1_COLUMN_NAME \<noteq> '''' \<and>
        (mar_impu req = '''' \<or> ASSOC_PUBLIC_ID_COLUMN_PREFIX @ mar_impu req \<in> fst ` set results) then
       \<lparr>maa_result = RC_SUCCESS,
        maa_av = Some (DigestAV \<lparr>ha1 = column_value results DIGEST_HA1_COLUMN_NAME,
          realm = column_value results DIGEST_REALM_COLUMN_NAME, qop = column_value results DIGEST_QOP_COLUMN_NAME\<rparr>),
        maa_scheme = scheme_digest S\<rparr>
     else \<lparr>maa_result = RC_NOT_FOUND, maa_av = None, maa_scheme = scheme_digest S\<rparr>)"
proof -
  have neq: "ASSOC_PUBLIC_ID_COLUMN_PREFIX @ mar_impu req \<notin>
      {DIGEST_HA1_COLUMN_NAME, DIGEST_REALM_COLUMN_NAME, DIGEST_QOP_COLUMN_NAME}"
    by (simp add: column_names)
  have run: "get_av_perform cass (mar_impi req) (mar_impu req) =
    (let av = \<lparr>ha1 = column_value results DIGEST_HA1_COLUMN_NAME,
       realm = column_value results DIGEST_REALM_COLUMN_NAME, qop = column_value results DIGEST_QOP_COLUMN_NAME\<rparr>
     in (if ha1 av \<noteq> '''' \<and> (mar_impu req = '''' \<or> ASSOC_PUBLIC_ID_COLUMN_PREFIX @ mar_impu req \<in> fst ` set results)
         then CASS_OK else CASS_NOT_FOUND, av))"
    using assms neq by (cases "mar_impu req = []") (simp_all add: get_av_perform_def read_av_columns)
  show ?thesis
    by (simp add: hsprov_mar_def run Let_def cass_rc_def)
qed

theorem hsprov_mar_found_witness:
  "maa_result (hsprov_mar \<lparr>scheme_digest = ''d'', scheme_akav1 = ''a1'', scheme_akav2 = ''a2''\<rparr>
     \<lparr>mar_impi = ''i'', mar_impu = ''sip:a'', mar_server_name = '''', mar_scheme = ''d'', mar_authorization = ''''\<rparr>
     (\<lambda>family key names. Inr [(''digest_ha1'', ''h''), (''public_id_sip:b'', '''')])) = RC_NOT_FOUND"
  by (subst hsprov_mar_found [where results = "[(''digest_ha1'', ''h''), (''public_id_sip:b'', '''')]"])
    (simp_all add: column_value_def column_names)

end
