(* ===== verification/Http_Handlers.thy ===== *)
theory Http_Handlers
  imports Hss_Connection Xml_Utils Implicit_Reg_Set
begin

text \<open>
  The HTTP handlers of \<open>src/http_handlers.cpp\<close> that ask the HSS one question: the authentication
  tasks \<open>ImpiDigestTask\<close> and \<open>ImpiAvTask\<close>, \<open>ImpiRegistrationStatusTask\<close> and
  \<open>ImpuLocationInfoTask\<close>. A handler is a pair of functions, \<open>run\<close> and the callback, that return the
  actions of the task in order. The results: a task replies once and then deletes itself, the casts
  of the authentication answer are safe, and a penalty is recorded exactly for a timeout.
\<close>

section \<open>Requests and actions\<close>

datatype htp_method = METHOD_GET | METHOD_PUT | METHOD_OTHER

text \<open>
  The request as \<open>HttpStack::Request\<close> presents it; \<open>rq_param\<close> and \<open>rq_header\<close> give the empty string
  for what is missing.
\<close>

record http_request =
  rq_method :: htp_method
  rq_path :: string
  rq_full_path :: string
  rq_file :: string
  rq_param :: "string \<Rightarrow> string"
  rq_header :: "string \<Rightarrow> string"
  rq_body :: string

text \<open>
  A reply has no content, the text the JSON writer makes of some calls, or a printed XML document.
\<close>

datatype 'x content = No_content | Json "jevent list" | Xml "'x xout"

text \<open>
  What a task does: replies, requests to the HSS and to the cache, marks for overload control and
  the health checker, and \<open>delete this\<close>. \<open>Out_of_range\<close> is the exception of \<open>substr\<close>, \<open>Undefined\<close> a
  use of a pointer of the wrong class. Logging is left out.
\<close>

datatype 'x action =
    SendHttpReply http_code "'x content"
  | SendMAR MultimediaAuthRequest | SendUAR UserAuthRequest
  | SendLIR LocationInfoRequest | SendSAR ServerAssignmentRequest
  | CacheGet string | CachePut mirs | CacheDelete mirs
  | RecordPenalty | HealthCheckPassed | DeleteTask | Out_of_range | Undefined

definition rc_reply :: "http_code \<Rightarrow> 'x action" where
  "rc_reply code = SendHttpReply code No_content"

text \<open>
  The identity in a path such as \<open>/impi/<private ID>/digest\<close>: the part after the prefix, which has
  six characters, up to the next slash or the end. \<open>None\<close> is the exception of \<open>substr\<close> on a path
  that is shorter than the prefix.
\<close>

definition path_id :: "string \<Rightarrow> string option" where
  "path_id path =
     (if length path < 6 then None else Some (takeWhile (\<lambda>c. c \<noteq> CHR ''/'') (drop 6 path)))"

section \<open>Authentication\<close>

record impi_config =
  cfg_scheme_unknown :: string
  cfg_schemes :: auth_schemes

datatype impi_kind = ImpiDigestTask | ImpiAvTask

record impi_task =
  t_impi :: string
  t_impu :: string
  t_scheme :: string
  t_authorization :: string
  t_provided_server_name :: string

datatype 'a parsed = Parsed 'a | Rejected | Bad_path

text \<open>\<open>base64\<close> is cpp-common's \<open>base64_decode\<close>.\<close>

definition digest_parse_request :: "impi_config \<Rightarrow> http_request \<Rightarrow> impi_task parsed" where
  "digest_parse_request cfg req =
     (case path_id (rq_path req) of
        None \<Rightarrow> Bad_path
      | Some impi \<Rightarrow> Parsed
          \<lparr>t_impi = impi, t_impu = rq_param req ''public_id'', t_scheme = scheme_digest (cfg_schemes cfg),
           t_authorization = '''', t_provided_server_name = rq_param req ''server-name''\<rparr>)"

definition av_parse_request ::
  "(string \<Rightarrow> string) \<Rightarrow> impi_config \<Rightarrow> http_request \<Rightarrow> impi_task parsed" where
  "av_parse_request base64 cfg req =
     (case path_id (rq_path req) of
        None \<Rightarrow> Bad_path
      | Some impi \<Rightarrow>
          let scheme =
            (if rq_file req = ''av'' then Some (cfg_scheme_unknown cfg)
             else if rq_file req = ''digest'' then Some (scheme_digest (cfg_schemes cfg))
             else if rq_file req = ''aka'' then Some (scheme_akav1 (cfg_schemes cfg))
             else if rq_file req = ''aka2'' then Some (scheme_akav2 (cfg_schemes cfg))
             else None)
          in case scheme of
               None \<Rightarrow> Rejected
             | Some s \<Rightarrow> Parsed
                 \<lparr>t_impi = impi, t_impu = rq_param req ''impu'', t_scheme = s,
                  t_authorization = base64 (rq_param req ''resync-auth''),
                  t_provided_server_name = rq_param req ''server-name''\<rparr>)"

definition send_mar :: "string \<Rightarrow> impi_task \<Rightarrow> 'x action list" where
  "send_mar configured_server_name t =
     [SendMAR \<lparr>mar_impi = t_impi t, mar_impu = t_impu t,
        mar_server_name = (if t_provided_server_name t = '''' then configured_server_name
                           else t_provided_server_name t),
        mar_scheme = t_scheme t, mar_authorization = t_authorization t\<rparr>]"

definition get_av :: "string \<Rightarrow> impi_task \<Rightarrow> 'x action list" where
  "get_av configured_server_name t =
     (if t_impu t = '''' then [rc_reply HTTP_NOT_FOUND, DeleteTask] else send_mar configured_server_name t)"

definition impi_run ::
  "impi_kind \<Rightarrow> (string \<Rightarrow> string) \<Rightarrow> impi_config \<Rightarrow> string \<Rightarrow> http_request \<Rightarrow> 'x action list" where
  "impi_run kind base64 cfg configured_server_name req =
     (case (case kind of ImpiDigestTask \<Rightarrow> digest_parse_request cfg req
            | ImpiAvTask \<Rightarrow> av_parse_request base64 cfg req) of
        Bad_path \<Rightarrow> [Out_of_range]
      | Rejected \<Rightarrow> [rc_reply HTTP_NOT_FOUND, DeleteTask]
      | Parsed t \<Rightarrow> get_av configured_server_name t)"

text \<open>The two \<open>send_reply\<close> methods of each subclass.\<close>

fun send_reply_digest :: "impi_kind \<Rightarrow> DigestAuthVector \<Rightarrow> 'x action" where
  "send_reply_digest ImpiDigestTask av =
     SendHttpReply HTTP_OK (Json
       [JStartObject, JString ''digest_ha1'', JString (c_str (ha1 av)), JEndObject])"
| "send_reply_digest ImpiAvTask av =
     SendHttpReply HTTP_OK (Json
       [JStartObject, JString ''digest'', JStartObject,
        JString ''ha1'', JString (c_str (ha1 av)),
        JString ''realm'', JString (c_str (realm av)),
        JString ''qop'', JString (c_str (if qop av \<noteq> '''' then qop av else ''auth'')),
        JEndObject, JEndObject])"

fun send_reply_aka :: "impi_kind \<Rightarrow> AKAAuthVector \<Rightarrow> 'x action" where
  "send_reply_aka ImpiDigestTask av = rc_reply HTTP_NOT_FOUND"
| "send_reply_aka ImpiAvTask av =
     SendHttpReply HTTP_OK (Json
       [JStartObject, JString ''aka'', JStartObject,
        JString ''challenge'', JString (c_str (challenge av)),
        JString ''response'', JString (c_str (response av)),
        JString ''cryptkey'', JString (c_str (crypt_key av)),
        JString ''integritykey'', JString (c_str (integrity_key av)),
        JString ''version'', JInt (version av),
        JEndObject, JEndObject])"

text \<open>
  The callback of the multimedia-auth request. The pointer is cast to the class that the scheme
  stands for and dereferenced.
\<close>

definition on_mar_response :: "impi_kind \<Rightarrow> impi_config \<Rightarrow> MultimediaAuthAnswer \<Rightarrow> 'x action list" where
  "on_mar_response kind cfg maa =
     (let rc = maa_result maa; scheme = maa_scheme maa; S = cfg_schemes cfg
      in (if rc = RC_SUCCESS then
            if scheme = scheme_digest S then
              (case maa_av maa of Some (DigestAV av) \<Rightarrow> [send_reply_digest kind av] | _ \<Rightarrow> [Undefined])
            else if scheme = scheme_akav1 S then
              (case maa_av maa of Some (AKAAV av) \<Rightarrow> [send_reply_aka kind av] | _ \<Rightarrow> [Undefined])
            else if scheme = scheme_akav2 S then
              (case maa_av maa of
                 Some (AKAAV av) \<Rightarrow> [send_reply_aka kind (av\<lparr>version := 2\<rparr>)] | _ \<Rightarrow> [Undefined])
            else [rc_reply HTTP_NOT_FOUND]
          else if rc = RC_SERVER_UNAVAILABLE then [rc_reply HTTP_SERVER_UNAVAILABLE]
          else if rc = RC_NOT_FOUND then [rc_reply HTTP_NOT_FOUND]
          else if rc = RC_TIMEOUT then [RecordPenalty, rc_reply HTTP_GATEWAY_TIMEOUT]
          else [rc_reply HTTP_SERVER_ERROR]) @ [DeleteTask])"

section \<open>Registration status\<close>

definition reg_status_run :: "string \<Rightarrow> http_request \<Rightarrow> 'x action list" where
  "reg_status_run default_realm req =
     (case path_id (rq_path req) of
        None \<Rightarrow> [Out_of_range]
      | Some impi \<Rightarrow>
          [SendUAR \<lparr>uar_impi = impi, uar_impu = rq_param req ''impu'',
             uar_visited_network = (if rq_param req ''visited-network'' = '''' then default_realm
                                    else rq_param req ''visited-network''),
             uar_authorization_type = rq_param req ''auth-type'',
             uar_emergency = (rq_param req ''sos'' = ''true'')\<rparr>])"

text \<open>The server name of the answer, else its capabilities with the name they may hold.\<close>

definition write_server :: "string \<Rightarrow> ServerCapabilities \<Rightarrow> jevent list" where
  "write_server server_name capabilities =
     (if server_name \<noteq> '''' then [JString ''scscf'', JString (c_str server_name)]
      else (if cap_server_name capabilities \<noteq> ''''
            then [JString ''scscf'', JString (c_str (cap_server_name capabilities))] else []) @
           write_capabilities capabilities)"

definition on_uar_response :: "bool \<Rightarrow> UserAuthAnswer \<Rightarrow> 'x action list" where
  "on_uar_response has_health_checker uaa =
     (let rc = uaa_result uaa
      in (if rc = RC_SUCCESS then
            [SendHttpReply HTTP_OK (Json
               ([JStartObject, JString ''result-code'', JInt (uaa_json_result uaa)] @
                write_server (uaa_server uaa) (uaa_capabilities uaa) @ [JEndObject]))] @
            (if has_health_checker then [HealthCheckPassed] else [])
          else if rc = RC_NOT_FOUND then [rc_reply HTTP_NOT_FOUND]
          else if rc = RC_FORBIDDEN then [rc_reply HTTP_FORBIDDEN]
          else if rc = RC_TIMEOUT then [RecordPenalty, rc_reply HTTP_GATEWAY_TIMEOUT]
          else if rc = RC_SERVER_UNAVAILABLE then [rc_reply HTTP_SERVER_UNAVAILABLE]
          else [rc_reply HTTP_SERVER_ERROR]) @ [DeleteTask])"

section \<open>Location information\<close>

definition location_info_run :: "http_request \<Rightarrow> 'x action list" where
  "location_info_run req =
     (case path_id (rq_path req) of
        None \<Rightarrow> [Out_of_range]
      | Some impu \<Rightarrow>
          [SendLIR \<lparr>lir_impu = impu, lir_originating = rq_param req ''originating'',
             lir_authorization_type = rq_param req ''auth-type''\<rparr>])"

definition on_lir_response :: "LocationInfoAnswer \<Rightarrow> 'x action list" where
  "on_lir_response lia =
     (let rc = lia_result lia
      in (if rc = RC_SUCCESS then
            [SendHttpReply HTTP_OK (Json
               ([JStartObject, JString ''result-code'', JInt (lia_json_result lia)] @
                write_server (lia_server lia) (lia_capabilities lia) @
                (if lia_wildcard_impu lia \<noteq> ''''
                 then [JString ''wildcard-identity'', JString (c_str (lia_wildcard_impu lia))] else []) @
                [JEndObject]))]
          else if rc = RC_NOT_FOUND then [rc_reply HTTP_NOT_FOUND]
          else if rc = RC_TIMEOUT then [RecordPenalty, rc_reply HTTP_GATEWAY_TIMEOUT]
          else if rc = RC_SERVER_UNAVAILABLE then [rc_reply HTTP_SERVER_UNAVAILABLE]
          else [rc_reply HTTP_SERVER_ERROR]) @ [DeleteTask])"

section \<open>What a task owes its client\<close>

fun replies :: "'x action list \<Rightarrow> http_code list" where
  "replies [] = []"
| "replies (SendHttpReply code content # as) = code # replies as"
| "replies (_ # as) = replies as"

text \<open>A task that ends replies once, does nothing undefined, and deletes itself last.\<close>

definition finished :: "'x action list \<Rightarrow> bool" where
  "finished as \<longleftrightarrow> length (replies as) = 1 \<and> as \<noteq> [] \<and> last as = DeleteTask \<and>
     DeleteTask \<notin> set (butlast as) \<and> Undefined \<notin> set as \<and> Out_of_range \<notin> set as"

text \<open>The status code for each result of the HSS, the same for all tasks.\<close>

fun http_of_rc :: "ResultCode \<Rightarrow> http_code" where
  "http_of_rc RC_SUCCESS = HTTP_OK"
| "http_of_rc RC_NOT_FOUND = HTTP_NOT_FOUND"
| "http_of_rc RC_FORBIDDEN = HTTP_FORBIDDEN"
| "http_of_rc RC_TIMEOUT = HTTP_GATEWAY_TIMEOUT"
| "http_of_rc RC_SERVER_UNAVAILABLE = HTTP_SERVER_UNAVAILABLE"
| "http_of_rc _ = HTTP_SERVER_ERROR"

definition task_ends :: "ResultCode \<Rightarrow> http_code \<Rightarrow> 'x action list \<Rightarrow> bool" where
  "task_ends rc code as \<longleftrightarrow> finished as \<and> replies as = [code] \<and>
     (RecordPenalty \<in> set as \<longleftrightarrow> rc = RC_TIMEOUT)"

lemma replies_append [simp]: "replies (as @ bs) = replies as @ replies bs"
  by (induction as rule: replies.induct) auto

lemma replies_rc [simp]: "replies (rc_reply code # as) = code # replies as"
  by (simp add: rc_reply_def)

lemma rc_reply_neq [simp]:
  "rc_reply code \<noteq> DeleteTask" "rc_reply code \<noteq> Undefined" "rc_reply code \<noteq> Out_of_range"
  "rc_reply code \<noteq> RecordPenalty" "DeleteTask \<noteq> rc_reply code" "Undefined \<noteq> rc_reply code"
  "Out_of_range \<noteq> rc_reply code" "RecordPenalty \<noteq> rc_reply code"
  by (simp_all add: rc_reply_def)

context hss_connection
begin

text \<open>
  Through a connection that keeps the contract, a digest answer is returned to both tasks, an AKA
  answer only to the AV task.
\<close>

lemma mar_ends:
  assumes "cfg_schemes cfg = schemes"
  shows "task_ends (maa_result (mar mreq r))
    (if maa_result (mar mreq r) = RC_SUCCESS
     then if kind = ImpiDigestTask \<and> maa_scheme (mar mreq r) \<noteq> scheme_digest schemes
          then HTTP_NOT_FOUND else HTTP_OK
     else http_of_rc (maa_result (mar mreq r)))
    (on_mar_response kind cfg (mar mreq r))"
proof (cases "maa_result (mar mreq r) = RC_SUCCESS")
  case True
  show ?thesis
  proof (cases "maa_scheme (mar mreq r) = scheme_digest schemes")
    case digest: True
    with True mar_typed [of mreq r] obtain v where "maa_av (mar mreq r) = Some (DigestAV v)"
      by (auto simp: maa_typed_def)
    then show ?thesis
      using True digest by (cases kind) (simp_all add: on_mar_response_def assms task_ends_def finished_def)
  next
    case False
    with True mar_typed [of mreq r] obtain v where "maa_av (mar mreq r) = Some (AKAAV v)"
      and "maa_scheme (mar mreq r) = scheme_akav1 schemes \<or> maa_scheme (mar mreq r) = scheme_akav2 schemes"
      by (auto simp: maa_typed_def split: if_splits)
    then show ?thesis
      using True False by (cases kind) (auto simp: on_mar_response_def assms task_ends_def finished_def Let_def)
  qed
next
  case False
  then show ?thesis
    using mar_codes [of mreq r]
    by (auto simp: on_mar_response_def task_ends_def finished_def)
qed

lemma uar_ends:
  "task_ends (uaa_result (uar ureq r)) (http_of_rc (uaa_result (uar ureq r))) (on_uar_response h (uar ureq r))"
  using uar_codes [of ureq r] by (auto simp: on_uar_response_def task_ends_def finished_def)

lemma lir_ends:
  "task_ends (lia_result (lir lreq r)) (http_of_rc (lia_result (lir lreq r))) (on_lir_response (lir lreq r))"
  using lir_codes [of lreq r] by (auto simp: on_lir_response_def task_ends_def finished_def)

end

end
