(* ===== verification/Handler_Properties.thy ===== *)
theory Handler_Properties
  imports Diameter_Hss Hs_Prov Http_Handlers
begin

text \<open>
  What the handlers that ask the HSS one question do, over each of the two connections. The lemmas
  are those of the locale \<open>hss_connection\<close>, through its interpretations \<open>dia\<close> and \<open>hsp\<close>.
\<close>

lemmas dia_ends = hss_connection.mar_ends [OF dia.hss_connection_axioms]
  hss_connection.uar_ends [OF dia.hss_connection_axioms] hss_connection.lir_ends [OF dia.hss_connection_axioms]

lemmas hsp_ends = hss_connection.mar_ends [OF hsp.hss_connection_axioms]
  hss_connection.uar_ends [OF hsp.hss_connection_axioms] hss_connection.lir_ends [OF hsp.hss_connection_axioms]

text \<open>
  C37: over a Diameter connection an authentication, a registration status and a location request end
  with one reply whose code depends only on the result of the HSS, and with a penalty exactly for a
  timeout of the HSS. The cast of the authentication vector is to its class: nothing undefined is
  done. A digest request that gets an AKA vector is rejected.
\<close>

theorem diameter_tasks_end:
  assumes "cfg_schemes cfg = S"
  shows "task_ends (maa_result (diameter_mar S D env mreq r))
      (if maa_result (diameter_mar S D env mreq r) = RC_SUCCESS
       then if kind = ImpiDigestTask \<and> maa_scheme (diameter_mar S D env mreq r) \<noteq> scheme_digest S
            then HTTP_NOT_FOUND else HTTP_OK
       else http_of_rc (maa_result (diameter_mar S D env mreq r)))
      (on_mar_response kind cfg (diameter_mar S D env mreq r) :: 'x action list) \<and>
    task_ends (uaa_result (diameter_uar D env ureq r)) (http_of_rc (uaa_result (diameter_uar D env ureq r)))
      (on_uar_response h (diameter_uar D env ureq r) :: 'x action list) \<and>
    task_ends (lia_result (diameter_lir D env lreq r)) (http_of_rc (lia_result (diameter_lir D env lreq r)))
      (on_lir_response (diameter_lir D env lreq r) :: 'x action list)"
  by (intro conjI dia_ends(1) [OF assms] dia_ends(2,3))

definition sample_schemes :: auth_schemes where
  "sample_schemes = \<lparr>scheme_digest = ''SIP Digest'', scheme_akav1 = ''Digest-AKAv1-MD5'',
     scheme_akav2 = ''Digest-AKAv2-SHA-256''\<rparr>"

definition sample_mar :: MultimediaAuthRequest where
  "sample_mar = \<lparr>mar_impi = ''i'', mar_impu = ''sip:a'', mar_server_name = ''s'',
     mar_scheme = ''SIP Digest'', mar_authorization = ''''\<rparr>"

definition sample_uar :: UserAuthRequest where
  "sample_uar = \<lparr>uar_impi = ''i'', uar_impu = ''sip:a'', uar_visited_network = ''v'',
     uar_authorization_type = '''', uar_emergency = False\<rparr>"

definition sample_lir :: LocationInfoRequest where
  "sample_lir = \<lparr>lir_impu = ''sip:a'', lir_originating = '''', lir_authorization_type = ''''\<rparr>"

theorem diameter_tasks_end_witness:
  "task_ends RC_SERVER_UNAVAILABLE HTTP_SERVER_UNAVAILABLE
     (on_mar_response ImpiAvTask \<lparr>cfg_scheme_unknown = ''Unknown'', cfg_schemes = sample_schemes\<rparr>
       (diameter_mar sample_schemes ref_diameter sample_tsx_env sample_mar Timed_out) :: ref_msg action list)"
  using diameter_tasks_end [where 'x = ref_msg, of "\<lparr>cfg_scheme_unknown = ''Unknown'', cfg_schemes = sample_schemes\<rparr>"
      sample_schemes ref_diameter sample_tsx_env sample_mar Timed_out ImpiAvTask sample_uar True sample_lir]
  by (simp add: diameter_answer_defs maa_of_rc_def)

text \<open>
  Over Homestead-Prov the same tasks end in the same way. A user authorization always succeeds,
  and a failure of Cassandra other than a missing row is reported as a timeout.
\<close>

theorem hsprov_tasks_end:
  assumes "cfg_schemes cfg = S"
  shows "task_ends (maa_result (hsprov_mar S mreq cass)) (http_of_rc (maa_result (hsprov_mar S mreq cass)))
      (on_mar_response kind cfg (hsprov_mar S mreq cass) :: 'x action list) \<and>
    task_ends RC_SUCCESS HTTP_OK (on_uar_response h (hsprov_uar name ureq cass) :: 'x action list) \<and>
    task_ends (lia_result (hsprov_lir name lreq cass)) (http_of_rc (lia_result (hsprov_lir name lreq cass)))
      (on_lir_response (hsprov_lir name lreq cass) :: 'x action list) \<and>
    (replies (on_lir_response (hsprov_lir name lreq cass) :: 'x action list) = [HTTP_GATEWAY_TIMEOUT] \<longleftrightarrow>
      fst (get_reg_data_perform cass (lir_impu lreq)) = CASS_OTHER)"
proof -
  have "maa_scheme (hsprov_mar S mreq cass) = scheme_digest S"
    by (simp add: hsprov_mar_def split: prod.split)
  then have mar: "task_ends (maa_result (hsprov_mar S mreq cass)) (http_of_rc (maa_result (hsprov_mar S mreq cass)))
      (on_mar_response kind cfg (hsprov_mar S mreq cass) :: 'x action list)"
    using hsp_ends(1) [OF assms, of mreq cass kind] by (simp split: if_splits)
  have lir: "task_ends (lia_result (hsprov_lir name lreq cass)) (http_of_rc (lia_result (hsprov_lir name lreq cass)))
      (on_lir_response (hsprov_lir name lreq cass) :: 'x action list)"
    by (rule hsp_ends)
  have rc: "lia_result (hsprov_lir name lreq cass) = cass_rc (fst (get_reg_data_perform cass (lir_impu lreq)))"
    by (simp add: hsprov_lir_def split: prod.split)
  have "replies (on_lir_response (hsprov_lir name lreq cass) :: 'x action list) = [HTTP_GATEWAY_TIMEOUT] \<longleftrightarrow>
      fst (get_reg_data_perform cass (lir_impu lreq)) = CASS_OTHER"
    using rc
    by (cases "fst (get_reg_data_perform cass (lir_impu lreq))") (simp_all add: on_lir_response_def cass_rc_def)
  then show ?thesis
    using mar lir hsp_ends(2) [of name ureq cass h] by (simp add: hsprov_uar_def)
qed

theorem hsprov_tasks_end_witness:
  "replies (on_lir_response (hsprov_lir ''s'' sample_lir (\<lambda>family key names. Inl CASS_OTHER)) :: ref_msg action list) =
     [HTTP_GATEWAY_TIMEOUT]"
  using hsprov_tasks_end [where 'x = ref_msg, of "\<lparr>cfg_scheme_unknown = ''Unknown'', cfg_schemes = sample_schemes\<rparr>" sample_schemes
      sample_mar "\<lambda>family key names. Inl CASS_OTHER" ImpiDigestTask True "''s''" sample_uar sample_lir]
  by (simp add: get_reg_data_perform_def)

end
