(* ===== verification/Sprout_Connection.thy ===== *)
theory Sprout_Connection
  imports External Xml_Utils
begin

text \<open>
  The connection to Sprout (\<open>src/sproutconnection.cpp\<close>), over which the handlers of the HSS's
  requests report deregistrations and changed profiles. cpp-common's \<open>HttpConnection\<close> is a
  parameter: a function from the request that is sent to the status code that comes back. The result:
  the body of a deregistration names exactly the bindings that are to be removed.
\<close>

section \<open>Requests\<close>

datatype sprout_method = HTTP_DELETE | HTTP_PUT

record sprout_request =
  sp_method :: sprout_method
  sp_path :: string
  sp_body :: string

text \<open>A status code is one of those the program names, or another number.\<close>

datatype http_result = Named http_code | Unnamed int

text \<open>
  The methods return the status code, and the request they sent, which the model keeps for the
  record of what a task did.
\<close>

definition rtr_pair_events :: "string \<Rightarrow> string \<Rightarrow> jevent list" where
  "rtr_pair_events i j =
     [JStartObject, JString ''primary-impu'', JString (c_str i),
      JString ''impi'', JString (c_str j), JEndObject]"

definition rtr_impu_events :: "string \<Rightarrow> string list \<Rightarrow> jevent list" where
  "rtr_impu_events i impis =
     (if impis = [] then [JStartObject, JString ''primary-impu'', JString (c_str i), JEndObject]
      else concat (map (rtr_pair_events i) impis))"

definition rtr_create_body :: "('w, 'j) ext \<Rightarrow> string list \<Rightarrow> string list \<Rightarrow> string" where
  "rtr_create_body E default_public_ids impis =
     c_str (json_write E
       ([JStartObject, JString ''registrations'', JStartArray] @
        concat (map (\<lambda>i. rtr_impu_events i impis) default_public_ids) @ [JEndArray, JEndObject]))"

definition deregister_bindings ::
  "('w, 'j) ext \<Rightarrow> (sprout_request \<Rightarrow> http_result) \<Rightarrow> bool \<Rightarrow> string list \<Rightarrow> string list \<Rightarrow>
     http_result \<times> sprout_request" where
  "deregister_bindings E http send_notifications default_public_ids impis =
     (let req = \<lparr>sp_method = HTTP_DELETE,
        sp_path = ''/registrations?send-notifications='' @ (if send_notifications then ''true'' else ''false''),
        sp_body = rtr_create_body E default_public_ids impis\<rparr>
      in (http req, req))"

definition ppr_create_body :: "('w, 'j) ext \<Rightarrow> string \<Rightarrow> string" where
  "ppr_create_body E user_data =
     c_str (json_write E [JStartObject, JString ''user-data-xml'', JString (c_str user_data), JEndObject])"

definition change_associated_identities ::
  "('w, 'j) ext \<Rightarrow> (sprout_request \<Rightarrow> http_result) \<Rightarrow> string \<Rightarrow> string \<Rightarrow> http_result \<times> sprout_request" where
  "change_associated_identities E http default_id user_data =
     (let req = \<lparr>sp_method = HTTP_PUT, sp_path = ''/registrations/'' @ default_id,
        sp_body = ppr_create_body E user_data\<rparr>
      in (http req, req))"

section \<open>What the bodies say\<close>

text \<open>A registration in a body: the default IMPU, and the IMPI when there is one.\<close>

fun registration_events :: "string \<times> string option \<Rightarrow> jevent list" where
  "registration_events (i, None) = [JStartObject, JString ''primary-impu'', JString i, JEndObject]"
| "registration_events (i, Some j) =
     [JStartObject, JString ''primary-impu'', JString i, JString ''impi'', JString j, JEndObject]"

definition registrations_text :: "('w, 'j) ext \<Rightarrow> (string \<times> string option) list \<Rightarrow> string" where
  "registrations_text E rs =
     c_str (json_write E ([JStartObject, JString ''registrations'', JStartArray] @
        concat (map registration_events rs) @ [JEndArray, JEndObject]))"

lemma rtr_impu_events_eq:
  "rtr_impu_events i impis =
     concat (map registration_events
       (if impis = [] then [(c_str i, None)] else map (\<lambda>j. (c_str i, Some (c_str j))) impis))"
  by (simp add: rtr_impu_events_def rtr_pair_events_def o_def cong: map_cong)

lemma rtr_body_product:
  assumes "list_all no_nul ids" and "list_all no_nul impis"
  shows "rtr_create_body E ids impis =
    registrations_text E (List.product ids (if impis = [] then [None] else map Some impis))"
proof -
  have "concat (map (\<lambda>i. rtr_impu_events i impis) ids) =
      concat (map registration_events (List.product ids (if impis = [] then [None] else map Some impis)))"
    using assms
  proof (induction ids)
    case Nil
    then show ?case by simp
  next
    case (Cons i ids)
    then show ?case
      by (simp add: rtr_impu_events_eq list_all_iff o_def del: registration_events.simps cong: map_cong)
  qed
  then show ?thesis by (simp add: rtr_create_body_def registrations_text_def)
qed

end
