(* ===== verification/Task_Machine.thy ===== *)
theory Task_Machine
  imports "HOL-Library.Monad_Syntax"
begin

text \<open>
  Tasks that are driven by callbacks. A task is in a phase; the phase says which callbacks may come
  next, a callback changes the task and makes it act, and its actions lead to the next phase. The
  locale \<open>answering_task\<close> is the contract of a task that owes its peer one answer: the laws speak of
  one callback, and the lemmas of whole runs.
\<close>

section \<open>Runs\<close>

type_synonym ('p, 't, 'a) task_state = "'p \<times> 't \<times> 'a list"

text \<open>
  \<open>awaits p ev\<close> is the phase in which callback \<open>ev\<close> runs when it may come in phase \<open>p\<close>;
  \<open>after p as\<close> is the phase to which actions \<open>as\<close> lead.
\<close>

inductive task_run ::
  "('p \<Rightarrow> 'e \<Rightarrow> 'p option) \<Rightarrow> ('e \<Rightarrow> 't \<Rightarrow> 't \<times> 'a list) \<Rightarrow> ('p \<Rightarrow> 'a list \<Rightarrow> 'p) \<Rightarrow>
     'p \<Rightarrow> 't \<Rightarrow> 'e list \<Rightarrow> ('p, 't, 'a) task_state \<Rightarrow> bool"
  for awaits handle after p0 t0 where
  start: "task_run awaits handle after p0 t0 [] (p0, t0, [])"
| more: "task_run awaits handle after p0 t0 evs (p, t, acts) \<Longrightarrow> awaits p ev = Some p1 \<Longrightarrow>
    handle ev t = (t1, as) \<Longrightarrow>
    task_run awaits handle after p0 t0 (evs @ [ev]) (after p1 as, t1, acts @ as)"

text \<open>The same as a function.\<close>

fun task_exec ::
  "('p \<Rightarrow> 'e \<Rightarrow> 'p option) \<Rightarrow> ('e \<Rightarrow> 't \<Rightarrow> 't \<times> 'a list) \<Rightarrow> ('p \<Rightarrow> 'a list \<Rightarrow> 'p) \<Rightarrow>
     'e list \<Rightarrow> ('p, 't, 'a) task_state \<Rightarrow> ('p, 't, 'a) task_state option" where
  "task_exec awaits handle after [] s = Some s"
| "task_exec awaits handle after (ev # evs) (p, t, acts) =
     (case awaits p ev of
        None \<Rightarrow> None
      | Some p1 \<Rightarrow>
          let (t1, as) = handle ev t
          in task_exec awaits handle after evs (after p1 as, t1, acts @ as))"

lemma task_exec_run:
  assumes "task_run awaits handle after p0 t0 evs0 s" and "task_exec awaits handle after evs s = Some s1"
  shows "task_run awaits handle after p0 t0 (evs0 @ evs) s1"
  using assms
proof (induction awaits handle after evs s arbitrary: evs0 rule: task_exec.induct)
  case (1 awaits handle after s)
  then show ?case by simp
next
  case (2 awaits handle after ev evs p t acts)
  obtain p1 where p1: "awaits p ev = Some p1"
    using "2.prems"(2) by (cases "awaits p ev") auto
  obtain t1 as where h: "handle ev t = (t1, as)" by fastforce
  from task_run.more [OF "2.prems"(1) p1 h]
  have "task_run awaits handle after p0 t0 (evs0 @ [ev]) (after p1 as, t1, acts @ as)" .
  from "2.IH" [OF p1 h [symmetric] refl this] "2.prems"(2) p1 h show ?case by simp
qed

lemma task_exec_append:
  "task_exec awaits handle after (evs @ evs') s =
     (case task_exec awaits handle after evs s of
        None \<Rightarrow> None | Some s1 \<Rightarrow> task_exec awaits handle after evs' s1)"
  by (induction awaits handle after evs s rule: task_exec.induct) (auto split: option.split prod.split)

lemma task_run_iff_exec:
  "task_run awaits handle after p0 t0 evs s \<longleftrightarrow> task_exec awaits handle after evs (p0, t0, []) = Some s"
proof
  assume "task_run awaits handle after p0 t0 evs s"
  then show "task_exec awaits handle after evs (p0, t0, []) = Some s"
    by (induction rule: task_run.induct) (simp_all add: task_exec_append)
next
  assume "task_exec awaits handle after evs (p0, t0, []) = Some s"
  then show "task_run awaits handle after p0 t0 evs s"
    using task_exec_run [OF task_run.start] by fastforce
qed

section \<open>Serving a task\<close>

text \<open>
  The process around a task: the last action of a callback is a request, \<open>respond\<close> gives the callbacks
  that answer it and the world afterwards. \<open>None\<close> is a request that is never answered, or a task that
  never ends.
\<close>

partial_function (option) serve ::
  "('p \<Rightarrow> 'e \<Rightarrow> 'p option) \<Rightarrow> ('e \<Rightarrow> 't \<Rightarrow> 't \<times> 'a list) \<Rightarrow> ('p \<Rightarrow> 'a list \<Rightarrow> 'p) \<Rightarrow> 'p \<Rightarrow>
     ('a \<Rightarrow> 'w \<Rightarrow> ('e list \<times> 'w) option) \<Rightarrow> ('p, 't, 'a) task_state \<Rightarrow> 'w \<Rightarrow>
     (('p, 't, 'a) task_state \<times> 'w) option" where
  "serve awaits handle after final respond s w =
     (if fst s = final then Some (s, w)
      else
        do {
          (evs, w1) \<leftarrow> respond (last (snd (snd s))) w;
          s1 \<leftarrow> task_exec awaits handle after evs s;
          serve awaits handle after final respond s1 w1
        })"

lemma serve_run:
  assumes "serve awaits handle after final respond s w = Some y"
    and "task_run awaits handle after p0 t0 evs0 s"
  shows "fst (fst y) = final \<and> (\<exists>evs. task_run awaits handle after p0 t0 (evs0 @ evs) (fst y))"
  using assms(2)
proof (induction arbitrary: evs0 rule: serve.raw_induct [OF _ assms(1)])
  case (1 serve_fun awaits handle after final respond s w y)
  show ?case
  proof (cases "fst s = final")
    case True
    then show ?thesis using 1(2,3) by (auto intro: exI [of _ "[]"])
  next
    case False
    then obtain evs w2 s2 where step: "respond (last (snd (snd s))) w = Some (evs, w2)"
      "task_exec awaits handle after evs s = Some s2" "serve_fun awaits handle after final respond s2 w2 = Some y"
      using 1(2) by (auto simp: bind_eq_Some_conv)
    from task_exec_run [OF 1(3) step(2)]
    have "task_run awaits handle after p0 t0 (evs0 @ evs) s2" .
    from 1(1) [OF step(3) this] show ?thesis by auto
  qed
qed

lemma serve_from_start:
  assumes "task_exec awaits handle after evs0 (p0, t0, []) = Some s"
    and "serve awaits handle after final respond s w = Some (s1, w1)"
  shows "fst s1 = final \<and> (\<exists>evs. task_run awaits handle after p0 t0 (evs0 @ evs) s1)"
  using serve_run [OF assms(2), of p0 t0 evs0] assms(1) by (simp add: task_run_iff_exec)

lemma serve_final: "serve aw h af final respond (final, t, acts) w = Some ((final, t, acts), w)"
  by (simp add: serve.simps)

lemma serve_step:
  assumes "p \<noteq> final" and "respond (last acts) w = Some (evs, w1)"
    and "task_exec aw h af evs (p, t, acts) = Some s1"
  shows "serve aw h af final respond (p, t, acts) w = serve aw h af final respond s1 w1"
  using assms by (subst serve.simps) simp

lemma serve_cases:
  assumes "serve aw h af final respond (p, t, acts) w = Some y"
  obtains (final) "p = final" and "y = ((p, t, acts), w)"
  | (step) evs w1 s1 where "p \<noteq> final" and "respond (last acts) w = Some (evs, w1)"
      and "task_exec aw h af evs (p, t, acts) = Some s1" and "serve aw h af final respond s1 w1 = Some y"
proof (cases "p = final")
  case True
  then show ?thesis using assms that(1) by (simp add: serve.simps)
next
  case False
  with assms show ?thesis using that(2)
    by (subst (asm) serve.simps) (auto simp: bind_eq_Some_conv)
qed

text \<open>A task that stays away from its end is served for ever.\<close>

lemma serve_never:
  assumes "I s w" and "\<And>s w. I s w \<Longrightarrow> fst s \<noteq> final"
    and "\<And>s w evs w1 s1. I s w \<Longrightarrow> respond (last (snd (snd s))) w = Some (evs, w1) \<Longrightarrow>
      task_exec awaits handle after evs s = Some s1 \<Longrightarrow> I s1 w1"
  shows "serve awaits handle after final respond s w = None"
proof (rule ccontr)
  assume "serve awaits handle after final respond s w \<noteq> None"
  then obtain y where y: "serve awaits handle after final respond s w = Some y" by blast
  show False
    using assms
  proof (induction rule: serve.raw_induct [OF _ y])
    case (1 serve_fun awaits handle after final respond s w y)
    have "fst s \<noteq> final" using 1(4) [OF 1(3)] .
    then obtain evs w2 s2 where step: "respond (last (snd (snd s))) w = Some (evs, w2)"
      "task_exec awaits handle after evs s = Some s2" "serve_fun awaits handle after final respond s2 w2 = Some y"
      using 1(2) by (auto simp: bind_eq_Some_conv)
    have "I s2 w2" using 1(5) [OF 1(3) step(1,2)] .
    then show False using 1(1) [OF step(3)] 1(4,5) by blast
  qed
qed

section \<open>Tasks that answer once\<close>

locale answering_task =
  fixes awaits :: "'p \<Rightarrow> 'e \<Rightarrow> 'p option"
    and handle :: "'e \<Rightarrow> 't \<Rightarrow> 't \<times> 'a list"
    and after :: "'p \<Rightarrow> 'a list \<Rightarrow> 'p"
    and inv :: "'p \<Rightarrow> 't \<Rightarrow> bool"
    and is_answer :: "'a \<Rightarrow> bool"
    and ends :: "'a \<Rightarrow> bool"
    and answers :: "'p \<Rightarrow> nat"
    and steps :: "'p \<Rightarrow> nat"
    and p0 :: 'p
    and t0 :: 't
  assumes initial: "inv p0 t0" "answers p0 = 0" "0 < steps p0"
    and step_inv: "inv p t \<Longrightarrow> awaits p ev = Some p1 \<Longrightarrow> handle ev t = (t1, as) \<Longrightarrow> inv (after p1 as) t1"
    and step_answers: "inv p t \<Longrightarrow> awaits p ev = Some p1 \<Longrightarrow> handle ev t = (t1, as) \<Longrightarrow>
      answers (after p1 as) = answers p + length (filter is_answer as)"
    and step_shorter: "inv p t \<Longrightarrow> awaits p ev = Some p1 \<Longrightarrow> handle ev t = (t1, as) \<Longrightarrow>
      steps (after p1 as) < steps p"
    and step_ends: "inv p t \<Longrightarrow> awaits p ev = Some p1 \<Longrightarrow> handle ev t = (t1, as) \<Longrightarrow>
      filter ends as = (if steps (after p1 as) = 0 then [last as] else []) \<and> (steps (after p1 as) = 0 \<longrightarrow> as \<noteq> [])"
    and ended: "steps p = 0 \<Longrightarrow> answers p = 1"
begin

abbreviation run :: "'e list \<Rightarrow> ('p, 't, 'a) task_state \<Rightarrow> bool" where
  "run \<equiv> task_run awaits handle after p0 t0"

lemma run_inv: "run evs (p, t, acts) \<Longrightarrow> inv p t"
proof (induction evs "(p, t, acts)" arbitrary: p t acts rule: task_run.induct)
  case start
  show ?case by (rule initial(1))
next
  case (more evs p t acts ev p1 t1 as)
  then show ?case using step_inv by blast
qed

lemma run_answers: "run evs (p, t, acts) \<Longrightarrow> length (filter is_answer acts) = answers p"
proof (induction evs "(p, t, acts)" arbitrary: p t acts rule: task_run.induct)
  case start
  show ?case by (simp add: initial(2))
next
  case (more evs p t acts ev p1 t1 as)
  then show ?case using step_answers [OF run_inv] by simp
qed

lemma run_bounded: "run evs (p, t, acts) \<Longrightarrow> length evs + steps p \<le> steps p0"
proof (induction evs "(p, t, acts)" arbitrary: p t acts rule: task_run.induct)
  case start
  show ?case by simp
next
  case (more evs p t acts ev p1 t1 as)
  then show ?case using step_shorter [OF run_inv] by fastforce
qed

lemma run_ends:
  "run evs (p, t, acts) \<Longrightarrow> filter ends acts = (if steps p = 0 then [last acts] else [])"
proof (induction evs "(p, t, acts)" arbitrary: p t acts rule: task_run.induct)
  case start
  show ?case using initial(3) by simp
next
  case (more evs p t acts ev p1 t1 as)
  have "steps (after p1 as) < steps p"
    using more step_shorter [OF run_inv] by blast
  then show ?case using more step_ends [OF run_inv [OF more(1)] more(3,4)] by auto
qed

text \<open>A task answers at most once; when it has ended it has answered, and it ended with its last action.\<close>

lemma run_once:
  assumes "run evs (p, t, acts)"
  shows "length evs + steps p \<le> steps p0 \<and> length (filter is_answer acts) = answers p \<and>
    filter ends acts = (if steps p = 0 then [last acts] else []) \<and>
    (steps p = 0 \<longrightarrow> length (filter is_answer acts) = 1)"
  using run_bounded [OF assms] run_answers [OF assms] run_ends [OF assms] ended by simp

end

end
