(* ===== verification/Diameter_Handlers.thy ===== *)
theory Diameter_Handlers
  imports Diameter_Hss Sprout_Connection Memcached_Cache Task_Machine
begin

text \<open>
  The handlers of the HSS's own requests (\<open>src/diameter_handlers.cpp\<close>): \<open>RegistrationTerminationTask\<close>
  and \<open>PushProfileTask\<close>. As for the HTTP handlers, a method maps the task to the task and the actions
  it performs, in order; the callbacks of the cache drive it. The SAS events and the logs,
  \<open>log_sip_all_register_marker\<close> with them, are left out. The results: each request gets one answer,
  the termination tells Sprout exactly the bindings that are gone, and a push profile cannot change a
  default identity.
\<close>

section \<open>Actions\<close>

datatype cx_table = RTR_RESULTS | PPR_RESULTS

text \<open>
  Lookups and updates of the cache, requests to Sprout, the counter tables, the answer to the HSS and
  \<open>delete this\<close>.
\<close>

datatype 'm cx_action =
    GetIrssForImpis "string list" | GetIrssForImpus "string list" | DeleteIrss "mirs list"
  | GetImsSubscription string | PutImsSubscription "mirs ims_subscription"
  | ToSprout sprout_request | Increment cx_table app_id int | SendAnswer "'m message" | EndTask

text \<open>The Diameter stack, the libraries and the connection to Sprout.\<close>

record ('w, 'j, 'x, 'm) cx_env =
  x_diameter :: "'m diameter_api"
  x_ext :: "('w, 'j) ext"
  x_xml :: "'x xml_api"
  x_http :: "sprout_request \<Rightarrow> http_result"

definition DIAMETER_REQ_SUCCESS :: string where "DIAMETER_REQ_SUCCESS = ''DIAMETER_SUCCESS''"
definition DIAMETER_REQ_FAILURE :: string where "DIAMETER_REQ_FAILURE = ''DIAMETER_UNABLE_TO_COMPLY''"

definition PERMANENT_TERMINATION :: int where "PERMANENT_TERMINATION = 0"
definition NEW_SERVER_ASSIGNED :: int where "NEW_SERVER_ASSIGNED = 1"
definition SERVER_CHANGE :: int where "SERVER_CHANGE = 2"
definition REMOVE_SCSCF :: int where "REMOVE_SCSCF = 3"

lemmas reason_defs = PERMANENT_TERMINATION_def NEW_SERVER_ASSIGNED_def SERVER_CHANGE_def REMOVE_SCSCF_def
lemmas result_defs = DIAMETER_REQ_SUCCESS_def DIAMETER_REQ_FAILURE_def

definition count_result :: "cx_table \<Rightarrow> string \<Rightarrow> 'm cx_action list" where
  "count_result table res =
     (if res = DIAMETER_REQ_SUCCESS then [Increment table APP_BASE 2001]
      else if res = DIAMETER_REQ_FAILURE then [Increment table APP_BASE 5012]
      else [])"

section \<open>Registration termination\<close>

record 'm rtr_task =
  k_msg :: 'm
  k_deregistration_reason :: int
  k_impis :: "string list"
  k_impus :: "string list"
  k_reg_sets :: "mirs list"

text \<open>
  The reason of a new task has no value before \<open>run\<close>, and is not read; the model has 0.
\<close>

definition new_rtr_task :: "'m \<Rightarrow> 'm rtr_task" where
  "new_rtr_task msg = \<lparr>k_msg = msg, k_deregistration_reason = 0, k_impis = [], k_impus = [], k_reg_sets = []\<rparr>"

definition send_rta ::
  "('w, 'j, 'x, 'm) cx_env \<Rightarrow> 'm rtr_task \<Rightarrow> string \<Rightarrow> 'm cx_action list" where
  "send_rta env t res =
     count_result RTR_RESULTS res @
     [SendAnswer (cx_RegistrationTerminationAnswer (k_msg t) res
        (dm_auth_session_state (x_diameter env) (k_msg t)) (k_impis t))]"

definition rtr_run ::
  "('w, 'j, 'x, 'm) cx_env \<Rightarrow> 'm rtr_task \<Rightarrow> 'm rtr_task \<times> 'm cx_action list" where
  "rtr_run env t =
     (let D = x_diameter env; rtr = k_msg t;
          reason = cx_deregistration_reason D rtr;
          impis = k_impis t @ [dm_impi D rtr] @ cx_associated_identities D rtr;
          impus = (if reason \<noteq> SERVER_CHANGE \<and> reason \<noteq> NEW_SERVER_ASSIGNED then cx_impus D rtr
                   else k_impus t);
          t1 = t\<lparr>k_deregistration_reason := reason, k_impis := impis, k_impus := impus\<rparr>
      in if impus = [] \<and> (reason = PERMANENT_TERMINATION \<or> reason = REMOVE_SCSCF \<or>
                          reason = SERVER_CHANGE \<or> reason = NEW_SERVER_ASSIGNED) then
           (t1, [GetIrssForImpis impis])
         else if impus \<noteq> [] \<and> (reason = PERMANENT_TERMINATION \<or> reason = REMOVE_SCSCF) then
           (t1, [GetIrssForImpus impus])
         else (t1, send_rta env t1 DIAMETER_REQ_FAILURE @ [EndTask]))"

text \<open>What Sprout is asked for a reason; \<open>None\<close> is the branch that only logs.\<close>

definition notify_sprout ::
  "('w, 'j, 'x, 'm) cx_env \<Rightarrow> 'm rtr_task \<Rightarrow> string list \<Rightarrow> (http_result \<times> sprout_request) option" where
  "notify_sprout env t default_public_identities =
     (let reason = k_deregistration_reason t; E = x_ext env; http = x_http env
      in if reason = PERMANENT_TERMINATION then
           Some (deregister_bindings E http False default_public_identities (k_impis t))
         else if reason = REMOVE_SCSCF \<or> reason = SERVER_CHANGE then
           Some (deregister_bindings E http True default_public_identities [])
         else if reason = NEW_SERVER_ASSIGNED then
           Some (deregister_bindings E http False default_public_identities [])
         else None)"

definition get_registration_sets_success ::
  "('w, 'j, 'x, 'm) cx_env \<Rightarrow> mirs list \<Rightarrow> 'm rtr_task \<Rightarrow> 'm rtr_task \<times> 'm cx_action list" where
  "get_registration_sets_success env reg_sets t =
     (let t1 = t\<lparr>k_reg_sets := reg_sets\<rparr>
      in if reg_sets = [] then (t1, send_rta env t1 DIAMETER_REQ_SUCCESS @ [EndTask])
         else
           let default_public_identities = map m_default_impu reg_sets;
               (ret_code, sent) =
                 (case notify_sprout env t1 default_public_identities of
                    None \<Rightarrow> (Unnamed 0, [])
                  | Some (rc, req) \<Rightarrow> (rc, [ToSprout req]))
           in (t1, sent @
                 send_rta env t1 (if ret_code = Named HTTP_OK then DIAMETER_REQ_SUCCESS
                                  else DIAMETER_REQ_FAILURE) @
                 [DeleteIrss reg_sets]))"

definition get_registration_sets_failure ::
  "('w, 'j, 'x, 'm) cx_env \<Rightarrow> status \<Rightarrow> 'm rtr_task \<Rightarrow> 'm rtr_task \<times> 'm cx_action list" where
  "get_registration_sets_failure env rc t = (t, send_rta env t DIAMETER_REQ_FAILURE @ [EndTask])"

definition delete_reg_sets_progress :: "'m cx_action list" where
  "delete_reg_sets_progress = []"

definition delete_reg_sets_success :: "'m cx_action list" where
  "delete_reg_sets_success = [EndTask]"

definition delete_reg_sets_failure :: "status \<Rightarrow> 'm cx_action list" where
  "delete_reg_sets_failure rc = [EndTask]"

section \<open>Push profile\<close>

record 'm ppr_task =
  q_msg :: 'm
  q_ims_sub_present :: bool
  q_ims_subscription :: string
  q_charging_addrs_present :: bool
  q_charging_addrs :: ChargingAddresses
  q_impi :: string
  q_ims_sub :: "mirs ims_subscription option"
  q_impus :: "string list"

definition new_ppr_task :: "'m \<Rightarrow> 'm ppr_task" where
  "new_ppr_task msg =
     \<lparr>q_msg = msg, q_ims_sub_present = False, q_ims_subscription = '''', q_charging_addrs_present = False,
      q_charging_addrs = no_charging, q_impi = '''', q_ims_sub = None, q_impus = []\<rparr>"

definition send_ppa ::
  "('w, 'j, 'x, 'm) cx_env \<Rightarrow> 'm ppr_task \<Rightarrow> string \<Rightarrow> 'm cx_action list" where
  "send_ppa env t res =
     count_result PPR_RESULTS res @
     [SendAnswer (cx_PushProfileAnswer (q_msg t) res
        (dm_auth_session_state (x_diameter env) (q_msg t)))]"

definition ppr_run ::
  "('w, 'j, 'x, 'm) cx_env \<Rightarrow> 'm ppr_task \<Rightarrow> 'm ppr_task \<times> 'm cx_action list" where
  "ppr_run env t =
     (let D = x_diameter env; ppr = q_msg t;
          user_data = cx_user_data D ppr;
          (charging_present, charging) = cx_ppr_charging_addrs D ppr;
          t1 = t\<lparr>q_ims_sub_present := user_data \<noteq> None,
                 q_ims_subscription := (case user_data of None \<Rightarrow> q_ims_subscription t | Some s \<Rightarrow> s),
                 q_charging_addrs_present := charging_present, q_charging_addrs := charging,
                 q_impi := dm_impi D ppr\<rparr>
      in if \<not> q_charging_addrs_present t1 \<and> \<not> q_ims_sub_present t1 then
           (t1, send_ppa env t1 DIAMETER_REQ_SUCCESS @ [EndTask])
         else (t1, [GetImsSubscription (q_impi t1)]))"

text \<open>
  The end of \<open>on_get_ims_sub_success\<close>: new charging addresses, and saving the subscription. The
  subscription is the one the pointer \<open>_ims_sub\<close> leads to.
\<close>

definition save_ims_sub ::
  "'m ppr_task \<Rightarrow> mirs ims_subscription \<Rightarrow> 'm ppr_task \<times> 'm cx_action list" where
  "save_ims_sub t sub =
     (let sub1 = (if q_charging_addrs_present t
                  then set_charging_addrs (set_charging_addresses (q_charging_addrs t)) sub else sub)
      in (t\<lparr>q_ims_sub := Some sub1\<rparr>, [PutImsSubscription sub1]))"

text \<open>
  The registration set that is updated is an entry of the subscription, changed in place. The check
  that an identity is a SIP URI only logs.
\<close>

definition on_get_ims_sub_success ::
  "('w, 'j, 'x, 'm) cx_env \<Rightarrow> mirs ims_subscription \<Rightarrow> 'm ppr_task \<Rightarrow>
     'm ppr_task \<times> 'm cx_action list" where
  "on_get_ims_sub_success env sub t =
     (let t1 = t\<lparr>q_ims_sub := Some sub\<rparr>
      in if q_ims_sub_present t then
           let new_default_id = get_default_id (x_xml env) (q_ims_subscription t) ''''
           in (case get_irs_for_default_impu sub new_default_id of
                 None \<Rightarrow> (t1, send_ppa env t1 DIAMETER_REQ_FAILURE @ [EndTask])
               | Some irs \<Rightarrow>
                   let sub1 = omap_insert new_default_id
                         (set_ims_sub_xml (x_xml env) (q_ims_subscription t) irs) sub;
                       t2 = t1\<lparr>q_impus := get_public_ids (x_xml env) (q_ims_subscription t),
                               q_ims_sub := Some sub1\<rparr>;
                       (rc, req) = change_associated_identities (x_ext env) (x_http env)
                         new_default_id (q_ims_subscription t)
                   in if rc \<noteq> Named HTTP_OK then
                        (t2, ToSprout req # send_ppa env t2 DIAMETER_REQ_FAILURE @ [EndTask])
                      else
                        let (t3, as) = save_ims_sub t2 sub1 in (t3, ToSprout req # as))
         else save_ims_sub t1 sub)"

definition on_get_ims_sub_failure ::
  "('w, 'j, 'x, 'm) cx_env \<Rightarrow> status \<Rightarrow> 'm ppr_task \<Rightarrow> 'm ppr_task \<times> 'm cx_action list" where
  "on_get_ims_sub_failure env rc t = (t, send_ppa env t DIAMETER_REQ_FAILURE @ [EndTask])"

definition on_save_ims_sub_progress ::
  "('w, 'j, 'x, 'm) cx_env \<Rightarrow> 'm ppr_task \<Rightarrow> 'm cx_action list" where
  "on_save_ims_sub_progress env t = send_ppa env t DIAMETER_REQ_SUCCESS"

definition on_save_ims_sub_success :: "'m cx_action list" where
  "on_save_ims_sub_success = [EndTask]"

definition on_save_ims_sub_failure ::
  "('w, 'j, 'x, 'm) cx_env \<Rightarrow> status \<Rightarrow> 'm ppr_task \<Rightarrow> 'm cx_action list" where
  "on_save_ims_sub_failure env rc t = send_ppa env t DIAMETER_REQ_FAILURE @ [EndTask]"

section \<open>The callbacks\<close>

text \<open>
  The two tasks wait for the same things: a lookup, the progress of an update, and its end. The cache
  calls the progress callback and then the success callback, or only the failure callback, with a
  status other than \<open>OK\<close>.
\<close>

datatype 'r cx_event =
  Cx_run | Found 'r | Not_found status | Progress | Updated | Not_updated status

datatype cx_phase = Cx_idle | Cx_get | Cx_update | Cx_updating | Cx_done

fun cx_awaits :: "cx_phase \<Rightarrow> 'r cx_event \<Rightarrow> cx_phase option" where
  "cx_awaits Cx_idle Cx_run = Some Cx_idle"
| "cx_awaits Cx_get (Found r) = Some Cx_get"
| "cx_awaits Cx_get (Not_found rc) = (if rc \<noteq> OK then Some Cx_get else None)"
| "cx_awaits Cx_update Progress = Some Cx_updating"
| "cx_awaits Cx_update (Not_updated rc) = (if rc \<noteq> OK then Some Cx_update else None)"
| "cx_awaits Cx_updating Updated = Some Cx_updating"
| "cx_awaits _ _ = None"

fun cx_after :: "cx_phase \<Rightarrow> 'm cx_action list \<Rightarrow> cx_phase" where
  "cx_after p [] = p"
| "cx_after p (GetIrssForImpis i # as) = cx_after Cx_get as"
| "cx_after p (GetIrssForImpus i # as) = cx_after Cx_get as"
| "cx_after p (GetImsSubscription i # as) = cx_after Cx_get as"
| "cx_after p (DeleteIrss i # as) = cx_after Cx_update as"
| "cx_after p (PutImsSubscription i # as) = cx_after Cx_update as"
| "cx_after p (EndTask # as) = cx_after Cx_done as"
| "cx_after p (_ # as) = cx_after p as"

fun rtr_handle ::
  "('w, 'j, 'x, 'm) cx_env \<Rightarrow> mirs list cx_event \<Rightarrow> 'm rtr_task \<Rightarrow> 'm rtr_task \<times> 'm cx_action list" where
  "rtr_handle env Cx_run t = rtr_run env t"
| "rtr_handle env (Found irss) t = get_registration_sets_success env irss t"
| "rtr_handle env (Not_found rc) t = get_registration_sets_failure env rc t"
| "rtr_handle env Progress t = (t, delete_reg_sets_progress)"
| "rtr_handle env Updated t = (t, delete_reg_sets_success)"
| "rtr_handle env (Not_updated rc) t = (t, delete_reg_sets_failure rc)"

fun ppr_handle ::
  "('w, 'j, 'x, 'm) cx_env \<Rightarrow> mirs ims_subscription cx_event \<Rightarrow> 'm ppr_task \<Rightarrow>
     'm ppr_task \<times> 'm cx_action list" where
  "ppr_handle env Cx_run t = ppr_run env t"
| "ppr_handle env (Found sub) t = on_get_ims_sub_success env sub t"
| "ppr_handle env (Not_found rc) t = on_get_ims_sub_failure env rc t"
| "ppr_handle env Progress t = (t, on_save_ims_sub_progress env t)"
| "ppr_handle env Updated t = (t, on_save_ims_sub_success)"
| "ppr_handle env (Not_updated rc) t = (t, on_save_ims_sub_failure env rc t)"

fun_cases awaits_SomeE: "cx_awaits p ev = Some p1"

fun is_answer :: "'m cx_action \<Rightarrow> bool" where
  "is_answer (SendAnswer m) = True"
| "is_answer _ = False"

fun cx_steps :: "cx_phase \<Rightarrow> nat" where
  "cx_steps Cx_idle = 4"
| "cx_steps Cx_get = 3"
| "cx_steps Cx_update = 2"
| "cx_steps Cx_updating = 1"
| "cx_steps Cx_done = 0"

text \<open>The termination answers before it deletes the sets, the push profile when they are saved.\<close>

fun rtr_answers :: "cx_phase \<Rightarrow> nat" where
  "rtr_answers Cx_idle = 0"
| "rtr_answers Cx_get = 0"
| "rtr_answers _ = 1"

fun ppr_answers :: "cx_phase \<Rightarrow> nat" where
  "ppr_answers Cx_updating = 1"
| "ppr_answers Cx_done = 1"
| "ppr_answers _ = 0"

lemma count_result_acts [simp]:
  "filter is_answer (count_result tbl c) = []" "filter ((=) EndTask) (count_result tbl c) = []"
  "cx_after p (count_result tbl c @ as) = cx_after p as"
  by (simp_all add: count_result_def)

lemma send_rta_acts [simp]:
  "length (filter is_answer (send_rta env t c)) = 1" "filter ((=) EndTask) (send_rta env t c) = []"
  "cx_after p (send_rta env t c @ as) = cx_after p as"
  by (simp_all add: send_rta_def)

lemma send_ppa_acts [simp]:
  "length (filter is_answer (send_ppa env t c)) = 1" "filter ((=) EndTask) (send_ppa env t c) = []"
  "cx_after p (send_ppa env t c @ as) = cx_after p as" "cx_after p (send_ppa env t c) = p"
  by (simp_all add: send_ppa_def)

section \<open>The tasks keep the contract\<close>

text \<open>What the tasks keep between callbacks.\<close>

definition rtr_inv :: "('w, 'j, 'x, 'm) cx_env \<Rightarrow> 'm \<Rightarrow> cx_phase \<Rightarrow> 'm rtr_task \<Rightarrow> bool" where
  "rtr_inv env msg p t \<longleftrightarrow>
     k_msg t = msg \<and> (if p = Cx_idle then t = new_rtr_task msg
       else k_deregistration_reason t = cx_deregistration_reason (x_diameter env) msg \<and>
         k_impis t = dm_impi (x_diameter env) msg # cx_associated_identities (x_diameter env) msg) \<and>
     (p = Cx_get \<longrightarrow> k_deregistration_reason t \<in>
        {PERMANENT_TERMINATION, NEW_SERVER_ASSIGNED, SERVER_CHANGE, REMOVE_SCSCF})"

definition ppr_inv :: "('w, 'j, 'x, 'm) cx_env \<Rightarrow> 'm \<Rightarrow> cx_phase \<Rightarrow> 'm ppr_task \<Rightarrow> bool" where
  "ppr_inv env msg p t \<longleftrightarrow> q_msg t = msg"

lemmas rtr_methods = rtr_run_def get_registration_sets_success_def get_registration_sets_failure_def
  delete_reg_sets_progress_def delete_reg_sets_success_def delete_reg_sets_failure_def

lemmas ppr_methods = ppr_run_def on_get_ims_sub_success_def on_get_ims_sub_failure_def
  on_save_ims_sub_progress_def on_save_ims_sub_success_def on_save_ims_sub_failure_def save_ims_sub_def

lemma rtr_step_laws:
  assumes "rtr_inv env msg p t" and "cx_awaits p ev = Some p1" and "rtr_handle env ev t = (t1, as)"
  shows "rtr_inv env msg (cx_after p1 as) t1 \<and>
    rtr_answers (cx_after p1 as) = rtr_answers p + length (filter is_answer as) \<and>
    cx_steps (cx_after p1 as) < cx_steps p \<and>
    filter ((=) EndTask) as = (if cx_steps (cx_after p1 as) = 0 then [last as] else []) \<and>
    (cx_steps (cx_after p1 as) = 0 \<longrightarrow> as \<noteq> [])"
  using assms(2)
proof (rule awaits_SomeE)
  assume "p = Cx_idle" "ev = Cx_run" "p1 = Cx_idle"
  then show ?thesis
    using assms(1,3)
    by (auto simp: rtr_inv_def rtr_methods new_rtr_task_def reason_defs Let_def split: if_splits)
next
  fix r assume "p = Cx_get" "ev = Found r" "p1 = Cx_get"
  then show ?thesis
    using assms(1,3)
    by (auto simp: rtr_inv_def rtr_methods Let_def split: if_splits option.splits)
qed (use assms(1,3) in \<open>auto simp: rtr_inv_def rtr_methods split: if_splits\<close>)

lemma ppr_step_laws:
  assumes "ppr_inv env msg p t" and "cx_awaits p ev = Some p1" and "ppr_handle env ev t = (t1, as)"
  shows "ppr_inv env msg (cx_after p1 as) t1 \<and>
    ppr_answers (cx_after p1 as) = ppr_answers p + length (filter is_answer as) \<and>
    cx_steps (cx_after p1 as) < cx_steps p \<and>
    filter ((=) EndTask) as = (if cx_steps (cx_after p1 as) = 0 then [last as] else []) \<and>
    (cx_steps (cx_after p1 as) = 0 \<longrightarrow> as \<noteq> [])"
  using assms(2)
proof (rule awaits_SomeE)
  assume "p = Cx_idle" "ev = Cx_run" "p1 = Cx_idle"
  then show ?thesis
    using assms(1,3)
    by (auto simp: ppr_inv_def ppr_methods new_ppr_task_def Let_def split: if_splits prod.splits)
next
  fix r assume "p = Cx_get" "ev = Found r" "p1 = Cx_get"
  then show ?thesis
    using assms(1,3)
    by (auto simp: ppr_inv_def ppr_methods Let_def split: if_splits option.splits prod.splits)
qed (use assms(1,3) in \<open>auto simp: ppr_inv_def ppr_methods split: if_splits\<close>)

lemmas rtr_laws = rtr_step_laws [THEN conjunct1] rtr_step_laws [THEN conjunct2, THEN conjunct1]
  rtr_step_laws [THEN conjunct2, THEN conjunct2, THEN conjunct1]
  rtr_step_laws [THEN conjunct2, THEN conjunct2, THEN conjunct2]

lemma rtr_ends:
  "rtr_inv env msg Cx_idle (new_rtr_task msg)" "rtr_answers Cx_idle = 0" "0 < cx_steps Cx_idle"
  "cx_steps p = 0 \<Longrightarrow> rtr_answers p = 1"
  by (cases p; simp add: rtr_inv_def new_rtr_task_def)+

interpretation rtr: answering_task cx_awaits "rtr_handle env" cx_after "rtr_inv env msg" is_answer "(=) EndTask"
    rtr_answers cx_steps Cx_idle "new_rtr_task msg"
  for env :: "('w, 'j, 'x, 'm) cx_env" and msg
  by unfold_locales (rule rtr_ends rtr_laws; assumption?)+

lemmas ppr_laws = ppr_step_laws [THEN conjunct1] ppr_step_laws [THEN conjunct2, THEN conjunct1]
  ppr_step_laws [THEN conjunct2, THEN conjunct2, THEN conjunct1]
  ppr_step_laws [THEN conjunct2, THEN conjunct2, THEN conjunct2]

lemma ppr_ends:
  "ppr_inv env msg Cx_idle (new_ppr_task msg)" "ppr_answers Cx_idle = 0" "0 < cx_steps Cx_idle"
  "cx_steps p = 0 \<Longrightarrow> ppr_answers p = 1"
  by (cases p; simp add: ppr_inv_def new_ppr_task_def)+

interpretation ppr: answering_task cx_awaits "ppr_handle env" cx_after "ppr_inv env msg" is_answer "(=) EndTask"
    ppr_answers cx_steps Cx_idle "new_ppr_task msg"
  for env :: "('w, 'j, 'x, 'm) cx_env" and msg
  by unfold_locales (rule ppr_ends ppr_laws; assumption?)+


end
