(* ===== verification/Cx_Task_Properties.thy ===== *)
theory Cx_Task_Properties
  imports Diameter_Handlers Reference_Env
begin

text \<open>
  What the handlers of the HSS's requests guarantee: one answer to each request, what Sprout is told of
  a registration termination, and that a push profile is applied as a whole or not at all. The
  lemmas on whole runs are those of the locale \<open>answering_task\<close>, through its interpretations \<open>rtr\<close>
  and \<open>ppr\<close>.
\<close>

text \<open>
  C16: the HSS gets exactly one answer to a registration termination and to a push profile, whatever
  the cache and Sprout do. A run has at most four callbacks, the termination has answered as soon as
  the lookup has ended, the push profile when the local store has been written or has failed, and
  the task deletes itself as its last action.
\<close>

theorem cx_tasks_answer_once:
  "(\<forall>evs p t acts. task_run cx_awaits (rtr_handle env) cx_after Cx_idle (new_rtr_task rtr) evs (p, t, acts) \<longrightarrow>
      length evs + cx_steps p \<le> 4 \<and> length (filter is_answer acts) = rtr_answers p \<and>
      filter ((=) EndTask) acts = (if p = Cx_done then [last acts] else [])) \<and>
   (\<forall>evs p t acts. task_run cx_awaits (ppr_handle env) cx_after Cx_idle (new_ppr_task ppr) evs (p, t, acts) \<longrightarrow>
      length evs + cx_steps p \<le> 4 \<and> length (filter is_answer acts) = ppr_answers p \<and>
      filter ((=) EndTask) acts = (if p = Cx_done then [last acts] else []))"
proof -
  have steps: "cx_steps p = 0 \<longleftrightarrow> p = Cx_done" for p by (cases p) auto
  show ?thesis
    using rtr.run_once [of env rtr] ppr.run_once [of env ppr] by (simp add: steps)
qed

lemma run_found:
  assumes "task_run cx_awaits h cx_after Cx_idle t0 [Cx_run, Found r] (p, t, acts)"
  shows "\<exists>t1 as bs. h Cx_run t0 = (t1, as) \<and> cx_after Cx_idle as = Cx_get \<and> h (Found r) t1 = (t, bs) \<and>
    p = cx_after Cx_get bs \<and> acts = as @ bs"
  using assms
  by (auto simp: task_run_iff_exec split: option.splits prod.splits elim!: awaits_SomeE)

text \<open>
  C17: for a termination whose lookup found registration sets, Sprout is told to remove the bindings of
  all their default IMPUs, only those made by the private identities of the request when the reason
  is a permanent termination, all of them otherwise, and to notify the subscribers when the S-CSCF is removed
  or the server changes. The answer is a success exactly when Sprout accepted, it is sent before the
  sets are deleted from the cache, and they are deleted either way.
\<close>

theorem rtr_tells_sprout:
  assumes "task_run cx_awaits (rtr_handle env) cx_after Cx_idle (new_rtr_task rtr) [Cx_run, Found irss] (p, t, acts)"
    and "irss \<noteq> []" and "D = x_diameter env" and "reason = cx_deregistration_reason D rtr"
    and "impis = dm_impi D rtr # cx_associated_identities D rtr"
    and "list_all no_nul impis" and "list_all (\<lambda>irs. no_nul (m_default_impu irs)) irss"
    and "req = \<lparr>sp_method = HTTP_DELETE,
      sp_path = ''/registrations?send-notifications='' @
        (if reason \<in> {SERVER_CHANGE, REMOVE_SCSCF} then ''true'' else ''false''),
      sp_body = registrations_text (x_ext env) (List.product (map m_default_impu irss)
        (if reason = PERMANENT_TERMINATION then map Some impis else [None]))\<rparr>"
    and "res = (if x_http env req = Named HTTP_OK then DIAMETER_REQ_SUCCESS else DIAMETER_REQ_FAILURE)"
  shows "reason \<in> {PERMANENT_TERMINATION, NEW_SERVER_ASSIGNED, SERVER_CHANGE, REMOVE_SCSCF} \<and>
    acts = [if cx_impus D rtr \<noteq> [] \<and> reason \<in> {PERMANENT_TERMINATION, REMOVE_SCSCF}
            then GetIrssForImpus (cx_impus D rtr) else GetIrssForImpis impis, ToSprout req] @
      count_result RTR_RESULTS res @
      [SendAnswer (cx_RegistrationTerminationAnswer rtr res (dm_auth_session_state D rtr) impis), DeleteIrss irss]"
proof -
  obtain t1 as bs where run: "rtr_run env (new_rtr_task rtr) = (t1, as)" "cx_after Cx_idle as = Cx_get"
    and found: "get_registration_sets_success env irss t1 = (t, bs)" and acts: "acts = as @ bs"
    using run_found [OF assms(1)] by auto
  have inv: "rtr_inv env rtr Cx_get t1"
    using rtr_step_laws [OF rtr_ends(1) [of env rtr], of Cx_run Cx_idle t1 as] run by simp
  have sp: "notify_sprout env (t1\<lparr>k_reg_sets := irss\<rparr>) (map m_default_impu irss) = Some (x_http env req, req)"
    using inv assms(4-8)
    by (auto simp: rtr_inv_def notify_sprout_def deregister_bindings_def rtr_body_product list_all_iff reason_defs Let_def
        simp flip: assms(3))
  have as: "as = [if cx_impus D rtr \<noteq> [] \<and> reason \<in> {PERMANENT_TERMINATION, REMOVE_SCSCF}
            then GetIrssForImpus (cx_impus D rtr) else GetIrssForImpis impis]"
    using run assms(3-5) by (auto simp: rtr_run_def new_rtr_task_def reason_defs Let_def split: if_splits)
  have bs: "bs = ToSprout req # count_result RTR_RESULTS res @
      [SendAnswer (cx_RegistrationTerminationAnswer rtr res (dm_auth_session_state D rtr) impis), DeleteIrss irss]"
    using found inv assms(2,3,5,9) sp by (auto simp: get_registration_sets_success_def send_rta_def rtr_inv_def Let_def)
  show ?thesis
    using inv assms(3,4) as bs acts by (auto simp: rtr_inv_def)
qed

text \<open>A subscription as the cache builds it: every registration set under its default IMPU.\<close>

definition ims_sub_ok :: "mirs ims_subscription \<Rightarrow> bool" where
  "ims_sub_ok sub \<longleftrightarrow> omap_ok sub \<and> (\<forall>k irs. map_of sub k = Some irs \<longrightarrow> m_default_impu irs = k)"

lemma BaseImsSubscription_ok: "ims_sub_ok (BaseImsSubscription m_default_impu irss)"
proof -
  have "ims_sub_ok (fold (\<lambda>irs m. omap_insert (m_default_impu irs) irs m) irss sub)" if "ims_sub_ok sub" for sub
    using that
  proof (induction irss arbitrary: sub)
    case (Cons irs irss)
    have "ims_sub_ok (omap_insert (m_default_impu irs) irs sub)"
      using Cons.prems by (simp add: ims_sub_ok_def)
    then show ?case using Cons.IH by simp
  qed simp
  moreover have "ims_sub_ok []" by (simp add: ims_sub_ok_def)
  ultimately show ?thesis unfolding BaseImsSubscription_def by blast
qed

text \<open>What a push profile makes of each registration set of the subscription.\<close>

definition push_profile ::
  "'x xml_api \<Rightarrow> string option \<Rightarrow> bool \<times> ChargingAddresses \<Rightarrow> string \<Rightarrow> mirs \<Rightarrow> mirs" where
  "push_profile X user_data charging impu irs =
     (let irs1 = (case user_data of
            None \<Rightarrow> irs
          | Some xml \<Rightarrow> if get_default_id X xml '''' = impu then set_ims_sub_xml X xml irs else irs)
      in if fst charging then set_charging_addresses (snd charging) irs1 else irs1)"

lemma push_profile_fields:
  "m_default_impu irs = impu \<Longrightarrow> m_default_impu (push_profile X user_data charging impu irs) = impu"
  "m_registration_state (push_profile X user_data charging impu irs) = m_registration_state irs"
  "m_ttl (push_profile X user_data charging impu irs) = m_ttl irs"
  "m_impis (push_profile X user_data charging impu irs) = m_impis irs"
  by (auto simp: push_profile_def set_charging_addresses_def set_ims_sub_xml_def get_default_id_def Let_def
      split: option.splits prod.splits)

lemma push_profile_ok: "ims_sub_ok sub \<Longrightarrow> ims_sub_ok (omap_map (push_profile X user_data charging) sub)"
  by (auto simp: ims_sub_ok_def map_of_omap_map push_profile_fields(1))

definition ppr_sprout_request :: "('w, 'j, 'x, 'm) cx_env \<Rightarrow> string \<Rightarrow> sprout_request" where
  "ppr_sprout_request env xml =
     \<lparr>sp_method = HTTP_PUT, sp_path = ''/registrations/'' @ get_default_id (x_xml env) xml '''',
      sp_body = ppr_create_body (x_ext env) xml\<rparr>"

lemma save_ims_sub_map:
  assumes "omap_ok sub"
    and "sub' = omap_map (push_profile X user_data (q_charging_addrs_present t, q_charging_addrs t)) sub"
  shows "user_data = None \<Longrightarrow>
      save_ims_sub t sub = (t\<lparr>q_ims_sub := Some sub'\<rparr>, [PutImsSubscription sub'])"
    and "user_data = Some xml \<Longrightarrow> map_of sub (get_default_id X xml '''') = Some irs \<Longrightarrow>
      save_ims_sub t (omap_insert (get_default_id X xml '''') (set_ims_sub_xml X xml irs) sub) =
        (t\<lparr>q_ims_sub := Some sub'\<rparr>, [PutImsSubscription sub'])"
proof -
  have eq: "(if q_charging_addrs_present t
      then set_charging_addrs (set_charging_addresses (q_charging_addrs t)) s else s) = sub'"
    if "omap_ok s" "map_of s = (\<lambda>k. map_option (\<lambda>irs. case user_data of None \<Rightarrow> irs
      | Some xml \<Rightarrow> if get_default_id X xml '''' = k then set_ims_sub_xml X xml irs else irs) (map_of sub k))" for s
  proof (rule omap_eqI)
    let ?s = "if q_charging_addrs_present t
      then set_charging_addrs (set_charging_addresses (q_charging_addrs t)) s else s"
    show "omap_ok ?s" "omap_ok sub'" using that(1) assms by (simp_all add: set_charging_addrs_def)
    show "map_of ?s = map_of sub'"
    proof
      fix k
      show "map_of ?s k = map_of sub' k"
        using fun_cong [OF that(2), of k]
        by (cases "map_of sub k") (simp_all add: assms(2) set_charging_addrs_def map_of_omap_map push_profile_def)
    qed
  qed
  show "save_ims_sub t sub = (t\<lparr>q_ims_sub := Some sub'\<rparr>, [PutImsSubscription sub'])" if "user_data = None"
    using eq [OF assms(1)] that by (simp add: save_ims_sub_def Let_def option.map_ident)
  show "save_ims_sub t (omap_insert (get_default_id X xml '''') (set_ims_sub_xml X xml irs) sub) =
      (t\<lparr>q_ims_sub := Some sub'\<rparr>, [PutImsSubscription sub'])"
    if "user_data = Some xml" "map_of sub (get_default_id X xml '''') = Some irs"
    using eq [of "omap_insert (get_default_id X xml '''') (set_ims_sub_xml X xml irs) sub"] that assms(1)
    by (auto simp: save_ims_sub_def fun_eq_iff option.map_ident Let_def)
qed

lemma ppr_found_acts:
  assumes "task_run cx_awaits (ppr_handle env) cx_after Cx_idle (new_ppr_task ppr) [Cx_run, Found sub] (p, t, acts)"
    and "ims_sub_ok sub" and "D = x_diameter env" and "X = x_xml env" and "user_data = cx_user_data D ppr"
    and "sub' = omap_map (push_profile X user_data (cx_ppr_charging_addrs D ppr)) sub"
  shows "acts = GetImsSubscription (dm_impi D ppr) #
      (case user_data of
         None \<Rightarrow> [PutImsSubscription sub']
       | Some xml \<Rightarrow>
           if map_of sub (get_default_id X xml '''') = None then send_ppa env t DIAMETER_REQ_FAILURE @ [EndTask]
           else ToSprout (ppr_sprout_request env xml) #
             (if x_http env (ppr_sprout_request env xml) = Named HTTP_OK then [PutImsSubscription sub']
              else send_ppa env t DIAMETER_REQ_FAILURE @ [EndTask])) \<and>
    q_msg t = ppr \<and> ims_sub_ok sub'"
proof -
  obtain t1 as bs where run: "ppr_run env (new_ppr_task ppr) = (t1, as)" "cx_after Cx_idle as = Cx_get"
    and found: "on_get_ims_sub_success env sub t1 = (t, bs)" and acts: "acts = as @ bs"
    using run_found [OF assms(1)] by auto
  have as: "as = [GetImsSubscription (dm_impi D ppr)]" and msg: "q_msg t1 = ppr"
    and ch: "(q_charging_addrs_present t1, q_charging_addrs t1) = cx_ppr_charging_addrs D ppr"
    and ud: "q_ims_sub_present t1 \<longleftrightarrow> user_data \<noteq> None" "user_data = Some xml \<Longrightarrow> q_ims_subscription t1 = xml" for xml
    using run assms(3,5) by (auto simp: ppr_run_def new_ppr_task_def Let_def split: if_splits prod.splits)
  have ok: "omap_ok sub" using assms(2) by (simp add: ims_sub_ok_def)
  have "bs = (case user_data of
         None \<Rightarrow> [PutImsSubscription sub']
       | Some xml \<Rightarrow>
           if map_of sub (get_default_id X xml '''') = None then send_ppa env t DIAMETER_REQ_FAILURE @ [EndTask]
           else ToSprout (ppr_sprout_request env xml) #
             (if x_http env (ppr_sprout_request env xml) = Named HTTP_OK then [PutImsSubscription sub']
              else send_ppa env t DIAMETER_REQ_FAILURE @ [EndTask])) \<and> q_msg t = ppr"
  proof (cases user_data)
    case None
    then show ?thesis
      using found ud msg save_ims_sub_map(1) [OF ok, of sub' X None "t1\<lparr>q_ims_sub := Some sub\<rparr>"] assms(6) ch
      by (auto simp: on_get_ims_sub_success_def Let_def)
  next
    case (Some xml)
    show ?thesis
    proof (cases "map_of sub (get_default_id X xml '''')")
      case None
      then show ?thesis
        using found ud Some msg assms(4) by (auto simp: on_get_ims_sub_success_def get_irs_for_default_impu_def Let_def)
    next
      case irs: (Some irs)
      have save: "save_ims_sub t2 (omap_insert (get_default_id X xml '''') (set_ims_sub_xml X xml irs) sub) =
          (t2\<lparr>q_ims_sub := Some sub'\<rparr>, [PutImsSubscription sub'])"
        if "q_charging_addrs_present t2 = q_charging_addrs_present t1" "q_charging_addrs t2 = q_charging_addrs t1" for t2
        using save_ims_sub_map(2) [OF ok, of sub' X "Some xml" t2 xml irs] that irs assms(6) ch Some by simp
      show ?thesis
        using found ud(1) ud(2) [OF Some] Some irs msg
        by (auto simp: on_get_ims_sub_success_def get_irs_for_default_impu_def change_associated_identities_def
            ppr_sprout_request_def save Let_def simp flip: assms(4) split: if_splits)
    qed
  qed
  then show ?thesis
    using as acts push_profile_ok [OF assms(2)] assms(6) by simp
qed

text \<open>
  C18: a push profile is all or nothing, and it cannot change a default IMPU. When it has a profile
  whose default identity is not the default IMPU of one of the subscriber's registration sets, or
  Sprout does not accept the profile, the HSS gets a failure and the cache is not written. Otherwise
  Sprout has been told and the whole subscription is saved, with the profile in the one set it is
  for, the charging addresses in all of them, and the registration states, TTLs and private
  identities as they were.
\<close>

theorem ppr_all_or_nothing:
  assumes "task_run cx_awaits (ppr_handle env) cx_after Cx_idle (new_ppr_task ppr) [Cx_run, Found sub] (p, t, acts)"
    and "ims_sub_ok sub" and "D = x_diameter env" and "X = x_xml env" and "user_data = cx_user_data D ppr"
    and "sub' = omap_map (push_profile X user_data (cx_ppr_charging_addrs D ppr)) sub"
  shows "acts = GetImsSubscription (dm_impi D ppr) #
      (case user_data of
         None \<Rightarrow> [PutImsSubscription sub']
       | Some xml \<Rightarrow>
           if map_of sub (get_default_id X xml '''') = None then send_ppa env t DIAMETER_REQ_FAILURE @ [EndTask]
           else ToSprout (ppr_sprout_request env xml) #
             (if x_http env (ppr_sprout_request env xml) = Named HTTP_OK then [PutImsSubscription sub']
              else send_ppa env t DIAMETER_REQ_FAILURE @ [EndTask])) \<and>
    q_msg t = ppr \<and> ims_sub_ok sub'"
  using assms by (rule ppr_found_acts)

section \<open>Samples\<close>

definition sample_cx_env :: "(ref_world, (string \<times> jvalue) list, ref_node, ref_msg) cx_env" where
  "sample_cx_env = \<lparr>x_diameter = ref_diameter, x_ext = ref_ext, x_xml = ref_xml, x_http = (\<lambda>req. Named HTTP_OK)\<rparr>"

definition sample_rtr :: ref_msg where
  "sample_rtr = ref_received (cx_RegistrationTerminationRequest PERMANENT_TERMINATION ''i'' [] [''sip:a''] 1)"

definition sample_ppr :: ref_msg where
  "sample_ppr = RMessage PUSH_PROFILE_REQUEST
     [Add (str_avp AVP_USER_NAME ''i''), Add (str_avp AVP_USER_DATA ''sip:a sip:c'')]"

definition sample_set :: mirs where
  "sample_set = (new_mirs 0 REGISTERED)\<lparr>m_default_impu := ''sip:a''\<rparr>"

lemma sample_rtr_reads:
  "cx_deregistration_reason ref_diameter sample_rtr = PERMANENT_TERMINATION"
  "cx_associated_identities ref_diameter sample_rtr = []" "cx_impus ref_diameter sample_rtr = [''sip:a'']"
  "dm_impi ref_diameter sample_rtr = ''i''"
  by (simp_all add: sample_rtr_def cx_RegistrationTerminationRequest_def associated_identities_part_def
      cx_deregistration_reason_def cx_associated_identities_def cx_impus_def dm_first_def ref_diameter_def
      ref_begin_def ref_first_def str_avp_def i32_avp_def reason_defs)

lemma sample_ppr_reads:
  "cx_user_data ref_diameter sample_ppr = Some ''sip:a sip:c''"
  "cx_ppr_charging_addrs ref_diameter sample_ppr = (False, no_charging)" "dm_impi ref_diameter sample_ppr = ''i''"
  by (simp_all add: sample_ppr_def cx_user_data_def cx_ppr_charging_addrs_def dm_first_def ref_diameter_def
      ref_begin_def ref_first_def str_avp_def)

lemma sample_rtr_run:
  "\<exists>p t acts. task_run cx_awaits (rtr_handle sample_cx_env) cx_after Cx_idle (new_rtr_task sample_rtr)
     [Cx_run, Found [sample_set]] (p, t, acts)"
  by (simp add: task_run_iff_exec rtr_run_def sample_cx_env_def sample_rtr_reads new_rtr_task_def reason_defs
      get_registration_sets_success_def split_def Let_def)

lemma sample_ppr_run:
  "\<exists>p t acts. task_run cx_awaits (ppr_handle sample_cx_env) cx_after Cx_idle (new_ppr_task sample_ppr)
     [Cx_run, Found [(''sip:a'', sample_set)]] (p, t, acts)"
  by (simp add: task_run_iff_exec ppr_run_def sample_cx_env_def sample_ppr_reads new_ppr_task_def split_def Let_def)

theorem cx_tasks_answer_once_witness:
  "\<exists>p t acts. task_run cx_awaits (rtr_handle sample_cx_env) cx_after Cx_idle (new_rtr_task sample_rtr)
     [Cx_run, Found [sample_set]] (p, t, acts) \<and> 2 + cx_steps p \<le> 4 \<and> length (filter is_answer acts) = rtr_answers p"
proof -
  obtain p t acts where run: "task_run cx_awaits (rtr_handle sample_cx_env) cx_after Cx_idle (new_rtr_task sample_rtr)
     [Cx_run, Found [sample_set]] (p, t, acts)"
    using sample_rtr_run by blast
  moreover have "2 + cx_steps p \<le> 4 \<and> length (filter is_answer acts) = rtr_answers p"
    using cx_tasks_answer_once [of sample_cx_env sample_rtr sample_ppr] run by fastforce
  ultimately show ?thesis by blast
qed

theorem rtr_tells_sprout_witness:
  "\<exists>p t acts. task_run cx_awaits (rtr_handle sample_cx_env) cx_after Cx_idle (new_rtr_task sample_rtr)
     [Cx_run, Found [sample_set]] (p, t, acts) \<and> GetIrssForImpus [''sip:a''] \<in> set acts \<and> DeleteIrss [sample_set] \<in> set acts"
proof -
  obtain p t acts where run: "task_run cx_awaits (rtr_handle sample_cx_env) cx_after Cx_idle (new_rtr_task sample_rtr)
     [Cx_run, Found [sample_set]] (p, t, acts)"
    using sample_rtr_run by blast
  have impis: "list_all no_nul (dm_impi (x_diameter sample_cx_env) sample_rtr #
      cx_associated_identities (x_diameter sample_cx_env) sample_rtr)"
    by (simp add: sample_cx_env_def sample_rtr_reads no_nul_def)
  have sets: "list_all (\<lambda>irs. no_nul (m_default_impu irs)) [sample_set]"
    by (simp add: sample_set_def no_nul_def)
  have "GetIrssForImpus [''sip:a''] \<in> set acts \<and> DeleteIrss [sample_set] \<in> set acts"
    using rtr_tells_sprout [OF run _ refl refl refl impis sets refl refl]
    by (simp add: sample_cx_env_def sample_rtr_reads)
  then show ?thesis using run by blast
qed

theorem ppr_all_or_nothing_witness:
  "\<exists>p t acts sub'. task_run cx_awaits (ppr_handle sample_cx_env) cx_after Cx_idle (new_ppr_task sample_ppr)
     [Cx_run, Found [(''sip:a'', sample_set)]] (p, t, acts) \<and> PutImsSubscription sub' \<in> set acts \<and>
     map m_ims_sub_xml (map snd sub') = [''sip:a sip:c'']"
proof -
  obtain p t acts where run: "task_run cx_awaits (ppr_handle sample_cx_env) cx_after Cx_idle (new_ppr_task sample_ppr)
     [Cx_run, Found [(''sip:a'', sample_set)]] (p, t, acts)"
    using sample_ppr_run by blast
  have ok: "ims_sub_ok [(''sip:a'', sample_set)]" by (simp add: ims_sub_ok_def sample_set_def)
  have ids: "get_default_id ref_xml ''sip:a sip:c'' '''' = ''sip:a''"
    by (simp add: get_default_id_def get_public_and_default_ids_eq ref_listed c_str_def)
  let ?sub = "[(''sip:a'', set_ims_sub_xml ref_xml ''sip:a sip:c'' sample_set)]"
  have "PutImsSubscription ?sub \<in> set acts"
    using ppr_all_or_nothing [OF run ok refl refl refl refl]
    by (simp add: sample_cx_env_def sample_ppr_reads ids omap_map_def push_profile_def)
  moreover have "map m_ims_sub_xml (map snd ?sub) = [''sip:a sip:c'']"
    by (simp add: set_ims_sub_xml_def Let_def split: prod.split)
  ultimately show ?thesis using run by (intro exI conjI)
qed

end
