(* ===== verification/Reg_Data_Task.thy ===== *)
theory Reg_Data_Task
  imports Http_Handlers External
begin

text \<open>
  \<open>ImpuRegDataTask\<close> and \<open>ImpuReadRegDataTask\<close> of \<open>src/http_handlers.cpp\<close>: registrations, calls,
  deregistrations and authentication failures. The task is a state machine driven by the callbacks
  of the cache and of the HSS. The definitions follow the methods, each from the task to the task
  and the actions it performs; \<open>reg_step\<close> is the machine. Its invariants, the decisions and the
  effect on the cache are in \<open>Reg_Data_Machine\<close>.
\<close>

section \<open>State\<close>

datatype RequestType =
    TYPE_UNKNOWN | TYPE_REG | TYPE_CALL | TYPE_DEREG_USER | TYPE_DEREG_ADMIN | TYPE_DEREG_TIMEOUT
  | TYPE_DEREG_AUTH_FAIL | TYPE_DEREG_AUTH_TIMEOUT

record reg_data_config =
  hss_configured :: bool
  hss_reregistration_time :: int
  record_ttl :: int
  support_shared_ifcs :: bool

text \<open>
  What the methods use of the process: the configuration, the JSON and XML libraries, cpp-common's
  \<open>url_unescape\<close>, and the indeterminate members of a new registration set.
\<close>

record ('w, 'j, 'x) reg_env =
  e_cfg :: reg_data_config
  e_server_name :: string
  e_ext :: "('w, 'j) ext"
  e_xml :: "'x xml_api"
  e_url_unescape :: "string \<Rightarrow> string"
  e_any_ttl :: int
  e_any_state :: RegistrationState

record reg_task =
  rt_req :: http_request
  rt_impi :: string
  rt_impu :: string
  rt_type :: RequestType
  rt_irs :: "mirs option"
  rt_cached_reg_state :: RegistrationState
  rt_http_rc :: http_code
  rt_provided_server_name :: string
  rt_sprout_wildcard :: string
  rt_hss_wildcard :: string

definition new_reg_task :: "http_request \<Rightarrow> reg_task" where
  "new_reg_task req =
     \<lparr>rt_req = req, rt_impi = '''', rt_impu = '''', rt_type = TYPE_UNKNOWN, rt_irs = None,
      rt_cached_reg_state = REG_UNKNOWN, rt_http_rc = HTTP_OK, rt_provided_server_name = '''',
      rt_sprout_wildcard = '''', rt_hss_wildcard = ''''\<rparr>"

section \<open>Request types\<close>

fun is_deregistration_request :: "RequestType \<Rightarrow> bool" where
  "is_deregistration_request TYPE_DEREG_USER = True"
| "is_deregistration_request TYPE_DEREG_ADMIN = True"
| "is_deregistration_request TYPE_DEREG_TIMEOUT = True"
| "is_deregistration_request _ = False"

fun is_auth_failure_request :: "RequestType \<Rightarrow> bool" where
  "is_auth_failure_request TYPE_DEREG_AUTH_FAIL = True"
| "is_auth_failure_request TYPE_DEREG_AUTH_TIMEOUT = True"
| "is_auth_failure_request _ = False"

fun sar_type_for_request :: "RequestType \<Rightarrow> ServerAssignmentType" where
  "sar_type_for_request TYPE_DEREG_USER = USER_DEREGISTRATION"
| "sar_type_for_request TYPE_DEREG_ADMIN = ADMINISTRATIVE_DEREGISTRATION"
| "sar_type_for_request TYPE_DEREG_TIMEOUT = TIMEOUT_DEREGISTRATION"
| "sar_type_for_request TYPE_DEREG_AUTH_FAIL = AUTHENTICATION_FAILURE"
| "sar_type_for_request TYPE_DEREG_AUTH_TIMEOUT = AUTHENTICATION_TIMEOUT"
| "sar_type_for_request _ = ADMINISTRATIVE_DEREGISTRATION"

text \<open>A string member of the JSON object in the body, empty when there is none.\<close>

definition body_member :: "('w, 'j) ext \<Rightarrow> string \<Rightarrow> string \<Rightarrow> string" where
  "body_member E body member =
     (case json_parse E (c_str body) of
        None \<Rightarrow> ''''
      | Some document \<Rightarrow>
          if \<not> json_is_object E document \<or> \<not> json_has_member E document member then ''''
          else (case json_string_member E document member of None \<Rightarrow> '''' | Some s \<Rightarrow> c_str s))"

definition request_type_from_body :: "('w, 'j) ext \<Rightarrow> string \<Rightarrow> RequestType" where
  "request_type_from_body E body =
     (let reqtype = body_member E body ''reqtype''
      in if reqtype = ''reg'' then TYPE_REG
         else if reqtype = ''call'' then TYPE_CALL
         else if reqtype = ''dereg-user'' then TYPE_DEREG_USER
         else if reqtype = ''dereg-admin'' then TYPE_DEREG_ADMIN
         else if reqtype = ''dereg-timeout'' then TYPE_DEREG_TIMEOUT
         else if reqtype = ''dereg-auth-failed'' then TYPE_DEREG_AUTH_FAIL
         else if reqtype = ''dereg-auth-timeout'' then TYPE_DEREG_AUTH_TIMEOUT
         else TYPE_UNKNOWN)"

definition server_name_from_body :: "('w, 'j) ext \<Rightarrow> string \<Rightarrow> string" where
  "server_name_from_body E body = body_member E body ''server_name''"

definition wildcard_from_body :: "('w, 'j) ext \<Rightarrow> string \<Rightarrow> string" where
  "wildcard_from_body E body = body_member E body ''wildcard_identity''"

section \<open>The methods\<close>

definition wildcard_id :: "reg_task \<Rightarrow> string" where
  "wildcard_id t = (if rt_hss_wildcard t = '''' then rt_sprout_wildcard t else rt_hss_wildcard t)"

definition public_id :: "reg_task \<Rightarrow> string" where
  "public_id t = (if wildcard_id t = '''' then rt_impu t else wildcard_id t)"

definition get_reg_data :: "reg_task \<Rightarrow> reg_task \<times> 'x action list" where
  "get_reg_data t = (t, [CacheGet (public_id t)])"

definition reg_data_run :: "('w, 'j, 'x) reg_env \<Rightarrow> reg_task \<Rightarrow> reg_task \<times> 'x action list" where
  "reg_data_run env t =
     (let req = rt_req t; E = e_ext env
      in case path_id (rq_full_path req) of
           None \<Rightarrow> (t, [Out_of_range])
         | Some ident \<Rightarrow>
             let t1 = t\<lparr>rt_impu := e_url_unescape env ident,
                        rt_impi := e_url_unescape env (rq_param req ''private_id''),
                        rt_provided_server_name := server_name_from_body E (rq_body req),
                        rt_sprout_wildcard := wildcard_from_body E (rq_body req)\<rparr>
             in if rq_method req = METHOD_PUT then
                  let t2 = t1\<lparr>rt_type := request_type_from_body E (rq_body req)\<rparr>
                  in if rt_type t2 = TYPE_UNKNOWN then (t2, [rc_reply HTTP_BAD_REQUEST, DeleteTask])
                     else get_reg_data t2
                else if rq_method req = METHOD_GET then get_reg_data (t1\<lparr>rt_type := TYPE_UNKNOWN\<rparr>)
                else (t1, [rc_reply HTTP_BADMETHOD, DeleteTask]))"

text \<open>The \<open>run\<close> of the read-only task.\<close>

definition read_reg_data_run :: "('w, 'j, 'x) reg_env \<Rightarrow> reg_task \<Rightarrow> reg_task \<times> 'x action list" where
  "read_reg_data_run env t =
     (if rq_method (rt_req t) \<noteq> METHOD_GET then (t, [rc_reply HTTP_BADMETHOD, DeleteTask])
      else reg_data_run env t)"

text \<open>
  \<open>send_reply\<close>: the saved error, or the document for the registration set. A task without a set
  would follow a null pointer.
\<close>

definition send_reply :: "('w, 'j, 'x) reg_env \<Rightarrow> reg_task \<Rightarrow> 'x action list" where
  "send_reply env t =
     (if rt_http_rc t \<noteq> HTTP_OK then [rc_reply (rt_http_rc t)]
      else
        (case rt_irs t of
           None \<Rightarrow> [Undefined]
         | Some irs \<Rightarrow>
             let prev_state = (if rt_type t = TYPE_REG \<or> rt_type t = TYPE_CALL
                               then rt_cached_reg_state t else REG_UNKNOWN);
                 (rc, doc) = build_ClearwaterRegData (e_xml env) (m_registration_state irs)
                   (m_ims_sub_xml irs) (m_charging_addresses irs) prev_state
             in [SendHttpReply rc (case doc of
                   Some x \<Rightarrow> if rc = HTTP_OK then Xml x else No_content
                 | None \<Rightarrow> No_content)]))"

definition send_server_assignment_request ::
  "('w, 'j, 'x) reg_env \<Rightarrow> ServerAssignmentType \<Rightarrow> reg_task \<Rightarrow> 'x action list" where
  "send_server_assignment_request env type t =
     [SendSAR \<lparr>sar_impi = rt_impi t, sar_impu = rt_impu t,
        sar_server_name = (if rt_provided_server_name t = '''' then e_server_name env
                           else rt_provided_server_name t),
        sar_type = type, sar_support_shared_ifcs = support_shared_ifcs (e_cfg env),
        sar_wildcard_impu = (if rt_hss_wildcard t = '''' then rt_sprout_wildcard t
                             else rt_hss_wildcard t)\<rparr>]"

text \<open>
  The private ID and \<open>new_binding\<close>, from the set that was found. The age of a record is an \<open>int\<close>.
\<close>

definition binding_of :: "'x xml_api \<Rightarrow> mirs \<Rightarrow> string \<Rightarrow> string \<times> bool" where
  "binding_of X irs impi =
     (if impi = '''' then (get_private_id X (m_ims_sub_xml irs), False)
      else (impi, m_ims_sub_xml irs \<noteq> '''' \<and>
              (get_associated_impis irs = [] \<or> impi \<notin> set (get_associated_impis irs))))"

definition process_received_reg_data ::
  "('w, 'j, 'x) reg_env \<Rightarrow> reg_task \<Rightarrow> reg_task \<times> 'x action list" where
  "process_received_reg_data env t =
     (case rt_irs t of
        None \<Rightarrow> (t, [Undefined])
      | Some irs \<Rightarrow>
          let ttl = m_ttl irs;
              t1 = t\<lparr>rt_cached_reg_state := m_registration_state irs\<rparr>
          in if rq_method (rt_req t) = METHOD_GET then (t1, send_reply env t1 @ [DeleteTask])
             else
               let (impi, new_binding) = binding_of (e_xml env) irs (rt_impi t1);
                   t2 = t1\<lparr>rt_impi := impi\<rparr>;
                   cache_not_allowed = (rq_header (rt_req t2) ''Cache-control'' = ''no-cache'');
                   cached = rt_cached_reg_state t2;
                   type = rt_type t2
               in if type = TYPE_REG then
                    if cached = REGISTERED \<and> \<not> new_binding then
                      let record_age = s32 (record_ttl (e_cfg env) - ttl);
                          t3 = t2\<lparr>rt_irs := Some (set_reg_state REGISTERED irs)\<rparr>
                      in if record_age \<ge> hss_reregistration_time (e_cfg env) then
                           (t3, send_server_assignment_request env RE_REGISTRATION t3)
                         else if cache_not_allowed then
                           (t3, send_server_assignment_request env RE_REGISTRATION t3)
                         else (t3, send_reply env t3 @ [DeleteTask])
                    else
                      let t3 = t2\<lparr>rt_irs := Some (add_associated_impi impi (set_reg_state REGISTERED irs))\<rparr>
                      in (t3, send_server_assignment_request env REGISTRATION t3)
                  else if type = TYPE_CALL then
                    if cached = NOT_REGISTERED then
                      let t3 = t2\<lparr>rt_irs := Some (set_reg_state UNREGISTERED irs)\<rparr>
                      in (t3, send_server_assignment_request env UNREGISTERED_USER t3)
                    else (t2, send_reply env t2 @ [DeleteTask])
                  else if is_deregistration_request type then
                    if cached \<noteq> NOT_REGISTERED then
                      let t3 = t2\<lparr>rt_irs := Some (set_reg_state NOT_REGISTERED irs)\<rparr>
                      in (t3, send_server_assignment_request env (sar_type_for_request type) t3)
                    else (t2, [rc_reply HTTP_BAD_REQUEST, DeleteTask])
                  else if is_auth_failure_request type then
                    (t2, send_server_assignment_request env (sar_type_for_request type) t2)
                  else (t2, [DeleteTask]))"

definition on_get_reg_data_success ::
  "('w, 'j, 'x) reg_env \<Rightarrow> mirs \<Rightarrow> reg_task \<Rightarrow> reg_task \<times> 'x action list" where
  "on_get_reg_data_success env irs t = process_received_reg_data env (t\<lparr>rt_irs := Some irs\<rparr>)"

definition on_get_reg_data_failure ::
  "('w, 'j, 'x) reg_env \<Rightarrow> status \<Rightarrow> reg_task \<Rightarrow> reg_task \<times> 'x action list" where
  "on_get_reg_data_failure env rc t =
     (if rc = NOT_FOUND then
        if rq_method (rt_req t) = METHOD_PUT then
          process_received_reg_data env
            (t\<lparr>rt_irs := Some (set_reg_state NOT_REGISTERED (new_mirs (e_any_ttl env) (e_any_state env)))\<rparr>)
        else (t, [rc_reply HTTP_NOT_FOUND, DeleteTask])
      else (t, [rc_reply HTTP_GATEWAY_TIMEOUT, DeleteTask]))"

text \<open>The check that an identity is a SIP URI only logs and is left out.\<close>

definition put_in_cache :: "('w, 'j, 'x) reg_env \<Rightarrow> reg_task \<Rightarrow> 'x action list" where
  "put_in_cache env t =
     (case rt_irs t of
        None \<Rightarrow> [Undefined]
      | Some irs \<Rightarrow>
          let (public_ids, default_public_id) =
            get_public_and_default_ids (e_xml env) (m_ims_sub_xml irs) ''''
          in if public_ids \<noteq> [] then [CachePut irs] else send_reply env t @ [DeleteTask])"

text \<open>
  The second half of \<open>on_sar_response\<close>: updating the cache for an answer whose code has been
  turned into \<open>_http_rc\<close>.
\<close>

definition update_cache_for_saa ::
  "('w, 'j, 'x) reg_env \<Rightarrow> ServerAssignmentAnswer \<Rightarrow> reg_task \<Rightarrow> reg_task \<times> 'x action list" where
  "update_cache_for_saa env saa t =
     (let rc = saa_result saa
      in if rc = RC_SUCCESS \<and> \<not> is_deregistration_request (rt_type t) \<and>
            \<not> is_auth_failure_request (rt_type t) then
           (case rt_irs t of
              None \<Rightarrow> (t, [Undefined])
            | Some irs \<Rightarrow>
                let irs1 = set_charging_addresses (saa_charging saa) irs;
                    irs2 = set_ims_sub_xml (e_xml env) (saa_service_profile saa) irs1;
                    irs3 = set_ttl (record_ttl (e_cfg env)) irs2;
                    t1 = t\<lparr>rt_irs := Some irs3\<rparr>
                in (t1, put_in_cache env t1))
         else if is_deregistration_request (rt_type t) \<and> rc \<noteq> RC_SERVER_UNAVAILABLE then
           (case rt_irs t of None \<Rightarrow> (t, [Undefined]) | Some irs \<Rightarrow> (t, [CacheDelete irs]))
         else (t, send_reply env t @ [DeleteTask]))"

definition on_sar_response ::
  "('w, 'j, 'x) reg_env \<Rightarrow> ServerAssignmentAnswer \<Rightarrow> reg_task \<Rightarrow> reg_task \<times> 'x action list" where
  "on_sar_response env saa t =
     (let rc = saa_result saa
      in if rc = RC_SUCCESS then update_cache_for_saa env saa t
         else if rc = RC_SERVER_UNAVAILABLE then
           update_cache_for_saa env saa (t\<lparr>rt_http_rc := HTTP_SERVER_UNAVAILABLE\<rparr>)
         else if rc = RC_NOT_FOUND then
           update_cache_for_saa env saa (t\<lparr>rt_http_rc := HTTP_NOT_FOUND\<rparr>)
         else if rc = RC_NEW_WILDCARD then
           let current_wildcard = wildcard_id t;
               t1 = t\<lparr>rt_hss_wildcard := saa_wildcard_impu saa\<rparr>
           in if current_wildcard = rt_hss_wildcard t1 then
                update_cache_for_saa env saa (t1\<lparr>rt_http_rc := HTTP_SERVER_ERROR\<rparr>)
              else get_reg_data (t1\<lparr>rt_irs := None\<rparr>)
         else if rc = RC_TIMEOUT then
           let (t1, as) = update_cache_for_saa env saa (t\<lparr>rt_http_rc := HTTP_GATEWAY_TIMEOUT\<rparr>)
           in (t1, RecordPenalty # as)
         else update_cache_for_saa env saa (t\<lparr>rt_http_rc := HTTP_SERVER_ERROR\<rparr>))"

definition on_put_reg_data_progress :: "('w, 'j, 'x) reg_env \<Rightarrow> reg_task \<Rightarrow> 'x action list" where
  "on_put_reg_data_progress env t = send_reply env t"

definition on_put_reg_data_success :: "'x action list" where
  "on_put_reg_data_success = [DeleteTask]"

definition on_put_reg_data_failure :: "'x action list" where
  "on_put_reg_data_failure = [rc_reply HTTP_SERVER_UNAVAILABLE, DeleteTask]"

definition on_del_impu_benign :: "('w, 'j, 'x) reg_env \<Rightarrow> reg_task \<Rightarrow> 'x action list" where
  "on_del_impu_benign env t = send_reply env t"

definition on_del_impu_progress :: "('w, 'j, 'x) reg_env \<Rightarrow> reg_task \<Rightarrow> 'x action list" where
  "on_del_impu_progress env t = on_del_impu_benign env t"

definition on_del_impu_success :: "'x action list" where
  "on_del_impu_success = [DeleteTask]"

definition on_del_impu_failure :: "('w, 'j, 'x) reg_env \<Rightarrow> status \<Rightarrow> reg_task \<Rightarrow> 'x action list" where
  "on_del_impu_failure env status t =
     (if status = NOT_FOUND then on_del_impu_benign env t @ [DeleteTask]
      else [rc_reply (if rt_http_rc t = HTTP_OK then HTTP_SERVER_UNAVAILABLE else rt_http_rc t), DeleteTask])"

lemmas ending_callbacks [task_simps] =
  on_put_reg_data_progress_def on_put_reg_data_success_def on_put_reg_data_failure_def on_del_impu_benign_def
  on_del_impu_progress_def on_del_impu_success_def on_del_impu_failure_def

section \<open>The state machine\<close>

text \<open>
  What the process calls on a task: \<open>run\<close>, and the callbacks. The cache is given the task's own
  registration set and merges stored data into it, so a callback that reads the set finds what the
  cache has left: the events carry it.
\<close>

datatype event =
    Run | Run_read
  | Get_success mirs | Get_failure status | Sar_response ServerAssignmentAnswer
  | Put_progress mirs | Put_success | Put_failure status
  | Del_progress mirs | Del_success | Del_failure mirs status

fun handle :: "('w, 'j, 'x) reg_env \<Rightarrow> event \<Rightarrow> reg_task \<Rightarrow> reg_task \<times> 'x action list" where
  "handle env Run t = reg_data_run env t"
| "handle env Run_read t = read_reg_data_run env t"
| "handle env (Get_success irs) t = on_get_reg_data_success env irs t"
| "handle env (Get_failure rc) t = on_get_reg_data_failure env rc t"
| "handle env (Sar_response saa) t = on_sar_response env saa t"
| "handle env (Put_progress irs) t =
     (t\<lparr>rt_irs := Some irs\<rparr>, on_put_reg_data_progress env (t\<lparr>rt_irs := Some irs\<rparr>))"
| "handle env Put_success t = (t, on_put_reg_data_success)"
| "handle env (Put_failure rc) t = (t, on_put_reg_data_failure)"
| "handle env (Del_progress irs) t =
     (t\<lparr>rt_irs := Some irs\<rparr>, on_del_impu_progress env (t\<lparr>rt_irs := Some irs\<rparr>))"
| "handle env Del_success t = (t, on_del_impu_success)"
| "handle env (Del_failure irs rc) t =
     (t\<lparr>rt_irs := Some irs\<rparr>, on_del_impu_failure env rc (t\<lparr>rt_irs := Some irs\<rparr>))"

text \<open>
  What the task waits for, from the last request it made. The cache calls the progress callback and
  then the success callback, or only the failure callback, with a status other than \<open>OK\<close>.
\<close>

datatype phase =
  Idle | Wait_get | Wait_sar | Wait_put | Wait_put_done | Wait_del | Wait_del_done | Done

fun phase_after :: "phase \<Rightarrow> 'x action list \<Rightarrow> phase" where
  "phase_after p [] = p"
| "phase_after p (CacheGet i # as) = phase_after Wait_get as"
| "phase_after p (SendSAR r # as) = phase_after Wait_sar as"
| "phase_after p (CachePut i # as) = phase_after Wait_put as"
| "phase_after p (CacheDelete i # as) = phase_after Wait_del as"
| "phase_after p (DeleteTask # as) = phase_after Done as"
| "phase_after p (_ # as) = phase_after p as"

fun awaits :: "phase \<Rightarrow> event \<Rightarrow> phase option" where
  "awaits Idle Run = Some Idle"
| "awaits Idle Run_read = Some Idle"
| "awaits Wait_get (Get_success irs) = Some Wait_get"
| "awaits Wait_get (Get_failure rc) = (if rc \<noteq> OK then Some Wait_get else None)"
| "awaits Wait_sar (Sar_response saa) = Some Wait_sar"
| "awaits Wait_put (Put_progress irs) = Some Wait_put_done"
| "awaits Wait_put (Put_failure rc) = (if rc \<noteq> OK then Some Wait_put else None)"
| "awaits Wait_put_done Put_success = Some Wait_put_done"
| "awaits Wait_del (Del_progress irs) = Some Wait_del_done"
| "awaits Wait_del (Del_failure irs rc) = (if rc \<noteq> OK then Some Wait_del else None)"
| "awaits Wait_del_done Del_success = Some Wait_del_done"
| "awaits _ _ = None"

text \<open>A state of the machine: the phase, the task and the actions so far.\<close>

type_synonym 'x reg_state = "phase \<times> reg_task \<times> 'x action list"

inductive reg_step :: "('w, 'j, 'x) reg_env \<Rightarrow> 'x reg_state \<Rightarrow> event \<Rightarrow> 'x reg_state \<Rightarrow> bool" for env where
  step: "awaits p ev = Some p1 \<Longrightarrow> handle env ev t = (t1, as) \<Longrightarrow>
    reg_step env (p, t, acts) ev (phase_after p1 as, t1, acts @ as)"

inductive reg_run :: "('w, 'j, 'x) reg_env \<Rightarrow> http_request \<Rightarrow> event list \<Rightarrow> 'x reg_state \<Rightarrow> bool"
  for env req where
  start: "reg_run env req [] (Idle, new_reg_task req, [])"
| more: "reg_run env req evs s \<Longrightarrow> reg_step env s ev s1 \<Longrightarrow> reg_run env req (evs @ [ev]) s1"

end
