(* ===== verification/Reg_Data_Machine.thy ===== *)
theory Reg_Data_Machine
  imports Reg_Data_Task Reference_Env
begin

text \<open>
  The invariant of the registration task and what follows from it: every run replies once, a
  request of each kind sends only the assignments and makes only the cache updates that belong to
  it, and the decisions to go to the HSS.
\<close>

section \<open>What belongs to a request\<close>

fun sar_for :: "RequestType \<Rightarrow> ServerAssignmentType \<Rightarrow> bool" where
  "sar_for TYPE_REG s \<longleftrightarrow> s = REGISTRATION \<or> s = RE_REGISTRATION"
| "sar_for TYPE_CALL s \<longleftrightarrow> s = UNREGISTERED_USER"
| "sar_for TYPE_DEREG_USER s \<longleftrightarrow> s = USER_DEREGISTRATION"
| "sar_for TYPE_DEREG_ADMIN s \<longleftrightarrow> s = ADMINISTRATIVE_DEREGISTRATION"
| "sar_for TYPE_DEREG_TIMEOUT s \<longleftrightarrow> s = TIMEOUT_DEREGISTRATION"
| "sar_for TYPE_DEREG_AUTH_FAIL s \<longleftrightarrow> s = AUTHENTICATION_FAILURE"
| "sar_for TYPE_DEREG_AUTH_TIMEOUT s \<longleftrightarrow> s = AUTHENTICATION_TIMEOUT"
| "sar_for TYPE_UNKNOWN s \<longleftrightarrow> False"

fun target_state :: "RequestType \<Rightarrow> RegistrationState" where
  "target_state TYPE_REG = REGISTERED"
| "target_state TYPE_CALL = UNREGISTERED"
| "target_state _ = NOT_REGISTERED"

definition assigned :: "RequestType \<Rightarrow> mirs \<Rightarrow> bool" where
  "assigned type irs \<longleftrightarrow> is_auth_failure_request type \<or>
     m_registration_state irs = target_state type \<and> m_registration_state_set irs"

fun action_ok :: "reg_data_config \<Rightarrow> htp_method \<Rightarrow> RequestType \<Rightarrow> 'x action \<Rightarrow> bool" where
  "action_ok cfg method type (SendSAR r) \<longleftrightarrow> method = METHOD_PUT \<and> sar_for type (sar_type r)"
| "action_ok cfg method type (CachePut irs) \<longleftrightarrow> method = METHOD_PUT \<and> (type = TYPE_REG \<or> type = TYPE_CALL) \<and>
     assigned type irs \<and> m_ttl irs = record_ttl cfg \<and> m_refreshed irs"
| "action_ok cfg method type (CacheDelete irs) \<longleftrightarrow> method = METHOD_PUT \<and> is_deregistration_request type \<and>
     assigned type irs"
| "action_ok cfg method type (SendHttpReply code content) \<longleftrightarrow> True"
| "action_ok cfg method type (CacheGet i) \<longleftrightarrow> True"
| "action_ok cfg method type RecordPenalty \<longleftrightarrow> True"
| "action_ok cfg method type DeleteTask \<longleftrightarrow> True"
| "action_ok cfg method type _ \<longleftrightarrow> False"

definition pending :: "'x action list \<Rightarrow> bool" where
  "pending acts \<longleftrightarrow> replies acts = [] \<and> DeleteTask \<notin> set acts"

definition served :: "reg_task \<Rightarrow> bool" where
  "served t \<longleftrightarrow> rq_method (rt_req t) = METHOD_GET \<or>
     rq_method (rt_req t) = METHOD_PUT \<and> rt_type t \<noteq> TYPE_UNKNOWN"

definition phase_inv :: "http_request \<Rightarrow> phase \<Rightarrow> reg_task \<Rightarrow> 'x action list \<Rightarrow> bool" where
  "phase_inv req p t acts =
     (case p of
        Idle \<Rightarrow> t = new_reg_task req \<and> acts = []
      | Wait_get \<Rightarrow> pending acts \<and> served t \<and> rt_http_rc t = HTTP_OK
      | Wait_sar \<Rightarrow> pending acts \<and> rq_method req = METHOD_PUT \<and> rt_type t \<noteq> TYPE_UNKNOWN \<and>
          rt_http_rc t = HTTP_OK \<and> (\<exists>irs. rt_irs t = Some irs \<and> assigned (rt_type t) irs)
      | Wait_put \<Rightarrow> pending acts \<and> rt_irs t \<noteq> None
      | Wait_del \<Rightarrow> pending acts \<and> rt_irs t \<noteq> None
      | Wait_put_done \<Rightarrow> length (replies acts) = 1 \<and> DeleteTask \<notin> set acts
      | Wait_del_done \<Rightarrow> length (replies acts) = 1 \<and> DeleteTask \<notin> set acts
      | Done \<Rightarrow> finished acts)"

definition reg_inv :: "reg_data_config \<Rightarrow> http_request \<Rightarrow> 'x reg_state \<Rightarrow> bool" where
  "reg_inv cfg req s =
     (case s of (p, t, acts) \<Rightarrow>
        rt_req t = req \<and> list_all (action_ok cfg (rq_method req) (rt_type t)) acts \<and>
        phase_inv req p t acts)"

section \<open>The shape of what the methods do\<close>

lemma send_reply_one:
  "rt_irs t \<noteq> None \<Longrightarrow> \<exists>code content. send_reply env t = [SendHttpReply code content]"
  by (auto simp: send_reply_def rc_reply_def split: prod.split)

lemma send_reply_saved: "rt_http_rc t \<noteq> HTTP_OK \<Longrightarrow> send_reply env t = [rc_reply (rt_http_rc t)]"
  by (simp add: send_reply_def)

text \<open>What never changes after \<open>run\<close>.\<close>

definition same_request :: "reg_task \<Rightarrow> reg_task \<Rightarrow> bool" where
  "same_request t t1 \<longleftrightarrow> rt_req t1 = rt_req t \<and> rt_type t1 = rt_type t \<and> rt_impu t1 = rt_impu t \<and>
     rt_provided_server_name t1 = rt_provided_server_name t \<and> rt_sprout_wildcard t1 = rt_sprout_wildcard t"

lemma assigned_set_reg_state [simp]:
  "assigned type (set_reg_state (target_state type) irs)"
  "assigned type (add_associated_impi i irs) = assigned type irs"
  "assigned type (set_charging_addresses c irs) = assigned type irs"
  "assigned type (set_ttl n irs) = assigned type irs"
  by (simp_all add: assigned_def irs_simps)

lemma assigned_set_ims_sub_xml [simp]: "assigned type (set_ims_sub_xml X xml irs) = assigned type irs"
  by (auto simp: assigned_def set_ims_sub_xml_def Let_def split: prod.split)

lemma assigned_sample [simp]:
  "assigned TYPE_REG (set_reg_state REGISTERED irs)" "assigned TYPE_CALL (set_reg_state UNREGISTERED irs)"
  "is_deregistration_request type \<Longrightarrow> assigned type (set_reg_state NOT_REGISTERED irs)"
  "is_auth_failure_request type \<Longrightarrow> assigned type irs"
  by (cases type; auto simp: assigned_def set_reg_state_def)+

lemma sar_for_request [simp]:
  "is_deregistration_request type \<Longrightarrow> sar_for type (sar_type_for_request type)"
  "is_auth_failure_request type \<Longrightarrow> sar_for type (sar_type_for_request type)"
  by (cases type; simp)+

lemma request_kinds:
  "type \<noteq> TYPE_UNKNOWN \<Longrightarrow> type \<noteq> TYPE_REG \<Longrightarrow> type \<noteq> TYPE_CALL \<Longrightarrow>
     \<not> is_deregistration_request type \<Longrightarrow> is_auth_failure_request type"
  by (cases type) auto

text \<open>Processing a set that was found ends with a reply, or with one assignment request.\<close>

definition ends_with_reply :: "'x action list \<Rightarrow> bool" where
  "ends_with_reply as \<longleftrightarrow> (\<exists>code content. as = [SendHttpReply code content, DeleteTask])"

lemma ends_with_reply_intros [simp]:
  "ends_with_reply [rc_reply code, DeleteTask]"
  "rt_irs t \<noteq> None \<Longrightarrow> ends_with_reply (send_reply env t @ [DeleteTask])"
  using send_reply_one [of t env] by (auto simp: ends_with_reply_def rc_reply_def)

definition asks_hss :: "reg_task \<Rightarrow> reg_task \<Rightarrow> 'x action list \<Rightarrow> bool" where
  "asks_hss t t1 as \<longleftrightarrow> rq_method (rt_req t) = METHOD_PUT \<and> rt_type t \<noteq> TYPE_UNKNOWN \<and>
     (\<exists>sar irs1. as = [SendSAR sar] \<and> sar_for (rt_type t) (sar_type sar) \<and>
        rt_irs t1 = Some irs1 \<and> assigned (rt_type t) irs1)"

lemma process_shape:
  assumes "process_received_reg_data env t = (t1, as)" and "rt_irs t = Some irs" and "served t"
  shows "same_request t t1 \<and> rt_http_rc t1 = rt_http_rc t \<and> rt_hss_wildcard t1 = rt_hss_wildcard t \<and>
    (ends_with_reply as \<or> asks_hss t t1 as)"
proof (cases "rq_method (rt_req t) = METHOD_GET")
  case True
  then show ?thesis
    using assms by (auto simp: process_received_reg_data_def same_request_def Let_def)
next
  case False
  then have put: "rq_method (rt_req t) = METHOD_PUT" "rt_type t \<noteq> TYPE_UNKNOWN"
    using assms(3) by (auto simp: served_def)
  obtain impi nb where b: "binding_of (e_xml env) irs (rt_impi t) = (impi, nb)" by fastforce
  show ?thesis
    using assms(1) put
    by (cases "rt_type t")
      (auto simp: process_received_reg_data_def assms(2) b same_request_def asks_hss_def
        send_server_assignment_request_def Let_def split: if_splits)
qed

lemma m_ttl_set [simp]: "m_ttl (set_ttl n irs) = n" "m_refreshed (set_ttl n irs)"
  by (simp_all add: set_ttl_def)

text \<open>The second half of the callback of the assignment request.\<close>

definition settles :: "reg_data_config \<Rightarrow> RequestType \<Rightarrow> 'x action list \<Rightarrow> bool" where
  "settles cfg type as \<longleftrightarrow> ends_with_reply as \<or>
     (\<exists>irs. as = [CachePut irs] \<or> as = [CacheDelete irs]) \<and> list_all (action_ok cfg METHOD_PUT type) as"

lemma update_cache_shape:
  assumes "update_cache_for_saa env saa t = (t1, as)" and "rt_irs t = Some irs"
    and "assigned (rt_type t) irs" and "rt_type t \<noteq> TYPE_UNKNOWN"
  shows "same_request t t1 \<and> rt_http_rc t1 = rt_http_rc t \<and> rt_irs t1 \<noteq> None \<and> settles (e_cfg env) (rt_type t) as"
proof -
  have kinds: "rt_type t = TYPE_REG \<or> rt_type t = TYPE_CALL"
    if "\<not> is_deregistration_request (rt_type t)" "\<not> is_auth_failure_request (rt_type t)"
    using that assms(4) by (cases "rt_type t") auto
  show ?thesis
    using assms kinds
    by (auto simp: update_cache_for_saa_def put_in_cache_def same_request_def settles_def Let_def
        split: if_splits prod.splits)
qed

text \<open>The callback: a new wildcard starts again, everything else ends the question to the HSS.\<close>

definition saved_code :: "ServerAssignmentAnswer \<Rightarrow> reg_task \<Rightarrow> reg_task" where
  "saved_code saa t =
     (case saa_result saa of
        RC_SUCCESS \<Rightarrow> t
      | RC_NEW_WILDCARD \<Rightarrow> t\<lparr>rt_hss_wildcard := saa_wildcard_impu saa, rt_http_rc := HTTP_SERVER_ERROR\<rparr>
      | rc \<Rightarrow> t\<lparr>rt_http_rc := http_of_rc (if rc = RC_FORBIDDEN then RC_UNKNOWN else rc)\<rparr>)"

lemma saved_code_same [simp]:
  "same_request t (saved_code saa t)" "rt_irs (saved_code saa t) = rt_irs t"
  "rt_type (saved_code saa t) = rt_type t" "rt_req (saved_code saa t) = rt_req t"
  by (auto simp: saved_code_def same_request_def split: ResultCode.split)

lemma on_sar_response_eq:
  "on_sar_response env saa t =
     (if saa_result saa = RC_NEW_WILDCARD \<and> wildcard_id t \<noteq> saa_wildcard_impu saa then
        get_reg_data (t\<lparr>rt_hss_wildcard := saa_wildcard_impu saa, rt_irs := None\<rparr>)
      else
        let (t1, as) = update_cache_for_saa env saa (saved_code saa t)
        in (t1, (if saa_result saa = RC_TIMEOUT then [RecordPenalty] else []) @ as))"
  by (cases "saa_result saa") (simp_all add: on_sar_response_def saved_code_def Let_def split_def)

lemma sar_response_shape:
  assumes "on_sar_response env saa t = (t1, as)" and "rt_irs t = Some irs"
    and "assigned (rt_type t) irs" and "rt_type t \<noteq> TYPE_UNKNOWN"
  shows "same_request t t1 \<and>
    (saa_result saa = RC_NEW_WILDCARD \<and> as = [CacheGet (public_id t1)] \<and> rt_http_rc t1 = rt_http_rc t \<or>
     rt_irs t1 \<noteq> None \<and>
     (\<exists>bs. as = (if saa_result saa = RC_TIMEOUT then [RecordPenalty] else []) @ bs \<and>
        settles (e_cfg env) (rt_type t) bs))"
proof (cases "saa_result saa = RC_NEW_WILDCARD \<and> wildcard_id t \<noteq> saa_wildcard_impu saa")
  case True
  then show ?thesis
    using assms(1) by (auto simp: on_sar_response_eq get_reg_data_def same_request_def public_id_def)
next
  case False
  obtain bs where u: "update_cache_for_saa env saa (saved_code saa t) = (t1, bs)"
    and as: "as = (if saa_result saa = RC_TIMEOUT then [RecordPenalty] else []) @ bs"
    using assms(1) False by (auto simp: on_sar_response_eq Let_def split: prod.splits)
  have "same_request (saved_code saa t) t1 \<and> rt_irs t1 \<noteq> None \<and> settles (e_cfg env) (rt_type t) bs"
    using update_cache_shape [OF u] assms(2-4) by simp
  then show ?thesis
    using as saved_code_same(1) [of t saa] unfolding same_request_def by metis
qed

section \<open>The invariant\<close>

text \<open>The phases that a list of actions leads to.\<close>

lemma phase_after_rc [simp]: "phase_after p (rc_reply code # as) = phase_after p as"
  by (simp add: rc_reply_def)

lemma phase_after_send_reply [simp]:
  "phase_after p (send_reply env t) = p" "phase_after p (send_reply env t @ [DeleteTask]) = Done"
  by (auto simp: send_reply_def rc_reply_def split: option.split prod.split)

lemma phase_after_ends:
  "ends_with_reply as \<Longrightarrow> phase_after p as = Done"
  "ends_with_reply as \<Longrightarrow> phase_after p (RecordPenalty # as) = Done"
  by (auto simp: ends_with_reply_def)

lemma finished_ends:
  "pending acts \<Longrightarrow> list_all (action_ok cfg method type) acts \<Longrightarrow> ends_with_reply as \<Longrightarrow>
     finished (acts @ as) \<and> finished (acts @ RecordPenalty # as)"
proof -
  assume "pending acts" "list_all (action_ok cfg method type) acts" "ends_with_reply as"
  moreover from this(2) have "Undefined \<notin> set acts" "Out_of_range \<notin> set acts"
    by (auto simp: list_all_iff)
  ultimately show ?thesis
    by (auto simp: finished_def pending_def ends_with_reply_def butlast_append)
qed

lemma action_ok_ends: "ends_with_reply as \<Longrightarrow> list_all (action_ok cfg method type) as"
  by (auto simp: ends_with_reply_def)

lemma pending_append: "pending (acts @ as) \<longleftrightarrow> pending acts \<and> pending as"
  by (auto simp: pending_def)

lemma reg_inv_ends:
  assumes "pending acts" and "list_all (action_ok cfg (rq_method req) (rt_type t)) acts"
    and "ends_with_reply as" and "rt_req t = req"
  shows "reg_inv cfg req (phase_after p as, t, acts @ as)"
    and "reg_inv cfg req (phase_after p (RecordPenalty # as), t, acts @ RecordPenalty # as)"
  using assms finished_ends [OF assms(1-3)]
  by (simp_all add: reg_inv_def phase_inv_def phase_after_ends action_ok_ends)

lemma inv_run:
  assumes "reg_data_run env (new_reg_task req) = (t1, as)" and "6 \<le> length (rq_full_path req)"
  shows "reg_inv (e_cfg env) req (phase_after Idle as, t1, as)"
proof -
  have reject: "reg_inv (e_cfg env) req (Done, t, [rc_reply code, DeleteTask])"
    if "rt_req t = req" for code t
    using reg_inv_ends(1) [of "[]" "e_cfg env" req t "[rc_reply code, DeleteTask]"] that by (simp add: pending_def)
  obtain ident where "path_id (rq_full_path req) = Some ident"
    using assms(2) by (auto simp: path_id_def)
  with assms(1) show ?thesis
    by (auto simp: reg_data_run_def new_reg_task_def get_reg_data_def Let_def split: if_splits intro!: reject)
      (auto simp: reg_inv_def phase_inv_def pending_def served_def)
qed

lemma inv_process:
  assumes "process_received_reg_data env t = (t1, as)" and "rt_irs t = Some irs" and "served t"
    and "pending acts" and "rt_http_rc t = HTTP_OK" and "rt_req t = req"
    and "list_all (action_ok cfg (rq_method req) (rt_type t)) acts"
  shows "reg_inv cfg req (phase_after Wait_get as, t1, acts @ as)"
proof -
  have same: "rt_req t1 = req" "rt_type t1 = rt_type t" "rt_http_rc t1 = HTTP_OK"
    and as: "ends_with_reply as \<or> asks_hss t t1 as"
    using process_shape [OF assms(1-3)] assms(5,6) by (auto simp: same_request_def)
  from as show ?thesis
  proof
    assume "ends_with_reply as"
    then show ?thesis
      using reg_inv_ends(1) [OF assms(4), of cfg req t1 as] assms(7) same by simp
  next
    assume "asks_hss t t1 as"
    then show ?thesis
      using assms(4,6,7) same
      by (auto simp: asks_hss_def reg_inv_def phase_inv_def pending_def)
  qed
qed

lemma inv_sar:
  assumes "on_sar_response env saa t = (t1, as)" and "reg_inv (e_cfg env) req (Wait_sar, t, acts)"
  shows "reg_inv (e_cfg env) req (phase_after Wait_sar as, t1, acts @ as)"
proof -
  obtain irs where irs: "rt_irs t = Some irs" "assigned (rt_type t) irs"
    and t: "rt_type t \<noteq> TYPE_UNKNOWN" "rt_http_rc t = HTTP_OK" "rq_method req = METHOD_PUT" "rt_req t = req"
    and acts: "pending acts" "list_all (action_ok (e_cfg env) (rq_method req) (rt_type t)) acts"
    using assms(2) by (auto simp: reg_inv_def phase_inv_def)
  from sar_response_shape [OF assms(1) irs t(1)] have same: "rt_req t1 = req" "rt_type t1 = rt_type t"
    using t by (auto simp: same_request_def)
  from sar_response_shape [OF assms(1) irs t(1)] consider
      (wild) "as = [CacheGet (public_id t1)]" "rt_http_rc t1 = HTTP_OK"
    | (fin) bs where "rt_irs t1 \<noteq> None" "settles (e_cfg env) (rt_type t) bs"
        "as = (if saa_result saa = RC_TIMEOUT then [RecordPenalty] else []) @ bs"
    using t(2) by auto
  then show ?thesis
  proof cases
    case wild
    then show ?thesis
      using acts same t by (auto simp: reg_inv_def phase_inv_def pending_def served_def)
  next
    case fin
    then show ?thesis
      using acts same t reg_inv_ends [OF acts(1), of "e_cfg env" req t1 bs Wait_sar]
      by (cases "saa_result saa = RC_TIMEOUT")
        (auto simp: settles_def reg_inv_def phase_inv_def pending_def)
  qed
qed

text \<open>Every step keeps the invariant, one lemma for each group of callbacks.\<close>

lemma inv_put:
  assumes "reg_inv cfg req (Wait_put, t, acts)"
  shows "reg_inv cfg req (phase_after Wait_put_done (on_put_reg_data_progress env t), t,
      acts @ on_put_reg_data_progress env t)"
    and "reg_inv cfg req (Done, t, acts @ on_put_reg_data_failure)"
proof -
  have a: "pending acts" "list_all (action_ok cfg (rq_method req) (rt_type t)) acts" "rt_req t = req" "rt_irs t \<noteq> None"
    using assms by (auto simp: reg_inv_def phase_inv_def)
  show "reg_inv cfg req (phase_after Wait_put_done (on_put_reg_data_progress env t), t,
      acts @ on_put_reg_data_progress env t)"
    using a send_reply_one [OF a(4), of env]
    by (auto simp: on_put_reg_data_progress_def reg_inv_def phase_inv_def pending_def)
  show "reg_inv cfg req (Done, t, acts @ on_put_reg_data_failure)"
    using reg_inv_ends(1) [OF a(1,2) _ a(3), of "[rc_reply HTTP_SERVER_UNAVAILABLE, DeleteTask]"]
    by (simp add: on_put_reg_data_failure_def)
qed

lemma inv_del:
  assumes "reg_inv cfg req (Wait_del, t, acts)"
  shows "reg_inv cfg req (phase_after Wait_del_done (on_del_impu_progress env t), t,
      acts @ on_del_impu_progress env t)"
    and "reg_inv cfg req (phase_after Wait_del (on_del_impu_failure env rc t), t, acts @ on_del_impu_failure env rc t)"
proof -
  have a: "pending acts" "list_all (action_ok cfg (rq_method req) (rt_type t)) acts" "rt_req t = req" "rt_irs t \<noteq> None"
    using assms by (auto simp: reg_inv_def phase_inv_def)
  show "reg_inv cfg req (phase_after Wait_del_done (on_del_impu_progress env t), t,
      acts @ on_del_impu_progress env t)"
    using a send_reply_one [OF a(4), of env]
    by (auto simp: on_del_impu_progress_def on_del_impu_benign_def reg_inv_def phase_inv_def pending_def)
  have "ends_with_reply (on_del_impu_failure env rc t)"
    using a(4) by (simp add: on_del_impu_failure_def on_del_impu_benign_def)
  from reg_inv_ends(1) [OF a(1,2) this a(3)]
  show "reg_inv cfg req (phase_after Wait_del (on_del_impu_failure env rc t), t, acts @ on_del_impu_failure env rc t)" .
qed

lemma inv_merged:
  assumes "reg_inv cfg req (p, t, acts)" and "p = Wait_put \<or> p = Wait_del"
  shows "reg_inv cfg req (p, t\<lparr>rt_irs := Some irs\<rparr>, acts)"
  using assms by (auto simp: reg_inv_def phase_inv_def)

lemma inv_replied:
  assumes "reg_inv cfg req (p, t, acts)" and "p = Wait_put_done \<or> p = Wait_del_done"
  shows "reg_inv cfg req (Done, t, acts @ [DeleteTask])"
proof -
  have "list_all (action_ok cfg (rq_method req) (rt_type t)) acts" "length (replies acts) = 1"
    "DeleteTask \<notin> set acts" "rt_req t = req"
    using assms by (auto simp: reg_inv_def phase_inv_def)
  moreover from this(1) have "Undefined \<notin> set acts" "Out_of_range \<notin> set acts"
    by (auto simp: list_all_iff)
  ultimately show ?thesis
    by (simp add: reg_inv_def phase_inv_def finished_def)
qed

lemma inv_get_failure:
  assumes "on_get_reg_data_failure env rc t = (t1, as)" and "reg_inv (e_cfg env) req (Wait_get, t, acts)"
  shows "reg_inv (e_cfg env) req (phase_after Wait_get as, t1, acts @ as)"
proof -
  have a: "pending acts" "list_all (action_ok (e_cfg env) (rq_method req) (rt_type t)) acts" "rt_req t = req"
    "served t" "rt_http_rc t = HTTP_OK"
    using assms(2) by (auto simp: reg_inv_def phase_inv_def)
  show ?thesis
  proof (cases "rc = NOT_FOUND \<and> rq_method (rt_req t) = METHOD_PUT")
    case True
    show ?thesis
      by (rule inv_process [where t = "t\<lparr>rt_irs := Some (set_reg_state NOT_REGISTERED
              (new_mirs (e_any_ttl env) (e_any_state env)))\<rparr>"])
        (use assms(1) a True in \<open>auto simp: on_get_reg_data_failure_def served_def\<close>)
  next
    case False
    then have "ends_with_reply as" "t1 = t"
      using assms(1) by (auto simp: on_get_reg_data_failure_def split: if_splits)
    with reg_inv_ends(1) [OF a(1,2), of as Wait_get] a(3) show ?thesis by simp
  qed
qed

lemma reg_step_inv:
  assumes "reg_step env s ev s1" and "reg_inv (e_cfg env) req s" and "6 \<le> length (rq_full_path req)"
  shows "reg_inv (e_cfg env) req s1"
  using assms(1)
proof cases
  case (step p p1 t t1 as acts)
  have inv: "reg_inv (e_cfg env) req (p, t, acts)" using assms(2) step(1) by simp
  have idle: "t = new_reg_task req \<and> acts = []" if "p = Idle"
    using inv that by (simp add: reg_inv_def phase_inv_def)
  have get: "pending acts \<and> list_all (action_ok (e_cfg env) (rq_method req) (rt_type t)) acts \<and> rt_req t = req \<and>
      served t \<and> rt_http_rc t = HTTP_OK" if "p = Wait_get"
    using inv that by (simp add: reg_inv_def phase_inv_def)
  have "reg_inv (e_cfg env) req (phase_after p1 as, t1, acts @ as)"
  proof (cases ev)
    case Run
    then show ?thesis using step idle inv_run [OF _ assms(3), of env t1 as] by (cases p) auto
  next
    case Run_read
    then have "p = Idle" "p1 = Idle" using step by (cases p; auto)+
    then show ?thesis
      using step Run_read idle inv_run [OF _ assms(3), of env t1 as]
        reg_inv_ends(1) [of "[]" "e_cfg env" req t1 as Idle]
      by (auto simp: read_reg_data_run_def pending_def new_reg_task_def split: if_splits)
  next
    case (Get_success irs)
    then show ?thesis
      using step get inv_process [of env "t\<lparr>rt_irs := Some irs\<rparr>" t1 as irs acts req "e_cfg env"]
      by (cases p) (auto simp: on_get_reg_data_success_def served_def)
  next
    case (Get_failure rc)
    then show ?thesis
      using step inv inv_get_failure [of env rc t t1 as req acts] by (cases p) (auto split: if_splits)
  next
    case (Sar_response saa)
    then show ?thesis using step inv inv_sar [of env saa t t1 as req acts] by (cases p) auto
  next
    case (Put_progress irs)
    then show ?thesis
      using step inv_merged [OF inv, of irs] inv_put(1) [of "e_cfg env" req "t\<lparr>rt_irs := Some irs\<rparr>" acts env]
      by (cases p) (auto simp: Let_def)
  next
    case Put_success
    then show ?thesis
      using step inv inv_replied [of "e_cfg env" req p t acts] by (cases p) (auto simp: on_put_reg_data_success_def)
  next
    case (Put_failure rc)
    then show ?thesis using step inv inv_put(2) [of "e_cfg env" req t acts]
      by (cases p) (auto simp: on_put_reg_data_failure_def split: if_splits)
  next
    case (Del_progress irs)
    then show ?thesis
      using step inv_merged [OF inv, of irs] inv_del(1) [of "e_cfg env" req "t\<lparr>rt_irs := Some irs\<rparr>" acts env]
      by (cases p) (auto simp: Let_def)
  next
    case Del_success
    then show ?thesis
      using step inv inv_replied [of "e_cfg env" req p t acts] by (cases p) (auto simp: on_del_impu_success_def)
  next
    case (Del_failure irs rc)
    then show ?thesis
      using step inv_merged [OF inv, of irs] inv_del(2) [of "e_cfg env" req "t\<lparr>rt_irs := Some irs\<rparr>" acts env rc]
      by (cases p) (auto simp: Let_def split: if_splits)
  qed
  then show ?thesis using step(2) by simp
qed

lemma reg_run_inv:
  "reg_run env req evs s \<Longrightarrow> 6 \<le> length (rq_full_path req) \<Longrightarrow> reg_inv (e_cfg env) req s"
proof (induction rule: reg_run.induct)
  case start
  then show ?case by (simp add: reg_inv_def phase_inv_def new_reg_task_def)
next
  case (more evs s ev s1)
  then show ?case by (blast intro: reg_step_inv)
qed

section \<open>Executing the machine\<close>

text \<open>The same steps as a function, for runs on concrete inputs.\<close>

fun exec :: "('w, 'j, 'x) reg_env \<Rightarrow> event list \<Rightarrow> 'x reg_state \<Rightarrow> 'x reg_state option" where
  "exec env [] s = Some s"
| "exec env (ev # evs) (p, t, acts) =
     (case awaits p ev of
        None \<Rightarrow> None
      | Some p1 \<Rightarrow> let (t1, as) = handle env ev t in exec env evs (phase_after p1 as, t1, acts @ as))"

lemma exec_append:
  "exec env (evs @ evs') s = (case exec env evs s of None \<Rightarrow> None | Some s1 \<Rightarrow> exec env evs' s1)"
  by (induction env evs s rule: exec.induct) (auto split: option.split prod.split)

lemma exec_step: "exec env [ev] s = Some s1 \<longleftrightarrow> reg_step env s ev s1"
  by (cases s) (auto simp: reg_step.simps split: option.splits prod.splits)

lemma reg_run_exec: "reg_run env req evs s \<longleftrightarrow> exec env evs (Idle, new_reg_task req, []) = Some s"
proof
  assume "reg_run env req evs s"
  then show "exec env evs (Idle, new_reg_task req, []) = Some s"
    by (induction rule: reg_run.induct) (simp_all add: exec_append exec_step)
next
  assume "exec env evs (Idle, new_reg_task req, []) = Some s"
  then show "reg_run env req evs s"
  proof (induction evs arbitrary: s rule: rev_induct)
    case Nil
    then show ?case by (auto intro: reg_run.start)
  next
    case (snoc ev evs)
    then show ?case
      by (auto simp: exec_append exec_step split: option.splits intro: reg_run.more)
  qed
qed

section \<open>Sample requests\<close>

text \<open>A JSON body with one string member is read back.\<close>

lemma body_reqtype:
  assumes "json_contract E" and "no_nul n"
  shows "body_member E (json_write E (object_events E [(''reqtype'', VStr n)])) k =
    (if k = ''reqtype'' then n else '''')"
proof -
  have "members_ok [(''reqtype'', VStr n)]"
    using assms(2) by (simp add: members_ok_def no_nul_def)
  from json_contractD [OF assms(1) this] obtain j where
    "no_nul (json_write E (object_events E [(''reqtype'', VStr n)]))"
    "json_parse E (json_write E (object_events E [(''reqtype'', VStr n)])) = Some j"
    "json_reads E [(''reqtype'', VStr n)] j" by blast
  then show ?thesis
    using assms(2) by (simp add: body_member_def json_reads_def)
qed

definition sample_reg_env :: "(ref_world, (string \<times> jvalue) list, ref_node) reg_env" where
  "sample_reg_env =
     \<lparr>e_cfg = \<lparr>hss_configured = True, hss_reregistration_time = 3600, record_ttl = 7200,
        support_shared_ifcs = True\<rparr>,
      e_server_name = ''scscf'', e_ext = ref_ext, e_xml = ref_xml, e_url_unescape = (\<lambda>s. s),
      e_any_ttl = 0, e_any_state = NOT_REGISTERED\<rparr>"

definition sample_put :: "string \<Rightarrow> http_request" where
  "sample_put reqtype =
     \<lparr>rq_method = METHOD_PUT, rq_path = ''/impu/sip:a/reg-data'', rq_full_path = ''/impu/sip:a/reg-data'',
      rq_file = ''reg-data'', rq_param = (\<lambda>p. if p = ''private_id'' then ''i'' else ''''),
      rq_header = (\<lambda>h. ''''),
      rq_body = json_write ref_ext (object_events ref_ext [(''reqtype'', VStr reqtype)])\<rparr>"

definition sample_task :: "string \<Rightarrow> RequestType \<Rightarrow> reg_task" where
  "sample_task reqtype type =
     (new_reg_task (sample_put reqtype))\<lparr>rt_impu := ''sip:a'', rt_impi := ''i'', rt_type := type\<rparr>"

lemma sample_run:
  assumes "no_nul reqtype" and "request_type_from_body ref_ext (rq_body (sample_put reqtype)) = type"
    and "type \<noteq> TYPE_UNKNOWN"
  shows "reg_data_run sample_reg_env (new_reg_task (sample_put reqtype)) =
    (sample_task reqtype type, [CacheGet ''sip:a''])"
proof -
  have "path_id ''/impu/sip:a/reg-data'' = Some ''sip:a''"
    by (simp add: path_id_def)
  then show ?thesis
    using assms body_reqtype [OF ref_json_contract assms(1)]
    by (simp add: reg_data_run_def new_reg_task_def sample_reg_env_def sample_put_def sample_task_def
        server_name_from_body_def wildcard_from_body_def get_reg_data_def public_id_def wildcard_id_def)
qed

lemma sample_types:
  "request_type_from_body ref_ext (rq_body (sample_put ''reg'')) = TYPE_REG"
  "request_type_from_body ref_ext (rq_body (sample_put ''call'')) = TYPE_CALL"
  "request_type_from_body ref_ext (rq_body (sample_put ''dereg-user'')) = TYPE_DEREG_USER"
  by (simp_all add: request_type_from_body_def sample_put_def body_reqtype [OF ref_json_contract] no_nul_def)

lemma sample_reg_run:
  "reg_data_run sample_reg_env (new_reg_task (sample_put ''reg'')) =
    (sample_task ''reg'' TYPE_REG, [CacheGet ''sip:a''])"
  "reg_data_run sample_reg_env (new_reg_task (sample_put ''call'')) =
    (sample_task ''call'' TYPE_CALL, [CacheGet ''sip:a''])"
  by (simp_all add: sample_run sample_types no_nul_def)

text \<open>A registration of an unknown subscriber, up to the end.\<close>

definition sample_saa :: ServerAssignmentAnswer where
  "sample_saa = (saa_of_rc RC_SUCCESS)\<lparr>saa_service_profile := ''sip:a sip:b''\<rparr>"

definition sample_events :: "event list" where
  "sample_events = [Run, Get_failure NOT_FOUND, Sar_response sample_saa,
     Put_progress (new_mirs 0 REGISTERED), Put_success]"

lemma sample_ids:
  "get_public_and_default_ids ref_xml ''sip:a sip:b'' d = ([''sip:a'', ''sip:b''], ''sip:a'')"
  by (simp add: get_public_and_default_ids_eq ref_listed c_str_def)

lemma sample_path: "6 \<le> length (rq_full_path (sample_put n))"
  by (simp add: sample_put_def)

lemmas sample_simps = sample_reg_run sample_task_def new_reg_task_def sample_reg_env_def sample_put_def
  on_get_reg_data_failure_def process_received_reg_data_def binding_of_def new_mirs_def set_reg_state_def
  send_server_assignment_request_def get_associated_impis_def present_elements_def

lemma sample_get_failure:
  "\<exists>t1 irs sar. on_get_reg_data_failure sample_reg_env NOT_FOUND (sample_task ''reg'' TYPE_REG) = (t1, [SendSAR sar]) \<and>
     rt_irs t1 = Some irs \<and> rt_type t1 = TYPE_REG \<and> rt_http_rc t1 = HTTP_OK"
  by (simp add: sample_simps)

lemma m_ims_sub_xml_set [simp]: "m_ims_sub_xml (set_ttl n (set_ims_sub_xml X xml irs)) = xml"
  by (simp add: set_ttl_def set_ims_sub_xml_def Let_def split: prod.split)

lemma sample_sar:
  assumes "rt_irs t = Some irs" and "rt_type t = TYPE_REG" and "rt_http_rc t = HTTP_OK"
  shows "\<exists>t1 irs1. on_sar_response sample_reg_env sample_saa t = (t1, [CachePut irs1]) \<and> rt_irs t1 = Some irs1 \<and>
    rt_http_rc t1 = HTTP_OK"
  using assms
  by (simp add: on_sar_response_def update_cache_for_saa_def put_in_cache_def sample_saa_def saa_of_rc_def
      sample_reg_env_def sample_ids Let_def)

lemma sample_exec:
  "\<exists>t acts. exec sample_reg_env sample_events (Idle, new_reg_task (sample_put ''reg''), []) = Some (Done, t, acts)"
proof -
  obtain t1 irs sar where t1: "on_get_reg_data_failure sample_reg_env NOT_FOUND (sample_task ''reg'' TYPE_REG) =
      (t1, [SendSAR sar])" "rt_irs t1 = Some irs" "rt_type t1 = TYPE_REG" "rt_http_rc t1 = HTTP_OK"
    using sample_get_failure by blast
  from sample_sar [OF t1(2-4)] obtain t2 irs2 where
    t2: "on_sar_response sample_reg_env sample_saa t1 = (t2, [CachePut irs2])" by blast
  show ?thesis
    by (simp add: sample_events_def sample_reg_run t1(1) t2 on_put_reg_data_progress_def on_put_reg_data_success_def)
qed

section \<open>Properties\<close>

text \<open>
  C12: whatever the cache and the HSS answer, a registration request gets exactly one reply. There is
  none while the task waits for a lookup, for the HSS or for the local store, there is one when the
  local store has been written, and the task deletes itself last and follows no null pointer.
\<close>

theorem reg_task_replies_once:
  assumes "reg_run env req evs (p, t, acts)" and "6 \<le> length (rq_full_path req)"
  shows "(if p = Done then finished acts
          else DeleteTask \<notin> set acts \<and>
            length (replies acts) = (if p = Wait_put_done \<or> p = Wait_del_done then 1 else 0)) \<and>
    Undefined \<notin> set acts"
proof -
  have inv: "list_all (action_ok (e_cfg env) (rq_method req) (rt_type t)) acts" "phase_inv req p t acts"
    using reg_run_inv [OF assms] by (simp_all add: reg_inv_def)
  from inv(1) have "Undefined \<notin> set acts" by (auto simp: list_all_iff)
  moreover from inv(2) have "if p = Done then finished acts
      else DeleteTask \<notin> set acts \<and>
        length (replies acts) = (if p = Wait_put_done \<or> p = Wait_del_done then 1 else 0)"
    by (cases p) (simp_all add: phase_inv_def pending_def)
  ultimately show ?thesis by simp
qed

theorem reg_task_replies_once_witness:
  "\<exists>t acts. reg_run sample_reg_env (sample_put ''reg'') sample_events (Done, t, acts) \<and> finished acts"
proof -
  obtain t acts where "reg_run sample_reg_env (sample_put ''reg'') sample_events (Done, t, acts)"
    using sample_exec by (auto simp: reg_run_exec)
  with reg_task_replies_once [OF this sample_path] show ?thesis by auto
qed



text \<open>How far a phase is from the end.\<close>

fun steps_left :: "phase \<Rightarrow> nat" where
  "steps_left Idle = 5"
| "steps_left Wait_get = 4"
| "steps_left Wait_sar = 3"
| "steps_left Wait_put = 2"
| "steps_left Wait_del = 2"
| "steps_left Wait_put_done = 1"
| "steps_left Wait_del_done = 1"
| "steps_left Done = 0"

fun new_wildcard :: "event \<Rightarrow> bool" where
  "new_wildcard (Sar_response saa) \<longleftrightarrow> saa_result saa = RC_NEW_WILDCARD"
| "new_wildcard _ \<longleftrightarrow> False"

lemma phase_after_process:
  assumes "process_received_reg_data env t = (t1, as)" and "rt_irs t = Some irs" and "served t"
  shows "steps_left (phase_after p as) \<le> 3"
  using process_shape [OF assms] by (auto simp: phase_after_ends asks_hss_def)

lemma phase_after_run:
  assumes "reg_data_run env t = (t1, as)" and "6 \<le> length (rq_full_path (rt_req t))"
  shows "steps_left (phase_after p as) \<le> 4"
  using assms by (auto simp: reg_data_run_def path_id_def get_reg_data_def Let_def split: if_splits)

lemma reg_step_progress:
  assumes "reg_step env (p, t, acts) ev (p1, t1, acts1)" and "reg_inv (e_cfg env) req (p, t, acts)"
    and "6 \<le> length (rq_full_path req)"
  shows "Suc (steps_left p1) \<le> steps_left p + (if new_wildcard ev then 2 else 0)"
  using assms(1)
proof cases
  case (step p2 as)
  have t: "rt_req t = req" and phase: "phase_inv req p t acts"
    using assms(2) by (simp_all add: reg_inv_def)
  show ?thesis
  proof (cases ev)
    case Run
    then show ?thesis using step t assms(3) phase_after_run [of env t t1 as p2] by (cases p) auto
  next
    case Run_read
    then show ?thesis
      using step t assms(3) phase_after_run [of env t t1 as p2]
      by (cases p) (auto simp: read_reg_data_run_def split: if_splits)
  next
    case (Get_success irs)
    then show ?thesis
      using step phase phase_after_process [of env "t\<lparr>rt_irs := Some irs\<rparr>" t1 as irs p2]
      by (cases p) (auto simp: on_get_reg_data_success_def phase_inv_def served_def)
  next
    case (Get_failure rc)
    then show ?thesis
      using step phase phase_after_process [of env "t\<lparr>rt_irs := Some (set_reg_state NOT_REGISTERED
            (new_mirs (e_any_ttl env) (e_any_state env)))\<rparr>" t1 as _ p2]
      by (cases p) (auto simp: on_get_reg_data_failure_def phase_inv_def served_def split: if_splits)
  next
    case (Sar_response saa)
    then have p: "p = Wait_sar" "p2 = Wait_sar" "on_sar_response env saa t = (t1, as)"
      using step by (cases p; auto)+
    with phase obtain irs where irs: "rt_irs t = Some irs" "assigned (rt_type t) irs" "rt_type t \<noteq> TYPE_UNKNOWN"
      by (auto simp: phase_inv_def)
    show ?thesis
      using sar_response_shape [OF p(3) irs] step p Sar_response
      by (cases "saa_result saa = RC_TIMEOUT") (auto simp: settles_def phase_after_ends)
  qed (use step in \<open>cases p; auto simp: on_put_reg_data_progress_def on_put_reg_data_success_def
        on_put_reg_data_failure_def on_del_impu_progress_def on_del_impu_benign_def on_del_impu_success_def
        on_del_impu_failure_def split: if_splits\<close>)+
qed

text \<open>
  C15: a registration task ends. Its run has at most five events, and two more for every answer in
  which the HSS names a new wildcard.
\<close>

theorem reg_task_terminates:
  assumes "reg_run env req evs s" and "6 \<le> length (rq_full_path req)"
  shows "length evs + steps_left (fst s) \<le> 5 + 2 * length (filter new_wildcard evs)"
  using assms
proof (induction rule: reg_run.induct)
  case start
  then show ?case by simp
next
  case (more evs s ev s1)
  obtain p t acts p1 t1 acts1 where s: "s = (p, t, acts)" "s1 = (p1, t1, acts1)"
    by (cases s, cases s1) auto
  have "Suc (steps_left p1) \<le> steps_left p + (if new_wildcard ev then 2 else 0)"
    using reg_step_progress reg_run_inv [OF more.hyps(1) more.prems] more.hyps(2) more.prems s by blast
  then show ?case using more.IH [OF more.prems] s by auto
qed

theorem reg_task_terminates_witness:
  "length sample_events \<le> 5 + 2 * length (filter new_wildcard sample_events)"
proof -
  obtain t acts where "reg_run sample_reg_env (sample_put ''reg'') sample_events (Done, t, acts)"
    using sample_exec by (auto simp: reg_run_exec)
  from reg_task_terminates [OF this sample_path] show ?thesis by simp
qed

end
