(* ===== verification/Service.thy ===== *)
theory Service
  imports Reg_Data_Machine Cx_Task_Properties Store_Properties
begin

text \<open>
  The tasks together with the cache. The requests that a task makes of the cache go through the
  \<open>HssCacheProcessor\<close>, which runs the operation and then calls back; \<open>reg_respond\<close>, \<open>rtr_respond\<close>
  and \<open>ppr_respond\<close> give the callbacks that a request is answered with, and \<open>serve\<close> runs a task to its end. The HSS
  is a function from the request and the world to the answer. The results: serving refines the state machines, a
  registration ends up in the cache, and what the statuses of the cache mean for the HSS.
\<close>

section \<open>The processor answers a task\<close>

text \<open>
  The registration set after the local store has been updated, which the progress callback finds.
\<close>

definition after_local ::
  "'w memcached_cache \<Rightarrow> (mirs, 'w) store_action \<Rightarrow> mirs \<Rightarrow> 'w \<Rightarrow> mirs" where
  "after_local cache action irs w =
     (case action (c_local cache) irs w of None \<Rightarrow> irs | Some (status, irs1, w1) \<Rightarrow> irs1)"

type_synonym 'w hss = "ServerAssignmentRequest \<Rightarrow> 'w \<Rightarrow> ServerAssignmentAnswer \<times> 'w"

fun reg_respond :: "'w memcached_cache \<Rightarrow> 'w hss \<Rightarrow> 'x action \<Rightarrow> 'w \<Rightarrow> (event list \<times> 'w) option" where
  "reg_respond cache hss (CacheGet impu) w =
     run_lookup (\<lambda>irs w1. map_option (\<lambda>i. ([Get_success i], w1)) irs)
       (\<lambda>rc w1. Some ([Get_failure rc], w1))
       (get_implicit_registration_set_for_impu cache impu) w"
| "reg_respond cache hss (SendSAR r) w = (let (saa, w1) = hss r w in Some ([Sar_response saa], w1))"
| "reg_respond cache hss (CachePut irs) w =
     (let irs1 = (if has_changed irs then after_local cache (put_irs_action (c_clk cache)) irs w else irs)
      in run_update (\<lambda>irs2 w1. ([Put_progress irs1, Put_success], w1)) (\<lambda>rc w1. ([Put_failure rc], w1))
           (put_implicit_registration_set cache irs (\<lambda>w. w)) w)"
| "reg_respond cache hss (CacheDelete irs) w =
     (let irs1 = (if m_existing irs then after_local cache (delete_irs_action (c_clk cache)) irs w else irs)
      in run_update (\<lambda>irs2 w1. ([Del_progress irs1, Del_success], w1)) (\<lambda>rc w1. ([Del_failure irs1 rc], w1))
           (delete_implicit_registration_set cache irs (\<lambda>w. w)) w)"
| "reg_respond cache hss _ w = None"

fun rtr_respond ::
  "'w memcached_cache \<Rightarrow> 'm cx_action \<Rightarrow> 'w \<Rightarrow> (mirs list cx_event list \<times> 'w) option" where
  "rtr_respond cache (GetIrssForImpis impis) w =
     run_lookup (\<lambda>irss w1. Some ([Found irss], w1)) (\<lambda>rc w1. Some ([Not_found rc], w1))
       (get_irss_for_impis (get_implicit_registration_set_for_impu cache) (get_impus_for_impi cache) impis []) w"
| "rtr_respond cache (GetIrssForImpus impus) w =
     run_lookup (\<lambda>irss w1. Some ([Found irss], w1)) (\<lambda>rc w1. Some ([Not_found rc], w1))
       (get_irss_for_impus (get_implicit_registration_set_for_impu cache) impus []) w"
| "rtr_respond cache (DeleteIrss irss) w =
     run_update (\<lambda>irss2 w1. ([Progress, Updated], w1)) (\<lambda>rc w1. ([Not_updated rc], w1))
       (delete_implicit_registration_sets cache irss (\<lambda>w. w)) w"
| "rtr_respond cache _ w = None"

fun ppr_respond ::
  "'w memcached_cache \<Rightarrow> 'm cx_action \<Rightarrow> 'w \<Rightarrow> (mirs ims_subscription cx_event list \<times> 'w) option" where
  "ppr_respond cache (GetImsSubscription impi) w =
     run_lookup (\<lambda>sub w1. map_option (\<lambda>s. ([Found s], w1)) sub) (\<lambda>rc w1. Some ([Not_found rc], w1))
       (get_ims_subscription cache impi) w"
| "ppr_respond cache (PutImsSubscription sub) w =
     run_update (\<lambda>sub2 w1. ([Progress, Updated], w1)) (\<lambda>rc w1. ([Not_updated rc], w1))
       (put_ims_subscription cache sub (\<lambda>w. w)) w"
| "ppr_respond cache _ w = None"

text \<open>A request from its arrival to the end of its task.\<close>

definition serve_reg_data ::
  "('v, 'j, 'x) reg_env \<Rightarrow> 'w memcached_cache \<Rightarrow> 'w hss \<Rightarrow> http_request \<Rightarrow> 'w \<Rightarrow> ('x reg_state \<times> 'w) option" where
  "serve_reg_data env cache hss req w =
     do {
       s \<leftarrow> task_exec awaits (handle env) phase_after [Run] (Idle, new_reg_task req, []);
       serve awaits (handle env) phase_after Done (reg_respond cache hss) s w
     }"

definition serve_rtr ::
  "('v, 'j, 'x, 'm) cx_env \<Rightarrow> 'w memcached_cache \<Rightarrow> 'm \<Rightarrow> 'w \<Rightarrow>
     ((cx_phase, 'm rtr_task, 'm cx_action) task_state \<times> 'w) option" where
  "serve_rtr env cache rtr w =
     do {
       s \<leftarrow> task_exec cx_awaits (rtr_handle env) cx_after [Cx_run] (Cx_idle, new_rtr_task rtr, []);
       serve cx_awaits (rtr_handle env) cx_after Cx_done (rtr_respond cache) s w
     }"

definition serve_ppr ::
  "('v, 'j, 'x, 'm) cx_env \<Rightarrow> 'w memcached_cache \<Rightarrow> 'm \<Rightarrow> 'w \<Rightarrow>
     ((cx_phase, 'm ppr_task, 'm cx_action) task_state \<times> 'w) option" where
  "serve_ppr env cache ppr w =
     do {
       s \<leftarrow> task_exec cx_awaits (ppr_handle env) cx_after [Cx_run] (Cx_idle, new_ppr_task ppr, []);
       serve cx_awaits (ppr_handle env) cx_after Cx_done (ppr_respond cache) s w
     }"

section \<open>Serving refines the machines\<close>

lemma reg_run_task:
  "reg_run env req evs s \<longleftrightarrow> task_run awaits (handle env) phase_after Idle (new_reg_task req) evs s"
proof -
  have "exec env evs s = task_exec awaits (handle env) phase_after evs s" for s
    by (induction env evs s rule: exec.induct) (simp_all split: option.split prod.split)
  then show ?thesis by (simp add: reg_run_exec task_run_iff_exec)
qed

lemma served_reg_run:
  assumes "serve_reg_data env cache hss req w = Some ((p, t, acts), w1)"
  shows "p = Done \<and> (\<exists>evs. reg_run env req (Run # evs) (p, t, acts))"
  using assms serve_from_start [of awaits "handle env" phase_after "[Run]" Idle "new_reg_task req"]
  by (fastforce simp: serve_reg_data_def bind_eq_Some_conv reg_run_task simp del: task_exec.simps)

lemma served_rtr_run:
  assumes "serve_rtr env cache rtr w = Some ((p, t, acts), w1)"
  shows "p = Cx_done \<and> (\<exists>evs. task_run cx_awaits (rtr_handle env) cx_after Cx_idle (new_rtr_task rtr) (Cx_run # evs) (p, t, acts))"
  using assms serve_from_start [of cx_awaits "rtr_handle env" cx_after "[Cx_run]" Cx_idle "new_rtr_task rtr"]
  by (fastforce simp: serve_rtr_def bind_eq_Some_conv simp del: task_exec.simps)

lemma served_ppr_run:
  assumes "serve_ppr env cache ppr w = Some ((p, t, acts), w1)"
  shows "p = Cx_done \<and> (\<exists>evs. task_run cx_awaits (ppr_handle env) cx_after Cx_idle (new_ppr_task ppr) (Cx_run # evs) (p, t, acts))"
  using assms serve_from_start [of cx_awaits "ppr_handle env" cx_after "[Cx_run]" Cx_idle "new_ppr_task ppr"]
  by (fastforce simp: serve_ppr_def bind_eq_Some_conv simp del: task_exec.simps)

section \<open>Registering an unknown subscriber\<close>

lemma get_irs_not_found:
  assumes "ims_good (E, V) S" and "c_local cache = impu_store_ops E S" and "c_remotes cache = []"
    and "r_impu (ims_view (E, V) w) (s_id S) impu = (NOT_FOUND, None)"
  shows "\<exists>w1. get_implicit_registration_set_for_impu cache impu w = ((NOT_FOUND, None), w1) \<and>
    ims_view (E, V) w1 = ims_view (E, V) w"
proof -
  have "fst (op_get_impu (impu_store_ops E S) impu w) = (NOT_FOUND, None)"
    "ims_view (E, V) (snd (op_get_impu (impu_store_ops E S) impu w)) = ims_view (E, V) w"
    using ims.get_impu_law [of "(E, V)" S impu w] assms(1,4) by (simp_all add: impu_store_ops_def)
  then show ?thesis
    by (cases "op_get_impu (impu_store_ops E S) impu w")
      (auto simp: get_implicit_registration_set_for_impu_def get_impu_for_impu_gr_def assms(2,3))
qed

lemma put_accepts_view:
  "ims_view (E, V) w1 = ims_view (E, V) w \<Longrightarrow> put_accepts E V S w1 irs irs' = put_accepts E V S w irs irs'"
  by (simp add: put_accepts_def)

text \<open>The registration set of a new registration; what the members held before does not matter.\<close>

definition registered_irs :: "'x xml_api \<Rightarrow> int \<Rightarrow> string \<Rightarrow> ServerAssignmentAnswer \<Rightarrow> mirs" where
  "registered_irs X ttl impi saa =
     set_ttl ttl (set_ims_sub_xml X (saa_service_profile saa) (set_charging_addresses (saa_charging saa)
       (add_associated_impi impi (set_reg_state REGISTERED (new_mirs 0 REGISTERED)))))"

lemma registered_irs_any:
  "set_ttl ttl (set_ims_sub_xml X (saa_service_profile saa) (set_charging_addresses (saa_charging saa)
     (add_associated_impi impi (set_reg_state REGISTERED (set_reg_state s (new_mirs any_ttl any_state)))))) =
   registered_irs X ttl impi saa"
  by (simp add: registered_irs_def irs_simps Let_def split: prod.split)

lemma registered_irs_fields [simp]:
  "m_registration_state (registered_irs X ttl impi saa) = REGISTERED"
  "m_ims_sub_xml (registered_irs X ttl impi saa) = saa_service_profile saa"
  "m_charging_addresses (registered_irs X ttl impi saa) = saa_charging saa"
  "m_ttl (registered_irs X ttl impi saa) = ttl"
  "m_default_impu (registered_irs X ttl impi saa) = get_default_id X (saa_service_profile saa) ''''"
  "get_associated_impis (registered_irs X ttl impi saa) = [impi]"
  "has_changed (registered_irs X ttl impi saa)"
  by (auto simp: registered_irs_def irs_simps has_changed_def get_default_id_def
      get_associated_impis_def present_elements_def Let_def split: prod.split)

text \<open>The task after \<open>run\<close> and after the lookup found nothing.\<close>

definition started :: "('w, 'j, 'x) reg_env \<Rightarrow> http_request \<Rightarrow> string \<Rightarrow> string \<Rightarrow> reg_task" where
  "started env req impu impi =
     (new_reg_task req)\<lparr>rt_impu := impu, rt_impi := impi, rt_type := TYPE_REG,
       rt_provided_server_name := server_name_from_body (e_ext env) (rq_body req)\<rparr>"

definition reg_request :: "('w, 'j, 'x) reg_env \<Rightarrow> http_request \<Rightarrow> string \<Rightarrow> string \<Rightarrow> bool" where
  "reg_request env req impu impi \<longleftrightarrow>
     rq_method req = METHOD_PUT \<and> request_type_from_body (e_ext env) (rq_body req) = TYPE_REG \<and>
     wildcard_from_body (e_ext env) (rq_body req) = '''' \<and>
     map_option (e_url_unescape env) (path_id (rq_full_path req)) = Some impu \<and>
     e_url_unescape env (rq_param req ''private_id'') = impi \<and> impi \<noteq> ''''"

lemma run_started:
  "reg_request env req impu impi \<Longrightarrow>
     reg_data_run env (new_reg_task req) = (started env req impu impi, [CacheGet impu])"
  by (auto simp: reg_request_def reg_data_run_def started_def new_reg_task_def get_reg_data_def public_id_def
      wildcard_id_def Let_def)

definition reg_sar :: "('w, 'j, 'x) reg_env \<Rightarrow> http_request \<Rightarrow> string \<Rightarrow> string \<Rightarrow> ServerAssignmentRequest" where
  "reg_sar env req impu impi =
     \<lparr>sar_impi = impi, sar_impu = impu,
      sar_server_name = (let n = server_name_from_body (e_ext env) (rq_body req)
         in if n = '''' then e_server_name env else n),
      sar_type = REGISTRATION, sar_support_shared_ifcs = support_shared_ifcs (e_cfg env),
      sar_wildcard_impu = ''''\<rparr>"

lemma failure_asks:
  assumes "reg_request env req impu impi"
  shows "\<exists>t. on_get_reg_data_failure env NOT_FOUND (started env req impu impi) = (t, [SendSAR (reg_sar env req impu impi)]) \<and>
    rt_irs t = Some (add_associated_impi impi (set_reg_state REGISTERED
      (set_reg_state NOT_REGISTERED (new_mirs (e_any_ttl env) (e_any_state env))))) \<and>
    rt_type t = TYPE_REG \<and> rt_http_rc t = HTTP_OK \<and> rt_cached_reg_state t = NOT_REGISTERED"
  using assms
  by (simp add: on_get_reg_data_failure_def process_received_reg_data_def started_def new_reg_task_def
      reg_request_def binding_of_def set_reg_state_def new_mirs_def send_server_assignment_request_def reg_sar_def Let_def)

lemma success_puts:
  assumes "rt_irs t = Some (add_associated_impi impi (set_reg_state REGISTERED
      (set_reg_state NOT_REGISTERED (new_mirs (e_any_ttl env) (e_any_state env)))))"
    and "rt_type t = TYPE_REG" and "saa_result saa = RC_SUCCESS"
    and "fst (get_public_and_default_ids (e_xml env) (saa_service_profile saa) '''') \<noteq> []"
  shows "on_sar_response env saa t =
    (t\<lparr>rt_irs := Some (registered_irs (e_xml env) (record_ttl (e_cfg env)) impi saa)\<rparr>,
     [CachePut (registered_irs (e_xml env) (record_ttl (e_cfg env)) impi saa)])"
  using assms
  by (simp add: on_sar_response_def update_cache_for_saa_def put_in_cache_def registered_irs_any case_prod_unfold Let_def)

lemma put_local_respond:
  assumes "put_irs_action (c_clk cache) (c_local cache) irs w = Some (OK, irs', w1)" and "c_remotes cache = []"
    and "has_changed irs"
  shows "reg_respond cache hss (CachePut irs) w = Some ([Put_progress irs', Put_success], w1)"
  using assms
  by (simp add: put_implicit_registration_set_def perform_def run_update_def after_local_def)

lemma registration_served:
  assumes req: "reg_request env req impu impi"
    and cache: "c_local cache = impu_store_ops E S" "c_clk cache = time0 E" "c_remotes cache = []"
    and none: "r_impu (ims_view (E, V) w) (s_id S) impu = (NOT_FOUND, None)"
    and hss: "hss (reg_sar env req impu impi) = Pair saa" and "saa_result saa = RC_SUCCESS"
    and ids: "fst (get_public_and_default_ids (e_xml env) (saa_service_profile saa) '''') \<noteq> []"
    and irs: "irs = registered_irs (e_xml env) (record_ttl (e_cfg env)) impi saa"
    and acc: "put_accepts E V S w irs irs"
  shows "\<exists>t w1 w2 reply. serve_reg_data env cache hss req w =
      Some ((Done, t, [CacheGet impu, SendSAR (reg_sar env req impu impi), CachePut irs, reply, DeleteTask]), w2) \<and>
    (\<exists>content. reply = SendHttpReply (fst (build_ClearwaterRegData (e_xml env) REGISTERED
       (saa_service_profile saa) (saa_charging saa) NOT_REGISTERED)) content) \<and>
    put_irs_action (c_clk cache) (c_local cache) irs w1 = Some (OK, irs, w2) \<and> put_accepts E V S w1 irs irs"
proof -
  have good: "ims_good (E, V) S" using acc by (simp add: put_accepts_def Let_def)
  obtain w1 where w1: "get_implicit_registration_set_for_impu cache impu w = ((NOT_FOUND, None), w1)"
    and v1: "ims_view (E, V) w1 = ims_view (E, V) w"
    using get_irs_not_found [OF good cache(1,3) none] by blast
  have acc1: "put_accepts E V S w1 irs irs" using acc put_accepts_view [OF v1] by blast
  obtain w2 where w2: "put_irs_action (c_clk cache) (c_local cache) irs w1 = Some (OK, irs, w2)"
    using put_accepts_put [OF acc1] cache by auto
  obtain t where t: "on_get_reg_data_failure env NOT_FOUND (started env req impu impi) =
      (t, [SendSAR (reg_sar env req impu impi)])" "rt_type t = TYPE_REG" "rt_http_rc t = HTTP_OK"
      "rt_cached_reg_state t = NOT_REGISTERED"
    and i: "rt_irs t = Some (add_associated_impi impi (set_reg_state REGISTERED
      (set_reg_state NOT_REGISTERED (new_mirs (e_any_ttl env) (e_any_state env)))))"
    using failure_asks [OF req] by blast
  have t2: "on_sar_response env saa t = (t\<lparr>rt_irs := Some irs\<rparr>, [CachePut irs])"
    using success_puts [OF i t(2) assms(7) ids] irs by simp
  obtain content where reply: "send_reply env (t\<lparr>rt_irs := Some irs\<rparr>) =
      [SendHttpReply (fst (build_ClearwaterRegData (e_xml env) REGISTERED
       (saa_service_profile saa) (saa_charging saa) NOT_REGISTERED)) content]"
    using t irs by (auto simp: send_reply_def case_prod_unfold Let_def)
  have changed: "has_changed irs" by (simp add: irs)
  let ?serve = "serve awaits (handle env) phase_after Done (reg_respond cache hss)"
  have "serve_reg_data env cache hss req w = ?serve (Wait_get, started env req impu impi, [CacheGet impu]) w"
    by (simp add: serve_reg_data_def run_started [OF req])
  also have "\<dots> = ?serve (Wait_sar, t, [CacheGet impu, SendSAR (reg_sar env req impu impi)]) w1"
    by (rule serve_step [where evs = "[Get_failure NOT_FOUND]"]) (simp_all add: run_lookup_def w1 t)
  also have "\<dots> = ?serve (Wait_put, t\<lparr>rt_irs := Some irs\<rparr>,
      [CacheGet impu, SendSAR (reg_sar env req impu impi), CachePut irs]) w1"
    by (rule serve_step [where evs = "[Sar_response saa]"]) (simp_all add: hss t2)
  also have "\<dots> = ?serve (Done, t\<lparr>rt_irs := Some irs\<rparr>,
      [CacheGet impu, SendSAR (reg_sar env req impu impi), CachePut irs] @ send_reply env (t\<lparr>rt_irs := Some irs\<rparr>) @ [DeleteTask]) w2"
    by (rule serve_step [where evs = "[Put_progress irs, Put_success]"])
      (simp_all add: put_local_respond [OF w2 cache(3) changed] reply task_simps
        del: reg_respond.simps)
  finally show ?thesis
    using w2 acc1 reply by (auto simp: serve_final)
qed


text \<open>The sample registration, into an empty store.\<close>

definition registered_sample :: mirs where
  "registered_sample = registered_irs ref_xml 7200 ''i'' sample_saa"

lemma registered_sample_eq:
  "registered_sample = (new_mirs 7200 REGISTERED)\<lparr>m_default_impu := ''sip:a'', m_ims_sub_xml := ''sip:a sip:b'',
     m_ims_sub_xml_set := True, m_charging_addresses_set := True, m_registration_state_set := True,
     m_associated_impus := [(''sip:b'', ADDED)], m_impis := [(''i'', ADDED)]\<rparr>"
  by (simp add: registered_sample_def registered_irs_def sample_saa_def saa_of_rc_def irs_simps sample_ids set_elements_def
      omap_map_def Let_def)

lemma registered_sample_record:
  "irs_record 100 registered_sample 0 None = \<lparr>i_impu = ''sip:a'', i_cas = 0, i_expiry = 7300, i_store = None,
     d_registration_state = REGISTERED, d_charging_addresses = no_charging,
     d_associated_impus = [''sip:b''], d_impis = [''i''], d_service_profile = ''sip:a sip:b''\<rparr>"
  "assoc_record 100 registered_sample 2 ''sip:b'' =
    \<lparr>i_impu = ''sip:b'', i_cas = 0, i_expiry = 7300, i_store = Some 2, a_default_impu = ''sip:a''\<rparr>"
  by (simp_all add: irs_record_def create_impu_def registered_sample_eq new_mirs_def get_associated_impis_def
      get_associated_impus_def present_elements_def assoc_record_def s32_def s64_def)

lemma registered_sample_fits:
  "ims_fits (ref_ext, V) 100 (DefaultImpu (irs_record 100 registered_sample 0 None))"
  "ims_fits (ref_ext, V) 100 (AssociatedImpu (assoc_record 100 registered_sample 2 ''sip:b''))"
  by (rule ref_fits; simp add: registered_sample_record storable_def no_nul_def no_charging_def s64_def s32_def
      json_text_def write_object ref_lengths json_names)+

lemma registered_sample_accepts:
  "put_accepts ref_ext ref_contents (ref_store 2) (empty_world 100) registered_sample registered_sample"
proof -
  have "written_impus registered_sample = [''sip:b'']" "mirs_ok registered_sample" "m_impis registered_sample = [(''i'', ADDED)]"
    "m_default_impu registered_sample = ''sip:a''" "m_ttl registered_sample = 7200" "\<not> m_existing registered_sample"
    "m_registration_state registered_sample = REGISTERED" "s_id (ref_store 2) = 2"
    by (simp_all add: written_impus_def impus_in_def get_elements_in_state_def registered_sample_eq new_mirs_def
        mirs_ok_def ref_store_def)
  then show ?thesis
    using registered_sample_fits ref_good
    by (auto simp: put_accepts_def irs_writable_def sample_view mapping_writable_def
        ims_fits_mapping_def storable_mapping_def mapping_members_def new_ImpiMapping_def no_nul_def
        s32_def s64_def)
qed

lemma sample_reg_request: "reg_request sample_reg_env (sample_put ''reg'') ''sip:a'' ''i''"
proof -
  have "wildcard_from_body ref_ext (rq_body (sample_put ''reg'')) = ''''"
    by (simp add: wildcard_from_body_def sample_put_def body_reqtype [OF ref_json_contract] no_nul_def)
  then show ?thesis
    using sample_types(1)
    by (simp add: reg_request_def sample_reg_env_def) (simp add: sample_put_def path_id_def)
qed



section \<open>Requests of the HSS\<close>

lemma perform_status:
  assumes "perform cache action cb irs w = Some (rc, irs', w')" and "\<And>s i v r i' v'. action s i v = Some (r, i', v') \<Longrightarrow> r = OK"
  shows "rc = OK"
  using assms by (auto simp: perform_def bind_eq_Some_conv split: if_splits)

lemma put_ims_subscription_ok:
  "put_ims_subscription cache sub cb w = Some (rc, sub', w') \<Longrightarrow> rc = OK"
  unfolding put_ims_subscription_def
  by (erule perform_status) (auto simp: put_ims_sub_action_def bind_eq_Some_conv)

lemma subscription_one_set:
  assumes "get_ims_subscription cache impi w = ((OK, Some sub), w1)"
  shows "ims_sub_ok sub \<and> length sub \<le> 1"
proof -
  obtain impus irss w0 w2 where "get_irss_for_impus (get_implicit_registration_set_for_impu cache) impus [] w0 = ((OK, irss), w2)"
    and sub: "sub = BaseImsSubscription m_default_impu irss"
    using assms by (auto simp: get_ims_subscription_def Let_def split: prod.splits if_splits)
  from irss_for_impus_one [OF this(1)] have "irss = [] \<or> (\<exists>irs. irss = [irs])"
    by (cases irss) auto
  then have "length sub \<le> 1" by (auto simp: sub BaseImsSubscription_def)
  then show ?thesis using sub BaseImsSubscription_ok by simp
qed

lemma send_ppa_no_put [simp]: "PutImsSubscription sub \<notin> set (send_ppa env t res)"
  by (simp add: send_ppa_def count_result_def)

lemma found_shape:
  assumes "on_get_ims_sub_success env sub t = (t1, bs)"
  shows "(cx_after p bs = Cx_done \<and> (\<forall>s. PutImsSubscription s \<notin> set bs)) \<or>
    (\<exists>s. cx_after p bs = Cx_update \<and> bs \<noteq> [] \<and> last bs = PutImsSubscription s \<and> (\<forall>s'. PutImsSubscription s' \<in> set bs \<longrightarrow> s' = s))"
  using assms by (auto simp: on_get_ims_sub_success_def save_ims_sub_def Let_def split: if_splits option.splits prod.splits)

text \<open>The end of a push profile that has been saved: the result of the write is not looked at.\<close>

lemma ppr_update_ends:
  assumes "on_get_ims_sub_success env sub t0 = (t1, bs)"
    and "serve cx_awaits (ppr_handle env) cx_after Cx_done (ppr_respond cache) (cx_after Cx_get bs, t1, as @ bs) w1 =
      Some ((p, t, acts), w2)"
    and "PutImsSubscription sub' \<in> set acts" and "PutImsSubscription sub' \<notin> set as"
  shows "cx_after Cx_get bs = Cx_update \<and> acts = as @ bs @ send_ppa env t1 DIAMETER_REQ_SUCCESS @ [EndTask] \<and>
    (\<exists>sub''. put_ims_subscription cache sub' (\<lambda>w. w) w1 = Some (OK, sub'', w2))"
  using assms(2)
proof (cases rule: serve_cases)
  case final
  then show ?thesis using found_shape [OF assms(1), of Cx_get] assms(3,4) by auto
next
  case (step evs2 w3 s2)
  then obtain s where s: "cx_after Cx_get bs = Cx_update" "bs \<noteq> []" "last bs = PutImsSubscription s"
    "\<forall>s'. PutImsSubscription s' \<in> set bs \<longrightarrow> s' = s"
    using found_shape [OF assms(1), of Cx_get] by auto
  obtain sub2 where put: "put_ims_subscription cache s (\<lambda>w. w) w1 = Some (OK, sub2, w3)"
    and evs2: "evs2 = [Progress, Updated]"
    using step(2) s put_ims_subscription_ok [of cache s "\<lambda>w. w" w1]
    by (auto simp: run_update_def split: option.splits)
  have "s2 = (Cx_done, t1, as @ bs @ send_ppa env t1 DIAMETER_REQ_SUCCESS @ [EndTask])"
    using step(3) evs2 s by (auto simp: on_save_ims_sub_progress_def on_save_ims_sub_success_def)
  then have fin: "acts = as @ bs @ send_ppa env t1 DIAMETER_REQ_SUCCESS @ [EndTask]" "w2 = w3"
    using step(4) by (auto simp: serve.simps)
  then have "sub' = s" using assms(3,4) s(4) by auto
  then show ?thesis using s(1) fin put by simp
qed

lemma ppr_saved:
  assumes "serve_ppr env cache ppr w = Some ((p, t, acts), w2)" and "PutImsSubscription sub' \<in> set acts"
  shows "\<exists>sub w1 t1 acts1. get_ims_subscription cache (dm_impi (x_diameter env) ppr) w = ((OK, Some sub), w1) \<and>
    task_run cx_awaits (ppr_handle env) cx_after Cx_idle (new_ppr_task ppr) [Cx_run, Found sub] (Cx_update, t1, acts1) \<and>
    acts = acts1 @ send_ppa env t1 DIAMETER_REQ_SUCCESS @ [EndTask] \<and>
    (\<exists>sub''. put_ims_subscription cache sub' (\<lambda>w. w) w1 = Some (OK, sub'', w2))"
proof -
  obtain t0 as where run: "ppr_run env (new_ppr_task ppr) = (t0, as)" by fastforce
  have serve0: "serve cx_awaits (ppr_handle env) cx_after Cx_done (ppr_respond cache) (cx_after Cx_idle as, t0, as) w =
      Some ((p, t, acts), w2)"
    using assms(1) run by (simp add: serve_ppr_def)
  have as: "as = send_ppa env t0 DIAMETER_REQ_SUCCESS @ [EndTask] \<or> as = [GetImsSubscription (dm_impi (x_diameter env) ppr)]"
    using run by (auto simp: ppr_run_def new_ppr_task_def Let_def split: if_splits prod.splits)
  show ?thesis
    using serve0
  proof (cases rule: serve_cases)
    case final
    then show ?thesis using as assms(2) by auto
  next
    case (step evs w1 s1)
    then have as: "as = [GetImsSubscription (dm_impi (x_diameter env) ppr)]" using as by auto
    show ?thesis
    proof (cases "\<exists>sub. evs = [Found sub]")
      case False
      then obtain rc where "evs = [Not_found rc]"
        using step as by (auto simp: run_lookup_def split: prod.splits if_splits)
      then have "s1 = (Cx_done, t0, as @ send_ppa env t0 DIAMETER_REQ_FAILURE @ [EndTask])"
        using step(3) as by (auto simp: on_get_ims_sub_failure_def split: if_splits)
      then show ?thesis using step(4) assms(2) as by (auto simp: serve.simps)
    next
      case True
      then obtain sub where evs: "evs = [Found sub]" by blast
      then have got: "get_ims_subscription cache (dm_impi (x_diameter env) ppr) w = ((OK, Some sub), w1)"
        using step as by (auto simp: run_lookup_def split: prod.splits if_splits)
      obtain t1 bs where found: "on_get_ims_sub_success env sub t0 = (t1, bs)" by fastforce
      have s1: "s1 = (cx_after Cx_get bs, t1, as @ bs)"
        using step(3) evs as found by simp
      have trun: "task_run cx_awaits (ppr_handle env) cx_after Cx_idle (new_ppr_task ppr) [Cx_run, Found sub]
          (cx_after Cx_get bs, t1, as @ bs)"
        by (simp add: task_run_iff_exec run as found)
      from ppr_update_ends [OF found step(4) [unfolded s1] assms(2)] as got trun show ?thesis
        by (intro exI [of _ sub] exI [of _ w1] exI [of _ t1] exI [of _ "as @ bs"]) auto
    qed
  qed
qed

lemma send_rta_no_delete [simp]: "DeleteIrss irss \<notin> set (send_rta env t res)"
  by (simp add: send_rta_def count_result_def)

lemma rtr_update_ends:
  assumes "get_registration_sets_success env found t0 = (t1, bs)" and "found \<noteq> []"
    and "serve cx_awaits (rtr_handle env) cx_after Cx_done (rtr_respond cache) (cx_after Cx_get bs, t1, as @ bs) w1 =
      Some ((p, t, acts), w2)"
    and "DeleteIrss irss \<in> set acts" and "DeleteIrss irss \<notin> set as"
  shows "cx_after Cx_get bs = Cx_update \<and> acts = as @ bs @ [EndTask] \<and> t = t1 \<and> irss = found \<and>
    (\<exists>rc irss'. delete_implicit_registration_sets cache found (\<lambda>w. w) w1 = Some (rc, irss', w2))"
proof -
  have bs: "cx_after Cx_get bs = Cx_update" "bs \<noteq> []" "last bs = DeleteIrss found" "\<And>i. DeleteIrss i \<in> set bs \<Longrightarrow> i = found"
    using assms(1,2) by (auto simp: get_registration_sets_success_def Let_def split: option.splits prod.splits)
  show ?thesis
    using assms(3)
  proof (cases rule: serve_cases)
    case final
    then show ?thesis using bs(1) by simp
  next
    case (step evs2 w3 s2)
    then obtain rc irss' where del: "delete_implicit_registration_sets cache found (\<lambda>w. w) w1 = Some (rc, irss', w3)"
      and evs2: "evs2 = (if rc = OK then [Progress, Updated] else [Not_updated rc])"
      using bs by (auto simp: run_update_def split: option.splits if_splits)
    have "s2 = (Cx_done, t1, as @ bs @ [EndTask])"
      using step(3) evs2 bs(1)
      by (auto simp: delete_reg_sets_progress_def delete_reg_sets_success_def delete_reg_sets_failure_def split: if_splits)
    then have fin: "acts = as @ bs @ [EndTask]" "w2 = w3" "t = t1"
      using step(4) by (auto simp: serve.simps)
    then show ?thesis using assms(4,5) bs del by auto
  qed
qed

lemma rtr_deleted:
  assumes "serve_rtr env cache rtr w = Some ((p, t, acts), w2)" and "DeleteIrss irss \<in> set acts"
  shows "\<exists>lookup w1 irss' rc. lookup = hd acts \<and> rtr_respond cache lookup w = Some ([Found irss], w1) \<and> irss \<noteq> [] \<and>
    task_run cx_awaits (rtr_handle env) cx_after Cx_idle (new_rtr_task rtr) [Cx_run, Found irss] (Cx_update, t, butlast acts) \<and>
    delete_implicit_registration_sets cache irss (\<lambda>w. w) w1 = Some (rc, irss', w2)"
proof -
  obtain t0 as where run: "rtr_run env (new_rtr_task rtr) = (t0, as)" by fastforce
  have serve0: "serve cx_awaits (rtr_handle env) cx_after Cx_done (rtr_respond cache) (cx_after Cx_idle as, t0, as) w =
      Some ((p, t, acts), w2)"
    using assms(1) run by (simp add: serve_rtr_def)
  have as: "as = send_rta env t0 DIAMETER_REQ_FAILURE @ [EndTask] \<or> (\<exists>l. as = [l] \<and> cx_after Cx_idle as = Cx_get \<and> (\<forall>i. l \<noteq> DeleteIrss i))"
    using run by (auto simp: rtr_run_def new_rtr_task_def Let_def split: if_splits)
  show ?thesis
    using serve0
  proof (cases rule: serve_cases)
    case final
    then show ?thesis using as assms(2) by auto
  next
    case (step evs w1 s1)
    then obtain l where l: "as = [l]" "cx_after Cx_idle as = Cx_get" "\<And>i. l \<noteq> DeleteIrss i" using as by auto
    have resp: "rtr_respond cache l w = Some (evs, w1)" using step(2) l by simp
    show ?thesis
    proof (cases "\<exists>irss. evs = [Found irss] \<and> irss \<noteq> []")
      case False
      then have "(\<exists>rc. evs = [Not_found rc]) \<or> evs = [Found []]"
        using resp l(2,3) by (cases l) (auto simp: l(1) run_lookup_def split: prod.splits if_splits)
      then have "\<exists>t1 bs. s1 = (Cx_done, t1, as @ bs) \<and> (\<forall>i. DeleteIrss i \<notin> set bs)"
        using step(3) l
        by (auto simp: get_registration_sets_failure_def get_registration_sets_success_def Let_def split: if_splits)
      then show ?thesis using step(4) assms(2) l by (auto simp: serve.simps)
    next
      case True
      then obtain found where evs: "evs = [Found found]" "found \<noteq> []" by blast
      obtain t1 bs where get: "get_registration_sets_success env found t0 = (t1, bs)" by fastforce
      have s1: "s1 = (cx_after Cx_get bs, t1, as @ bs)"
        using step(3) evs l get by simp
      have trun: "task_run cx_awaits (rtr_handle env) cx_after Cx_idle (new_rtr_task rtr) [Cx_run, Found found]
          (cx_after Cx_get bs, t1, as @ bs)"
        using l by (simp add: task_run_iff_exec run get)
      have "DeleteIrss irss \<notin> set as" using l(1) l(3) [of irss] by auto
      from rtr_update_ends [OF get evs(2) step(4) [unfolded s1] assms(2) this] resp evs trun l(1)
      show ?thesis by (auto simp: butlast_append)
    qed
  qed
qed

section \<open>A store that accepts everything\<close>

text \<open>A store in which every IMPU is a registered default IMPU of its own, and which accepts every write.\<close>

definition still_impu :: "string \<Rightarrow> default_impu" where
  "still_impu k = \<lparr>i_impu = k, i_cas = 1, i_expiry = 400, i_store = Some 2, d_registration_state = REGISTERED,
     d_charging_addresses = no_charging, d_associated_impus = [], d_impis = [], d_service_profile = k\<rparr>"

definition still_store :: "nat impu_ops" where
  "still_store = \<lparr>op_id = 2, op_get_impu = (\<lambda>k w. ((OK, Some (DefaultImpu (still_impu k))), w)),
     op_set_impu_without_cas = (\<lambda>i w. (OK, w)), op_add_impu = (\<lambda>i w. (OK, w)),
     op_set_impu = (\<lambda>i w. (OK, w)), op_delete_impu = (\<lambda>i w. (OK, w)),
     op_get_impi_mapping = (\<lambda>k w. ((OK, Some \<lparr>p_impi = k, p_cas = 1, p_expiry = 400,
        p_default_impus = [''sip:a'', ''sip:b'']\<rparr>), w)),
     op_set_impi_mapping = (\<lambda>m w. (OK, w)), op_delete_impi_mapping = (\<lambda>m w. (OK, w))\<rparr>"

definition still_cache :: "nat memcached_cache" where
  "still_cache = \<lparr>c_clk = (\<lambda>w. (100, w)), c_local = still_store, c_remotes = []\<rparr>"

definition still_irs :: "string \<Rightarrow> mirs" where
  "still_irs k = fst (mirs_of_impu (\<lambda>w. (100, w)) (still_impu k) (0 :: nat))"

lemma still_get: "get_implicit_registration_set_for_impu still_cache k w = ((OK, Some (still_irs k)), w)"
  by (simp add: get_implicit_registration_set_for_impu_def get_impu_for_impu_gr_def still_cache_def still_store_def
      still_irs_def mirs_of_impu_def case_prod_unfold)

lemma still_lookups:
  "get_irss_for_impus (get_implicit_registration_set_for_impu still_cache) (k # ks) [] w = ((OK, [still_irs k]), w)"
  "get_ims_subscription still_cache impi w = ((OK, Some [(''sip:a'', still_irs ''sip:a'')]), w)"
  by (simp_all add: get_irss_for_impus_def still_get get_ims_subscription_def get_impi_mapping_gr_def
      BaseImsSubscription_def still_cache_def [THEN arg_cong, of c_local] still_store_def)
    (simp_all add: still_irs_def still_impu_def)

lemma still_irs_eq: "still_irs k =
    \<lparr>m_default_impu = k, m_store = Some 2, m_cas = 1, m_ttl = 300, m_refreshed = False,
      m_existing = True, m_impis = [], m_associated_impus = [], m_ims_sub_xml = k,
      m_ims_sub_xml_set = False, m_charging_addresses = no_charging,
      m_charging_addresses_set = False, m_registration_state = REGISTERED,
      m_registration_state_set = False\<rparr>"
  by (simp add: still_irs_def mirs_of_impu_def still_impu_def s32_def)

lemma still_ops [simp]:
  "op_id still_store = 2" "op_get_impu still_store k w = ((OK, Some (DefaultImpu (still_impu k))), w)"
  "op_delete_impu still_store i w = (OK, w)" "op_set_impu still_store i w = (OK, w)"
  "op_set_impi_mapping still_store m w = (OK, w)" "c_local still_cache = still_store"
  "c_clk still_cache = Pair 100" "c_remotes still_cache = []"
  by (simp_all add: still_store_def still_cache_def)

lemma no_elements [simp]: "get_elements_in_state [] st = []" "delete_tracked [] = []"
  by (simp_all add: get_elements_in_state_def delete_tracked_def omap_map_def)

lemma still_delete_impu:
  "delete_irs_impu clk still_store (still_irs k) w = Some (OK, mark_as_refreshed (still_irs k), snd (clk w))"
  by (simp add: delete_irs_impu_def perform_irs_impu_action_def get_impu_for_store_def irs_impu_loop.simps irs_impu_pass_def
      create_impu_def still_irs_eq mark_as_refreshed_def case_prod_unfold Let_def)

lemma still_delete: "\<exists>irss. delete_implicit_registration_sets still_cache [still_irs k] (\<lambda>w. w) w = Some (OK, irss, w)"
proof -
  have "m_existing (still_irs k)" by (simp add: still_irs_eq)
  moreover have "\<exists>irs. delete_irs_action (Pair 100) still_store (still_irs k) w = Some (OK, irs, w)"
    by (simp add: delete_irs_action_def still_delete_impu)
      (simp add: still_irs_eq mark_as_refreshed_def delete_assoc_impus_def delete_impis_def
        update_irs_associated_impus_def update_irs_impi_mappings_def impus_in_def impis_in_def Let_def)
  ultimately show ?thesis
    by (auto simp: delete_implicit_registration_sets_def perform_def delete_irss_action_def)
qed

end
