(* ===== verification/Reg_Data_Decisions.thy ===== *)
theory Reg_Data_Decisions
  imports Reg_Data_Machine
begin

text \<open>
  Two views of the registration task. The decision table: what \<open>process_received_reg_data\<close> does with a set
  from the cache, as a reference function of the request and four facts about the set. And a simulation
  between runs that differ in the members \<open>MemcachedImplicitRegistrationSet()\<close> leaves without a value.
\<close>

section \<open>When the HSS is asked\<close>

text \<open>The decision table of the handler.\<close>

datatype verdict = Ask ServerAssignmentType | Answer | Reject

fun decide :: "RequestType \<Rightarrow> RegistrationState \<Rightarrow> bool \<Rightarrow> bool \<Rightarrow> verdict" where
  "decide TYPE_REG state known fresh =
     (if state = REGISTERED \<and> known then if fresh then Answer else Ask RE_REGISTRATION else Ask REGISTRATION)"
| "decide TYPE_CALL state known fresh = (if state = NOT_REGISTERED then Ask UNREGISTERED_USER else Answer)"
| "decide TYPE_DEREG_AUTH_FAIL state known fresh = Ask AUTHENTICATION_FAILURE"
| "decide TYPE_DEREG_AUTH_TIMEOUT state known fresh = Ask AUTHENTICATION_TIMEOUT"
| "decide TYPE_DEREG_USER state known fresh = (if state = NOT_REGISTERED then Reject else Ask USER_DEREGISTRATION)"
| "decide TYPE_DEREG_ADMIN state known fresh =
     (if state = NOT_REGISTERED then Reject else Ask ADMINISTRATIVE_DEREGISTRATION)"
| "decide TYPE_DEREG_TIMEOUT state known fresh = (if state = NOT_REGISTERED then Reject else Ask TIMEOUT_DEREGISTRATION)"
| "decide TYPE_UNKNOWN state known fresh = Reject"

text \<open>
  The private identity of the request is one that has registered the set before; the data are fresh
  when the record is younger than the re-registration time and the client accepts cached data.
\<close>

definition known_binding :: "mirs \<Rightarrow> string \<Rightarrow> bool" where
  "known_binding irs impi \<longleftrightarrow> impi = '''' \<or> m_ims_sub_xml irs = '''' \<or> impi \<in> set (get_associated_impis irs)"

definition fresh_data :: "reg_data_config \<Rightarrow> http_request \<Rightarrow> mirs \<Rightarrow> bool" where
  "fresh_data cfg req irs \<longleftrightarrow> s32 (record_ttl cfg - m_ttl irs) < hss_reregistration_time cfg \<and>
     rq_header req ''Cache-control'' \<noteq> ''no-cache''"

lemma decision_table:
  assumes "process_received_reg_data env t = (t1, as)" and "rt_irs t = Some irs"
    and "rq_method (rt_req t) = METHOD_PUT" and "rt_type t \<noteq> TYPE_UNKNOWN"
  shows "case decide (rt_type t) (m_registration_state irs) (known_binding irs (rt_impi t)) (fresh_data (e_cfg env) (rt_req t) irs) of
      Ask s \<Rightarrow> as = send_server_assignment_request env s t1 \<and>
        (\<exists>irs1. rt_irs t1 = Some irs1 \<and> assigned (rt_type t) irs1)
    | Answer \<Rightarrow> as = send_reply env t1 @ [DeleteTask]
    | Reject \<Rightarrow> as = [rc_reply HTTP_BAD_REQUEST, DeleteTask]"
proof -
  obtain impi nb where b: "binding_of (e_xml env) irs (rt_impi t) = (impi, nb)" by fastforce
  have nb: "nb \<longleftrightarrow> \<not> known_binding irs (rt_impi t)"
    using b by (auto simp: binding_of_def known_binding_def split: if_splits)
  show ?thesis
    using assms nb
    by (cases "rt_type t")
      (auto simp: process_received_reg_data_def b fresh_data_def Let_def split: if_splits)
qed



section \<open>Members without a value\<close>

text \<open>
  A new registration set has no value for its TTL and its state. \<open>same_but_ttl\<close>: two tasks that differ
  at most in the TTL of the set they hold.
\<close>

definition forget_ttl :: "mirs \<Rightarrow> mirs" where
  "forget_ttl irs = irs\<lparr>m_ttl := 0\<rparr>"

definition same_but_ttl :: "reg_task \<Rightarrow> reg_task \<Rightarrow> bool" where
  "same_but_ttl t t' \<longleftrightarrow> t = t' \<or>
     (\<exists>irs irs'. rt_irs t = Some irs \<and> t' = t\<lparr>rt_irs := Some irs'\<rparr> \<and> forget_ttl irs = forget_ttl irs' \<and>
        \<not> is_deregistration_request (rt_type t))"

lemma forget_ttl_setters:
  assumes "forget_ttl irs = forget_ttl irs'"
  shows "set_ttl n irs = set_ttl n irs'"
    "forget_ttl (set_reg_state s irs) = forget_ttl (set_reg_state s irs')"
    "forget_ttl (add_associated_impi i irs) = forget_ttl (add_associated_impi i irs')"
    "forget_ttl (set_charging_addresses c irs) = forget_ttl (set_charging_addresses c irs')"
    "forget_ttl (set_ims_sub_xml X xml irs) = forget_ttl (set_ims_sub_xml X xml irs')"
    "m_registration_state irs = m_registration_state irs'" "m_ims_sub_xml irs = m_ims_sub_xml irs'"
    "m_charging_addresses irs = m_charging_addresses irs'" "get_associated_impis irs = get_associated_impis irs'"
  using assms
  by (cases irs; cases irs'; auto simp: forget_ttl_def irs_simps get_associated_impis_def Let_def split: prod.split)+


lemma send_reply_ttl:
  assumes "rt_irs t = Some irs" and "forget_ttl irs = forget_ttl irs'"
  shows "send_reply env (t\<lparr>rt_irs := Some irs'\<rparr>) = send_reply env t"
  using assms forget_ttl_setters [OF assms(2)] by (simp add: send_reply_def)

text \<open>The same environment with other values in the uninitialised members.\<close>

abbreviation other_values :: "('w, 'j, 'x) reg_env \<Rightarrow> int \<Rightarrow> RegistrationState \<Rightarrow> ('w, 'j, 'x) reg_env" where
  "other_values env n s \<equiv> env\<lparr>e_any_ttl := n, e_any_state := s\<rparr>"

lemma send_reply_other [simp]: "send_reply (other_values env n s) t = send_reply env t"
  by (cases "rt_irs t") (simp_all add: send_reply_def)

lemma update_cache_other [simp]: "update_cache_for_saa (other_values env n s) saa t = update_cache_for_saa env saa t"
  by (cases "rt_irs t") (simp_all add: update_cache_for_saa_def put_in_cache_def case_prod_unfold Let_def)

lemma methods_other [simp]:
  "reg_data_run (other_values env n s) t = reg_data_run env t"
  "read_reg_data_run (other_values env n s) t = read_reg_data_run env t"
  "process_received_reg_data (other_values env n s) t = process_received_reg_data env t"
  "on_sar_response (other_values env n s) saa t = on_sar_response env saa t"
proof -
  show run: "reg_data_run (other_values env n s) t = reg_data_run env t"
    by (cases "path_id (rq_full_path (rt_req t))") (simp_all add: reg_data_run_def Let_def)
  show "read_reg_data_run (other_values env n s) t = read_reg_data_run env t"
    by (simp add: read_reg_data_run_def run)
  show "process_received_reg_data (other_values env n s) t = process_received_reg_data env t"
    by (cases "rt_irs t") (simp_all add: process_received_reg_data_def send_server_assignment_request_def case_prod_unfold Let_def)
  show "on_sar_response (other_values env n s) saa t = on_sar_response env saa t"
    by (simp add: on_sar_response_def Let_def)
qed

lemma sar_irs [simp]:
  "send_server_assignment_request env type (t\<lparr>rt_irs := x\<rparr>) = send_server_assignment_request env type t"
  by (simp add: send_server_assignment_request_def)

text \<open>A new set is processed the same whatever its TTL holds, and a deregistration is rejected.\<close>

lemma process_new:
  assumes "irs = set_reg_state NOT_REGISTERED (new_mirs n s)" and "rq_method (rt_req t) = METHOD_PUT"
    and "t1 = t\<lparr>rt_cached_reg_state := NOT_REGISTERED,
      rt_impi := (if rt_impi t = '''' then get_private_id (e_xml env) '''' else rt_impi t)\<rparr>"
  shows "process_received_reg_data env (t\<lparr>rt_irs := Some irs\<rparr>) =
    (case rt_type t of
       TYPE_REG \<Rightarrow> (t1\<lparr>rt_irs := Some (add_associated_impi (rt_impi t1) (set_reg_state REGISTERED irs))\<rparr>,
         send_server_assignment_request env REGISTRATION t1)
     | TYPE_CALL \<Rightarrow> (t1\<lparr>rt_irs := Some (set_reg_state UNREGISTERED irs)\<rparr>,
         send_server_assignment_request env UNREGISTERED_USER t1)
     | TYPE_UNKNOWN \<Rightarrow> (t1\<lparr>rt_irs := Some irs\<rparr>, [DeleteTask])
     | _ \<Rightarrow> (t1\<lparr>rt_irs := Some irs\<rparr>,
         if is_deregistration_request (rt_type t) then [rc_reply HTTP_BAD_REQUEST, DeleteTask]
         else send_server_assignment_request env (sar_type_for_request (rt_type t)) t1))"
  using assms
  by (cases "rt_type t")
    (simp_all add: process_received_reg_data_def binding_of_def set_reg_state_def new_mirs_def
      send_server_assignment_request_def Let_def)

lemma process_new_ttl:
  assumes "irs = set_reg_state NOT_REGISTERED (new_mirs n s)" and "irs' = set_reg_state NOT_REGISTERED (new_mirs n' s')"
    and "process_received_reg_data env (t\<lparr>rt_irs := Some irs\<rparr>) = (t1, as)" and "rq_method (rt_req t) = METHOD_PUT"
  shows "\<exists>t1'. process_received_reg_data env (t\<lparr>rt_irs := Some irs'\<rparr>) = (t1', as) \<and>
    t1\<lparr>rt_irs := None\<rparr> = t1'\<lparr>rt_irs := None\<rparr> \<and> (phase_after p as = Wait_sar \<longrightarrow> p \<noteq> Wait_sar \<longrightarrow> same_but_ttl t1 t1')"
proof -
  have eq: "forget_ttl irs = forget_ttl irs'"
    using assms(1,2) by (simp add: forget_ttl_def set_reg_state_def new_mirs_def)
  have "forget_ttl (add_associated_impi i (set_reg_state REGISTERED irs)) =
      forget_ttl (add_associated_impi i (set_reg_state REGISTERED irs'))" for i
    using forget_ttl_setters(2,3) eq by blast
  then show ?thesis
    using assms(3) forget_ttl_setters(2) [OF eq] eq
    unfolding process_new [OF assms(1,4) refl] process_new [OF assms(2,4) refl]
    by (cases "rt_type t") (auto simp: same_but_ttl_def)
qed

lemma update_cache_ttl:
  assumes "rt_irs t = Some irs" and "forget_ttl irs = forget_ttl irs'" and "\<not> is_deregistration_request (rt_type t)"
    and "update_cache_for_saa env saa t = (t1, as)"
  shows "\<exists>t1'. update_cache_for_saa env saa (t\<lparr>rt_irs := Some irs'\<rparr>) = (t1', as) \<and>
    t1\<lparr>rt_irs := None\<rparr> = t1'\<lparr>rt_irs := None\<rparr>"
proof -
  have eq: "set_ttl n (set_ims_sub_xml X xml (set_charging_addresses c irs)) =
      set_ttl n (set_ims_sub_xml X xml (set_charging_addresses c irs'))" for n X xml c
    using forget_ttl_setters(1,4,5) assms(2) by blast
  show ?thesis
    using assms(1,3,4) send_reply_ttl [OF assms(1,2), of env]
    by (auto simp: update_cache_for_saa_def eq Let_def split: if_splits)
qed

definition sim :: "phase \<Rightarrow> reg_task \<Rightarrow> reg_task \<Rightarrow> bool" where
  "sim p t t' \<longleftrightarrow> t\<lparr>rt_irs := None\<rparr> = t'\<lparr>rt_irs := None\<rparr> \<and> (p = Idle \<longrightarrow> t = t') \<and> (p = Wait_sar \<longrightarrow> same_but_ttl t t')"

lemma same_but_ttl_fields:
  "same_but_ttl t t' \<Longrightarrow> t\<lparr>rt_irs := None\<rparr> = t'\<lparr>rt_irs := None\<rparr>"
  by (auto simp: same_but_ttl_def)

lemma sim_refl [simp]: "sim p t t"
  by (simp add: sim_def same_but_ttl_def)

lemma sim_irs:
  assumes "sim p t t'"
  shows "t'\<lparr>rt_irs := x\<rparr> = t\<lparr>rt_irs := x\<rparr>"
  using assms by (cases t; cases t') (auto simp: sim_def)

lemma sar_response_other:
  assumes "same_but_ttl t t'" and "on_sar_response env saa t = (t1, as)" and "rt_irs t = Some irs0"
  shows "\<exists>t1'. on_sar_response env saa t' = (t1', as) \<and> t1\<lparr>rt_irs := None\<rparr> = t1'\<lparr>rt_irs := None\<rparr>"
proof (cases "t = t'")
  case True
  then show ?thesis using assms(2) by auto
next
  case False
  then obtain irs irs' where t: "rt_irs t = Some irs" "t' = t\<lparr>rt_irs := Some irs'\<rparr>" "forget_ttl irs = forget_ttl irs'"
    "\<not> is_deregistration_request (rt_type t)"
    using assms(1) by (auto simp: same_but_ttl_def)
  have w: "wildcard_id t' = wildcard_id t" using t(2) by (simp add: wildcard_id_def)
  have sc: "saved_code saa t' = (saved_code saa t)\<lparr>rt_irs := Some irs'\<rparr>"
    using t(2) by (simp add: saved_code_def split: ResultCode.split)
  show ?thesis
  proof (cases "saa_result saa = RC_NEW_WILDCARD \<and> wildcard_id t \<noteq> saa_wildcard_impu saa")
    case True
    then show ?thesis
      using assms(2) w t(2) by (auto simp: on_sar_response_eq get_reg_data_def public_id_def wildcard_id_def)
  next
    case False
    obtain t2 bs where u: "update_cache_for_saa env saa (saved_code saa t) = (t2, bs)" by fastforce
    from update_cache_ttl [of "saved_code saa t" irs irs' env saa t2 bs] t u obtain t2' where
      "update_cache_for_saa env saa (saved_code saa t') = (t2', bs)" "t2\<lparr>rt_irs := None\<rparr> = t2'\<lparr>rt_irs := None\<rparr>"
      unfolding sc by auto
    then show ?thesis
      using assms(2) u False w by (auto simp: on_sar_response_eq)
  qed
qed

lemma phase_after_not_Idle: "p \<noteq> Idle \<Longrightarrow> phase_after p as \<noteq> Idle"
  by (induction p as rule: phase_after.induct) auto

lemma sar_moves_on:
  assumes "on_sar_response env saa t = (t1, as)" and "rt_irs t = Some irs"
  shows "phase_after Wait_sar as \<noteq> Wait_sar"
  using assms
  by (auto simp: on_sar_response_def update_cache_for_saa_def put_in_cache_def get_reg_data_def case_prod_unfold Let_def
      split: if_splits option.splits)

lemma sim_fields: "sim p t t' \<Longrightarrow> t\<lparr>rt_irs := None\<rparr> = t'\<lparr>rt_irs := None\<rparr>"
  by (simp add: sim_def)

lemma simI:
  "t\<lparr>rt_irs := None\<rparr> = t'\<lparr>rt_irs := None\<rparr> \<Longrightarrow> p \<noteq> Idle \<Longrightarrow> (p = Wait_sar \<Longrightarrow> same_but_ttl t t') \<Longrightarrow> sim p t t'"
  by (simp add: sim_def)

lemma sim_req:
  assumes "sim p t t'"
  shows "rt_req t' = rt_req t" "rt_http_rc t' = rt_http_rc t"
  using sim_fields [OF assms] by (cases t; cases t'; simp)+

lemma get_failure_other:
  assumes "sim Wait_get t t'" and "on_get_reg_data_failure env rc t = (t1, as)"
  shows "\<exists>t1'. on_get_reg_data_failure (other_values env n s) rc t' = (t1', as) \<and> sim (phase_after Wait_get as) t1 t1'"
proof (cases "rc = NOT_FOUND \<and> rq_method (rt_req t) = METHOD_PUT")
  case True
  let ?new = "\<lambda>n s. Some (set_reg_state NOT_REGISTERED (new_mirs n s))"
  have "process_received_reg_data env (t\<lparr>rt_irs := ?new (e_any_ttl env) (e_any_state env)\<rparr>) = (t1, as)"
    using assms(2) True by (simp add: on_get_reg_data_failure_def)
  from process_new_ttl [OF refl refl this, of n s Wait_get] True obtain t1' where
    "process_received_reg_data env (t\<lparr>rt_irs := ?new n s\<rparr>) = (t1', as)"
    "t1\<lparr>rt_irs := None\<rparr> = t1'\<lparr>rt_irs := None\<rparr>" "phase_after Wait_get as = Wait_sar \<longrightarrow> same_but_ttl t1 t1'"
    by auto
  then show ?thesis
    using True sim_irs [OF assms(1)] sim_req [OF assms(1)] phase_after_not_Idle [of Wait_get as]
    by (simp add: on_get_reg_data_failure_def sim_def)
next
  case False
  then show ?thesis
    using assms(2) sim_req [OF assms(1)] sim_fields [OF assms(1)]
    by (auto simp: on_get_reg_data_failure_def intro: simI split: if_splits)
qed

lemma handle_other:
  assumes "sim p t t'" and "awaits p ev = Some p1" and "handle env ev t = (t1, as)"
    and "p = Wait_sar \<longrightarrow> rt_irs t \<noteq> None"
  shows "\<exists>t1'. handle (other_values env n s) ev t' = (t1', as) \<and> sim (phase_after p1 as) t1 t1'"
proof (cases p)
  case Idle
  then have "t' = t" using assms(1) by (simp add: sim_def)
  then show ?thesis using Idle assms(2,3) by (cases ev) auto
next
  case Wait_get
  then show ?thesis
    using assms(2,3) get_failure_other [of t t' env] assms(1) sim_irs [OF assms(1)]
    by (cases ev) (auto simp: on_get_reg_data_success_def split: if_splits)
next
  case Wait_sar
  then obtain saa where ev: "ev = Sar_response saa" "p1 = Wait_sar"
    using assms(2) by (cases ev) auto
  obtain irs where irs: "rt_irs t = Some irs" using Wait_sar assms(4) by auto
  have sar: "on_sar_response env saa t = (t1, as)" using assms(3) ev by simp
  have "same_but_ttl t t'" using assms(1) Wait_sar by (simp add: sim_def)
  from sar_response_other [OF this sar irs] obtain t1' where
    "on_sar_response env saa t' = (t1', as)" "t1\<lparr>rt_irs := None\<rparr> = t1'\<lparr>rt_irs := None\<rparr>" by blast
  then show ?thesis
    using ev sar_moves_on [OF sar irs] phase_after_not_Idle [of Wait_sar as] by (auto intro: simI)
next
  case Wait_put
  then show ?thesis
    using assms(2,3) sim_irs [OF assms(1)] sim_fields [OF assms(1)]
    by (cases ev) (auto simp: task_simps intro: simI split: if_splits)
next
  case Wait_del
  then show ?thesis
    using assms(2,3) sim_irs [OF assms(1)]
    by (cases ev) (auto simp: task_simps split: if_splits)
next
  case Wait_put_done
  then show ?thesis
    using assms(2,3) sim_fields [OF assms(1)]
    by (cases ev) (auto simp: task_simps intro: simI)
next
  case Wait_del_done
  then show ?thesis
    using assms(2,3) sim_fields [OF assms(1)]
    by (cases ev) (auto simp: task_simps intro: simI)
next
  case Done
  then show ?thesis using assms(2) by (cases ev) auto
qed

lemma run_other:
  assumes "reg_run env req evs (p, t, acts)" and "6 \<le> length (rq_full_path req)"
  shows "\<exists>t'. reg_run (other_values env n s) req evs (p, t', acts) \<and> sim p t t'"
  using assms(1)
proof (induction evs "(p, t, acts)" arbitrary: p t acts rule: reg_run.induct)
  case start
  then show ?case using reg_run.start sim_refl by blast
next
  case (more evs s1 ev)
  obtain p0 t0 acts0 where s1: "s1 = (p0, t0, acts0)" by (cases s1)
  from more.hyps(2) [OF s1] obtain t0' where
    run: "reg_run (other_values env n s) req evs (p0, t0', acts0)" and sim: "sim p0 t0 t0'" by blast
  obtain p1 as where step: "awaits p0 ev = Some p1" "handle env ev t0 = (t, as)"
    "p = phase_after p1 as" "acts = acts0 @ as"
    using more.hyps(3) unfolding s1 by (auto elim: reg_step.cases)
  have "p0 = Wait_sar \<longrightarrow> rt_irs t0 \<noteq> None"
    using reg_run_inv [OF more.hyps(1) [unfolded s1] assms(2)] by (auto simp: reg_inv_def phase_inv_def)
  from handle_other [OF sim step(1,2) this] obtain t1' where
    "handle (other_values env n s) ev t0' = (t1', as)" "sim p t t1'" using step(3) by blast
  then show ?case
    using reg_run.more [OF run reg_step.step [OF step(1)]] step(3,4) by blast
qed

text \<open>
  C29: the members that the constructor of a new registration set leaves without a value, its TTL and
  its registration state, have no effect. For any other values there is a run with the same callbacks, in which the task
  is in the same phase and has done the same.
\<close>

theorem unset_members_unused:
  assumes "reg_run env req evs (p, t, acts)" and "6 \<le> length (rq_full_path req)"
  shows "\<exists>t'. reg_run (env\<lparr>e_any_ttl := n, e_any_state := s\<rparr>) req evs (p, t', acts)"
  using run_other [OF assms] by blast

theorem unset_members_unused_witness:
  "\<exists>t acts t'. reg_run sample_reg_env (sample_put ''reg'') sample_events (Done, t, acts) \<and>
     reg_run (sample_reg_env\<lparr>e_any_ttl := 12345, e_any_state := REGISTERED\<rparr>) (sample_put ''reg'') sample_events (Done, t', acts)"
proof -
  obtain t acts where run: "reg_run sample_reg_env (sample_put ''reg'') sample_events (Done, t, acts)"
    using sample_exec by (auto simp: reg_run_exec)
  from unset_members_unused [OF run sample_path] show ?thesis using run by blast
qed

end
