(* ===== verification/Service_Properties.thy ===== *)
theory Service_Properties
  imports Service Reg_Data_Decisions
begin

text \<open>
  Properties of requests served by the whole of the program: the HTTP replies, and what the HSS is told of
  its own requests.
\<close>



text \<open>
  C23: once Sprout has accepted a push profile, the HSS is told that it was stored, whatever the stores
  report: the result of writing the sets is not looked at. And of a subscriber with several
  registration sets only the one that the cache finds first is in the subscription that is updated.
\<close>

theorem push_profile_always_reported:
  assumes "serve_ppr env cache ppr w = Some ((p, t, acts), w2)" and "PutImsSubscription sub' \<in> set acts"
    and "D = x_diameter env"
  shows "SendAnswer (cx_PushProfileAnswer ppr DIAMETER_REQ_SUCCESS (dm_auth_session_state D ppr)) \<in> set acts \<and>
    length sub' \<le> 1 \<and>
    (\<exists>sub w1. get_ims_subscription cache (dm_impi D ppr) w = ((OK, Some sub), w1) \<and>
       sub' = omap_map (push_profile (x_xml env) (cx_user_data D ppr) (cx_ppr_charging_addrs D ppr)) sub)"
proof -
  obtain sub w1 t1 acts1 where got: "get_ims_subscription cache (dm_impi D ppr) w = ((OK, Some sub), w1)"
    and run: "task_run cx_awaits (ppr_handle env) cx_after Cx_idle (new_ppr_task ppr) [Cx_run, Found sub] (Cx_update, t1, acts1)"
    and acts: "acts = acts1 @ send_ppa env t1 DIAMETER_REQ_SUCCESS @ [EndTask]"
    using ppr_saved [OF assms(1,2)] assms(3) by blast
  note sub = subscription_one_set [OF got]
  note shape = ppr_found_acts [OF run conjunct1 [OF sub] assms(3) refl refl refl]
  have "PutImsSubscription sub' \<in> set acts1" using assms(2) acts by simp
  then have "sub' = omap_map (push_profile (x_xml env) (cx_user_data D ppr) (cx_ppr_charging_addrs D ppr)) sub"
    using shape by (auto split: option.splits if_splits)
  then show ?thesis
    using got sub shape acts assms(3) by (auto simp: send_ppa_def omap_map_def)
qed

text \<open>
  C24: a registration termination that names public identities deletes one registration set only, even
  when it names identities of several: the lookup stops at the first that is found.
\<close>

theorem termination_reaches_one_set:
  assumes "serve_rtr env cache rtr w = Some ((p, t, acts), w2)" and "DeleteIrss irss \<in> set acts"
    and "cx_impus (x_diameter env) rtr = impus" and "impus \<noteq> []"
    and "cx_deregistration_reason (x_diameter env) rtr \<in> {PERMANENT_TERMINATION, REMOVE_SCSCF}"
  shows "length irss = 1 \<and>
    (\<exists>w1. get_irss_for_impus (get_implicit_registration_set_for_impu cache) impus [] w = ((OK, irss), w1))"
proof -
  obtain w1 where resp: "rtr_respond cache (hd acts) w = Some ([Found irss], w1)" "irss \<noteq> []"
    and run: "task_run cx_awaits (rtr_handle env) cx_after Cx_idle (new_rtr_task rtr) [Cx_run, Found irss] (Cx_update, t, butlast acts)"
    using rtr_deleted [OF assms(1,2)] by blast
  obtain t1 as bs where r: "rtr_run env (new_rtr_task rtr) = (t1, as)" "butlast acts = as @ bs"
    using run_found [OF run] by auto
  have as: "as = [GetIrssForImpus impus]"
    using r(1) assms(3-5) by (auto simp: rtr_run_def new_rtr_task_def reason_defs Let_def)
  then have "hd acts = GetIrssForImpus impus"
    using r(2) by (cases acts) (auto split: if_splits)
  then have "\<exists>w1. get_irss_for_impus (get_implicit_registration_set_for_impu cache) impus [] w = ((OK, irss), w1)"
    using resp(1) by (auto simp: run_lookup_def split: prod.splits if_splits)
  then show ?thesis
    using irss_for_impus_one resp(2) by (metis One_nat_def Suc_leI le_antisym length_greater_0_conv)
qed

definition two_impus_rtr :: ref_msg where
  "two_impus_rtr = ref_received
     (cx_RegistrationTerminationRequest PERMANENT_TERMINATION ''i'' [] [''sip:a'', ''sip:b''] 1)"

lemma two_impus_reads:
  "cx_deregistration_reason ref_diameter two_impus_rtr = PERMANENT_TERMINATION"
  "cx_impus ref_diameter two_impus_rtr = [''sip:a'', ''sip:b'']"
  by (simp_all add: two_impus_rtr_def cx_RegistrationTerminationRequest_def associated_identities_part_def
      cx_deregistration_reason_def cx_impus_def dm_first_def ref_diameter_def
      ref_begin_def ref_first_def str_avp_def i32_avp_def reason_defs)

lemma two_impus_served:
  "\<exists>p t acts w2. serve_rtr sample_cx_env still_cache two_impus_rtr 0 = Some ((p, t, acts), w2) \<and>
     DeleteIrss [still_irs ''sip:a''] \<in> set acts"
proof -
  have D: "x_diameter sample_cx_env = ref_diameter" by (simp add: sample_cx_env_def)
  obtain t0 where run: "rtr_run sample_cx_env (new_rtr_task two_impus_rtr) = (t0, [GetIrssForImpus [''sip:a'', ''sip:b'']])"
    by (simp add: rtr_run_def new_rtr_task_def D two_impus_reads reason_defs Let_def)
  obtain t1 as where found: "get_registration_sets_success sample_cx_env [still_irs ''sip:a''] t0 =
      (t1, as @ [DeleteIrss [still_irs ''sip:a'']])" "cx_after Cx_get (as @ [DeleteIrss [still_irs ''sip:a'']]) = Cx_update"
    by (simp add: get_registration_sets_success_def Let_def case_prod_unfold split: option.split)
  obtain irss where del: "delete_implicit_registration_sets still_cache [still_irs ''sip:a''] (\<lambda>w. w) 0 = Some (OK, irss, 0)"
    using still_delete by blast
  let ?serve = "serve cx_awaits (rtr_handle sample_cx_env) cx_after Cx_done (rtr_respond still_cache)"
  have "serve_rtr sample_cx_env still_cache two_impus_rtr 0 = ?serve (Cx_get, t0, [GetIrssForImpus [''sip:a'', ''sip:b'']]) 0"
    by (simp add: serve_rtr_def run)
  also have "\<dots> = ?serve (Cx_update, t1, [GetIrssForImpus [''sip:a'', ''sip:b'']] @ as @ [DeleteIrss [still_irs ''sip:a'']]) 0"
    by (rule serve_step [where evs = "[Found [still_irs ''sip:a'']]"]) (simp_all add: run_lookup_def still_lookups found)
  also have "\<dots> = ?serve (Cx_done, t1, ([GetIrssForImpus [''sip:a'', ''sip:b'']] @ as @ [DeleteIrss [still_irs ''sip:a'']]) @ [EndTask]) 0"
    by (rule serve_step [where evs = "[Progress, Updated]"])
      (simp_all add: run_update_def del delete_reg_sets_progress_def delete_reg_sets_success_def)
  finally show ?thesis by (simp add: serve_final)
qed

theorem termination_reaches_one_set_witness:
  "\<exists>p t acts w2. serve_rtr sample_cx_env still_cache two_impus_rtr 0 = Some ((p, t, acts), w2) \<and>
     DeleteIrss [still_irs ''sip:a''] \<in> set acts \<and> length [still_irs ''sip:a''] = 1 \<and>
     get_implicit_registration_set_for_impu still_cache ''sip:b'' 0 = ((OK, Some (still_irs ''sip:b'')), 0)"
proof -
  obtain p t acts w2 where served: "serve_rtr sample_cx_env still_cache two_impus_rtr 0 = Some ((p, t, acts), w2)"
    "DeleteIrss [still_irs ''sip:a''] \<in> set acts"
    using two_impus_served by blast
  have "x_diameter sample_cx_env = ref_diameter" by (simp add: sample_cx_env_def)
  with termination_reaches_one_set [OF served, of "[''sip:a'', ''sip:b'']"] served still_get [of "''sip:b''" 0]
  show ?thesis by (auto simp: two_impus_reads)
qed

text \<open>The same store, refusing to write default IMPUs.\<close>

definition failing_store :: "nat impu_ops" where
  "failing_store = still_store\<lparr>op_set_impu := (\<lambda>i w. (ERROR, w))\<rparr>"

definition failing_cache :: "nat memcached_cache" where
  "failing_cache = still_cache\<lparr>c_local := failing_store\<rparr>"

lemma failing_get:
  "get_ims_subscription failing_cache impi w = ((OK, Some [(''sip:a'', still_irs ''sip:a'')]), w)"
proof -
  have "get_implicit_registration_set_for_impu failing_cache k w = ((OK, Some (still_irs k)), w)" for k
    by (simp add: get_implicit_registration_set_for_impu_def get_impu_for_impu_gr_def failing_cache_def failing_store_def
        still_irs_def mirs_of_impu_def case_prod_unfold)
  then show ?thesis
    by (simp add: get_ims_subscription_def get_impi_mapping_gr_def get_irss_for_impus_def BaseImsSubscription_def)
      (simp add: failing_cache_def failing_store_def still_store_def get_irss_for_impus_def BaseImsSubscription_def still_irs_eq)
qed

definition pushed_sample :: mirs where
  "pushed_sample = set_ims_sub_xml ref_xml ''sip:a sip:c'' (still_irs ''sip:a'')"

lemma failing_put:
  "put_irs_action (c_clk failing_cache) failing_store pushed_sample w = Some (ERROR, pushed_sample, w)"
proof -
  have "m_existing pushed_sample" "m_store pushed_sample = Some 2"
    by (simp_all add: pushed_sample_def set_ims_sub_xml_def still_irs_eq Let_def split: prod.split)
  then show ?thesis
    by (simp add: put_irs_action_def update_irs_impu_def perform_irs_impu_action_def get_impu_for_store_def
        irs_impu_loop.simps irs_impu_pass_def create_impu_def failing_cache_def failing_store_def case_prod_unfold Let_def)
qed

theorem push_profile_always_reported_witness:
  "\<exists>p t acts w2. serve_ppr sample_cx_env failing_cache sample_ppr 0 = Some ((p, t, acts), w2) \<and>
     put_irs_action (c_clk failing_cache) (c_local failing_cache) pushed_sample 0 = Some (ERROR, pushed_sample, 0) \<and>
     SendAnswer (cx_PushProfileAnswer sample_ppr DIAMETER_REQ_SUCCESS (dm_auth_session_state ref_diameter sample_ppr)) \<in> set acts"
proof -
  have D: "x_diameter sample_cx_env = ref_diameter" "x_xml sample_cx_env = ref_xml" "x_http sample_cx_env r = Named HTTP_OK" for r
    by (simp_all add: sample_cx_env_def)
  have ids: "get_default_id ref_xml ''sip:a sip:c'' '''' = ''sip:a''"
    by (simp add: get_default_id_def get_public_and_default_ids_eq ref_listed c_str_def)
  obtain t0 where run: "ppr_run sample_cx_env (new_ppr_task sample_ppr) = (t0, [GetImsSubscription ''i''])"
    "q_ims_sub_present t0" "q_ims_subscription t0 = ''sip:a sip:c''" "\<not> q_charging_addrs_present t0"
    by (simp add: ppr_run_def new_ppr_task_def D sample_ppr_reads)
  let ?sub = "[(''sip:a'', pushed_sample)]"
  obtain t1 req where found: "on_get_ims_sub_success sample_cx_env [(''sip:a'', still_irs ''sip:a'')] t0 =
      (t1, [ToSprout req, PutImsSubscription ?sub])"
    by (simp add: on_get_ims_sub_success_def run D ids get_irs_for_default_impu_def change_associated_identities_def
        save_ims_sub_def pushed_sample_def Let_def)
  have put: "put_ims_subscription failing_cache ?sub (\<lambda>w. w) 0 = Some (OK, ?sub, 0)"
    using failing_put by (simp add: put_ims_subscription_def perform_def put_ims_sub_action_def) (simp add: failing_cache_def)
  let ?serve = "serve cx_awaits (ppr_handle sample_cx_env) cx_after Cx_done (ppr_respond failing_cache)"
  have "serve_ppr sample_cx_env failing_cache sample_ppr 0 = ?serve (Cx_get, t0, [GetImsSubscription ''i'']) 0"
    by (simp add: serve_ppr_def run)
  also have "\<dots> = ?serve (Cx_update, t1, [GetImsSubscription ''i'', ToSprout req, PutImsSubscription ?sub]) 0"
    by (rule serve_step [where evs = "[Found [(''sip:a'', still_irs ''sip:a'')]]"])
      (simp_all add: run_lookup_def failing_get found)
  also have "\<dots> = ?serve (Cx_done, t1, [GetImsSubscription ''i'', ToSprout req, PutImsSubscription ?sub] @
      send_ppa sample_cx_env t1 DIAMETER_REQ_SUCCESS @ [EndTask]) 0"
    by (rule serve_step [where evs = "[Progress, Updated]"])
      (simp_all add: run_update_def put on_save_ims_sub_progress_def on_save_ims_sub_success_def)
  finally obtain acts where served: "serve_ppr sample_cx_env failing_cache sample_ppr 0 = Some ((Cx_done, t1, acts), 0)"
    "PutImsSubscription ?sub \<in> set acts"
    by (simp add: serve_final)
  from push_profile_always_reported [OF served D(1) [symmetric]] served failing_put
  show ?thesis by (intro exI conjI) (auto simp: failing_cache_def)
qed

section \<open>Wildcards\<close>

text \<open>The loop between the cache and the HSS: the task is looking a wildcard up, or asking about it.\<close>

definition in_wildcard_loop :: "phase \<times> reg_task \<times> 'x action list \<Rightarrow> bool" where
  "in_wildcard_loop s =
     (case s of (p, t, acts) \<Rightarrow>
        rq_method (rt_req t) = METHOD_PUT \<and> rt_type t \<noteq> TYPE_UNKNOWN \<and> \<not> is_deregistration_request (rt_type t) \<and>
        (p = Wait_get \<and> (\<exists>i. last acts = CacheGet i) \<or>
         p = Wait_sar \<and> (\<exists>r. last acts = SendSAR r \<and> sar_wildcard_impu r = wildcard_id t)))"

lemma new_set_asks:
  assumes "rq_method (rt_req t) = METHOD_PUT" and "rt_type t \<noteq> TYPE_UNKNOWN" and "\<not> is_deregistration_request (rt_type t)"
  shows "\<exists>t1 r. on_get_reg_data_failure env NOT_FOUND t = (t1, [SendSAR r]) \<and> rt_req t1 = rt_req t \<and>
    rt_type t1 = rt_type t \<and> wildcard_id t1 = wildcard_id t \<and> sar_wildcard_impu r = wildcard_id t"
  using assms process_new [OF refl assms(1) refl, where env = env and n = "e_any_ttl env" and s = "e_any_state env"]
  by (cases "rt_type t")
    (simp_all add: on_get_reg_data_failure_def send_server_assignment_request_def wildcard_id_def)

lemma new_wildcard_looks_up:
  assumes "saa_result saa = RC_NEW_WILDCARD" and "saa_wildcard_impu saa \<noteq> wildcard_id t"
  shows "\<exists>t1 i. on_sar_response env saa t = (t1, [CacheGet i]) \<and> rt_req t1 = rt_req t \<and> rt_type t1 = rt_type t"
  using assms by (simp add: on_sar_response_eq get_reg_data_def)

lemma wildcard_loop_step:
  assumes found: "\<And>impu w. \<exists>w1. get_implicit_registration_set_for_impu cache impu w = ((NOT_FOUND, None), w1)"
    and hss: "\<And>r w. saa_result (fst (hss r w)) = RC_NEW_WILDCARD \<and> saa_wildcard_impu (fst (hss r w)) \<noteq> sar_wildcard_impu r"
    and loop: "in_wildcard_loop s" and resp: "reg_respond cache hss (last (snd (snd s))) w = Some (evs, w1)"
    and exec: "task_exec awaits (handle env) phase_after evs s = Some s1"
  shows "in_wildcard_loop s1"
proof -
  obtain p t acts where s: "s = (p, t, acts)" by (cases s)
  note t = loop [unfolded in_wildcard_loop_def s prod.case]
  from t consider (get) i where "p = Wait_get" "last acts = CacheGet i"
    | (sar) r where "p = Wait_sar" "last acts = SendSAR r" "sar_wildcard_impu r = wildcard_id t" by blast
  then show ?thesis
  proof cases
    case get
    obtain w2 where "get_implicit_registration_set_for_impu cache i w = ((NOT_FOUND, None), w2)" using found by blast
    then have "evs = [Get_failure NOT_FOUND]" using resp get s by (simp add: run_lookup_def)
    then show ?thesis using exec get s t new_set_asks [of t env] by (auto simp: in_wildcard_loop_def)
  next
    case sar
    obtain saa w2 where h: "hss r w = (saa, w2)" by fastforce
    then have "evs = [Sar_response saa]" using resp sar s by simp
    moreover have "saa_result saa = RC_NEW_WILDCARD" "saa_wildcard_impu saa \<noteq> wildcard_id t"
      using hss [of r w] h sar(3) by auto
    ultimately show ?thesis
      using exec sar s t new_wildcard_looks_up [of saa t env] by (auto simp: in_wildcard_loop_def)
  qed
qed

lemma run_enters_loop:
  assumes "rq_method req = METHOD_PUT" and "path_id (rq_full_path req) \<noteq> None"
    and "request_type_from_body (e_ext env) (rq_body req) \<in> {TYPE_REG, TYPE_CALL, TYPE_DEREG_AUTH_FAIL, TYPE_DEREG_AUTH_TIMEOUT}"
  shows "\<exists>s. task_exec awaits (handle env) phase_after [Run] (Idle, new_reg_task req, []) = Some s \<and> in_wildcard_loop s"
  using assms by (auto simp: reg_data_run_def new_reg_task_def get_reg_data_def in_wildcard_loop_def Let_def)

text \<open>
  C28: an HSS that answers every request with a wildcard other than the one it was asked about keeps the
  task for ever: as long as the cache has no set for the wildcards, the task looks up the new one, finds
  nothing and asks again, and the client never gets a reply. The only check is against the wildcard of the last request.
\<close>

theorem wildcards_for_ever:
  assumes "rq_method req = METHOD_PUT" and "path_id (rq_full_path req) \<noteq> None"
    and "request_type_from_body (e_ext env) (rq_body req) \<in> {TYPE_REG, TYPE_CALL, TYPE_DEREG_AUTH_FAIL, TYPE_DEREG_AUTH_TIMEOUT}"
    and "\<And>impu w. \<exists>w1. get_implicit_registration_set_for_impu cache impu w = ((NOT_FOUND, None), w1)"
    and "\<And>r w. saa_result (fst (hss r w)) = RC_NEW_WILDCARD \<and> saa_wildcard_impu (fst (hss r w)) \<noteq> sar_wildcard_impu r"
  shows "serve_reg_data env cache hss req w = None"
proof -
  obtain s where s: "task_exec awaits (handle env) phase_after [Run] (Idle, new_reg_task req, []) = Some s" "in_wildcard_loop s"
    using run_enters_loop [OF assms(1-3)] by blast
  have "serve awaits (handle env) phase_after Done (reg_respond cache hss) s w = None"
  proof (rule serve_never [where I = "\<lambda>s w. in_wildcard_loop s"])
    show "in_wildcard_loop s" by fact
    show "fst s \<noteq> Done" if "in_wildcard_loop s" for s :: "'c reg_state" using that by (auto simp: in_wildcard_loop_def)
  qed (rule wildcard_loop_step [OF assms(4,5)])
  then show ?thesis using s(1) by (simp add: serve_reg_data_def del: task_exec.simps)
qed

text \<open>A store that never finds anything, and an HSS that alternates between two wildcards.\<close>

definition blank_cache :: "nat memcached_cache" where
  "blank_cache = still_cache\<lparr>c_local := still_store\<lparr>op_get_impu := (\<lambda>k w. ((NOT_FOUND, None), w))\<rparr>\<rparr>"

definition fickle_hss :: "nat hss" where
  "fickle_hss r w = ((saa_of_rc RC_NEW_WILDCARD)\<lparr>saa_wildcard_impu :=
     (if sar_wildcard_impu r = ''sip:!a!'' then ''sip:!b!'' else ''sip:!a!'')\<rparr>, w)"

theorem wildcards_for_ever_witness:
  "serve_reg_data sample_reg_env blank_cache fickle_hss (sample_put ''reg'') 0 = None"
proof -
  have put: "rq_method (sample_put ''reg'') = METHOD_PUT" "path_id (rq_full_path (sample_put ''reg'')) \<noteq> None"
    "e_ext sample_reg_env = ref_ext"
    by (simp_all add: sample_put_def path_id_def sample_reg_env_def)
  show ?thesis
    by (rule wildcards_for_ever)
      (simp_all add: put sample_types saa_of_rc_def fickle_hss_def blank_cache_def still_cache_def
        get_implicit_registration_set_for_impu_def get_impu_for_impu_gr_def)
qed

end
