(* ===== verification/Deregistration.thy ===== *)
theory Deregistration
  imports Service
begin

text \<open>
  The way of a deregistration through the whole of the program, the counterpart of the registration in theory
  Service: the set is read from the local store, the HSS is told, and the set is deleted. The results: the identities of
  the set are not found any more, whatever the HSS thinks of the request, unless it cannot be reached.
\<close>

section \<open>Reading the set\<close>

context impu_repository
begin

lemma get_default_kept:
  assumes "good e s" and "c_local cache = ops e s" and "c_clk cache = time e"
    and "r_impu (view e w) (sid e s) k = (OK, Some (DefaultImpu d))"
  shows "\<exists>w'. get_implicit_registration_set_for_impu cache k w =
    ((OK, Some (fst (mirs_of_impu (\<lambda>x. (r_now (view e w), x)) d w))), w') \<and> view e w' = view e w"
proof -
  obtain w1 where w1: "get_impu_for_impu_gr cache k w = ((OK, Some (DefaultImpu d)), w1)" "view e w1 = view e w"
    using gr_local [OF assms(1,2,4)] by blast
  obtain t w2 where t: "time e w1 = (t, w2)" by fastforce
  then have "t = r_now (view e w)" "view e w2 = view e w"
    using time_law [OF assms(1), of w1] w1(2) by simp_all
  then show ?thesis
    using t by (simp add: get_implicit_registration_set_for_impu_def w1(1) assms(3) mirs_of_impu_def Let_def)
qed

end

section \<open>The task\<close>

definition dereg_request :: "('w, 'j, 'x) reg_env \<Rightarrow> http_request \<Rightarrow> string \<Rightarrow> bool" where
  "dereg_request env req impu \<longleftrightarrow>
     rq_method req = METHOD_PUT \<and> is_deregistration_request (request_type_from_body (e_ext env) (rq_body req)) \<and>
     wildcard_from_body (e_ext env) (rq_body req) = '''' \<and>
     map_option (e_url_unescape env) (path_id (rq_full_path req)) = Some impu"

lemma dereg_run:
  assumes "dereg_request env req impu"
  shows "\<exists>t. reg_data_run env (new_reg_task req) = (t, [CacheGet impu]) \<and> rt_req t = req \<and>
    rt_type t = request_type_from_body (e_ext env) (rq_body req) \<and> rt_http_rc t = HTTP_OK"
  using assms
  by (auto simp: dereg_request_def reg_data_run_def new_reg_task_def get_reg_data_def public_id_def
      wildcard_id_def Let_def)

lemma dereg_asks:
  assumes "rq_method (rt_req t) = METHOD_PUT" and "is_deregistration_request (rt_type t)"
    and "m_registration_state irs \<noteq> NOT_REGISTERED"
  shows "\<exists>t1 r. on_get_reg_data_success env irs t = (t1, [SendSAR r]) \<and>
    rt_irs t1 = Some (set_reg_state NOT_REGISTERED irs) \<and> rt_type t1 = rt_type t \<and>
    sar_type r = sar_type_for_request (rt_type t)"
proof -
  obtain impi nb where "binding_of (e_xml env) irs (rt_impi t) = (impi, nb)" by fastforce
  then show ?thesis
    using assms
    by (cases "rt_type t")
      (auto simp: on_get_reg_data_success_def process_received_reg_data_def send_server_assignment_request_def Let_def)
qed

lemma dereg_deletes:
  assumes "rt_irs t = Some irs" and "is_deregistration_request (rt_type t)"
    and "saa_result saa \<notin> {RC_SERVER_UNAVAILABLE, RC_NEW_WILDCARD}"
  shows "\<exists>t1 ps. on_sar_response env saa t = (t1, ps @ [CacheDelete irs]) \<and> rt_irs t1 = Some irs \<and>
    replies ps = [] \<and> (\<forall>p. phase_after p (ps @ [CacheDelete irs]) = Wait_del)"
  using assms
  by (cases "saa_result saa") (auto simp: on_sar_response_eq update_cache_for_saa_def saved_code_def Let_def)

lemma delete_local_respond:
  assumes "delete_irs_action (c_clk cache) (c_local cache) irs w = Some (OK, irs', w1)" and "c_remotes cache = []"
    and "m_existing irs"
  shows "reg_respond cache hss (CacheDelete irs) w = Some ([Del_progress irs', Del_success], w1)"
  using assms
  by (simp add: delete_implicit_registration_set_def perform_def run_update_def after_local_def)

text \<open>From the set that was read to the end of the task.\<close>

lemma dereg_served:
  assumes req: "dereg_request env req impu" and "c_remotes cache = []"
    and get: "get_implicit_registration_set_for_impu cache impu w = ((OK, Some irs), w1)"
    and "m_registration_state irs \<noteq> NOT_REGISTERED" and "m_existing irs"
    and del: "delete_irs_action (c_clk cache) (c_local cache) (set_reg_state NOT_REGISTERED irs) w1 = Some (OK, irs', w2)"
    and hss: "hss = (\<lambda>r. Pair saa)" and "saa_result saa \<notin> {RC_SERVER_UNAVAILABLE, RC_NEW_WILDCARD}"
  shows "\<exists>t acts r. serve_reg_data env cache hss req w = Some ((Done, t, acts), w2) \<and> length (replies acts) = 1 \<and>
    SendSAR r \<in> set acts \<and> sar_type r = sar_type_for_request (request_type_from_body (e_ext env) (rq_body req))"
proof -
  let ?irs = "set_reg_state NOT_REGISTERED irs"
  obtain t where t: "reg_data_run env (new_reg_task req) = (t, [CacheGet impu])" "rt_req t = req"
    "rt_type t = request_type_from_body (e_ext env) (rq_body req)"
    using dereg_run [OF req] by blast
  have put: "rq_method (rt_req t) = METHOD_PUT" "is_deregistration_request (rt_type t)"
    using req t by (simp_all add: dereg_request_def)
  obtain t1 r where t1: "on_get_reg_data_success env irs t = (t1, [SendSAR r])" "rt_irs t1 = Some ?irs"
    "rt_type t1 = rt_type t" "sar_type r = sar_type_for_request (rt_type t)"
    using dereg_asks [OF put assms(4)] by blast
  obtain t2 ps where t2: "on_sar_response env saa t1 = (t2, ps @ [CacheDelete ?irs])" "replies ps = []"
    "\<And>p. phase_after p (ps @ [CacheDelete ?irs]) = Wait_del"
    using dereg_deletes [OF t1(2) _ assms(8)] put(2) t1(3) by metis
  obtain code content where reply: "send_reply env (t2\<lparr>rt_irs := Some irs'\<rparr>) = [SendHttpReply code content]"
    using send_reply_one [of "t2\<lparr>rt_irs := Some irs'\<rparr>" env] by auto
  have ex: "m_existing ?irs" using assms(5) by (simp add: set_reg_state_def)
  let ?serve = "serve awaits (handle env) phase_after Done (reg_respond cache hss)"
  let ?acts = "[CacheGet impu, SendSAR r] @ ps @ [CacheDelete ?irs]"
  have "serve_reg_data env cache hss req w = ?serve (Wait_get, t, [CacheGet impu]) w"
    by (simp add: serve_reg_data_def t)
  also have "\<dots> = ?serve (Wait_sar, t1, [CacheGet impu, SendSAR r]) w1"
    by (rule serve_step [where evs = "[Get_success irs]"]) (simp_all add: run_lookup_def get t1)
  also have "\<dots> = ?serve (Wait_del, t2, ?acts) w1"
    by (rule serve_step [where evs = "[Sar_response saa]"]) (simp_all add: hss t2)
  also have "\<dots> = ?serve (Done, t2\<lparr>rt_irs := Some irs'\<rparr>, ?acts @ [SendHttpReply code content, DeleteTask]) w2"
    by (rule serve_step [where evs = "[Del_progress irs', Del_success]"])
      (simp_all add: delete_local_respond [OF del assms(2) ex] reply task_simps del: reg_respond.simps)
  also have "\<dots> = Some ((Done, t2\<lparr>rt_irs := Some irs'\<rparr>, ?acts @ [SendHttpReply code content, DeleteTask]), w2)"
    by (rule serve_final)
  finally show ?thesis
    using t1(4) t(3) t2(2) by auto
qed


text \<open>The sample registration as it is in the store, and a request to end it that the HSS does not answer in time.\<close>

definition stored_default :: default_impu where
  "stored_default = \<lparr>i_impu = ''sip:a'', i_cas = 1, i_expiry = 7300, i_store = Some 2,
     d_registration_state = REGISTERED, d_charging_addresses = no_charging,
     d_associated_impus = [''sip:b''], d_impis = [''i''], d_service_profile = ''sip:a sip:b''\<rparr>"

definition registered_world :: ref_world where
  "registered_world =
     \<lparr>rw_data = [((2, ''impu'', ''sip:a''), (snd (to_data ref_ext (DefaultImpu (irs_record 100 registered_sample 0 None))), 1)),
        ((2, ''impu'', ''sip:b''), (snd (to_data ref_ext (AssociatedImpu (assoc_record 100 registered_sample 2 ''sip:b''))), 1))],
      rw_cas = 1, rw_time = 100\<rparr>"

lemma ref_read:
  assumes "ims_fits (ref_ext, ref_contents) t i"
    and "map_of (rw_data w) (n, ''impu'', impu_key i) = Some (snd (to_data ref_ext i), 1)"
  shows "r_impu (ims_view (ref_ext, ref_contents) w) n (impu_key i) = (OK, Some (stored_view 1 (Some n) i))"
proof -
  have "codec_contract ref_ext" using ref_good by (auto simp: ims_good_def)
  from from_data_to_data [OF this, of i "snd (to_data ref_ext i)"] assms
  have "from_data ref_ext (impu_key i) (snd (to_data ref_ext i)) 1 (Some n) = Some (stored_view 1 (Some n) i)"
    by (cases "to_data ref_ext i") (auto simp: ims_fits_def)
  then show ?thesis using assms(2) by (simp add: ims_view_def read_impu_def ref_contents_def)
qed

lemma registered_world_reads:
  "r_impu (ims_view (ref_ext, ref_contents) registered_world) 2 ''sip:a'' = (OK, Some (DefaultImpu stored_default))"
  "links_to (ims_view (ref_ext, ref_contents) registered_world) 2 ''sip:b'' ''sip:a''"
  "r_map (ims_view (ref_ext, ref_contents) registered_world) 2 ''i'' = (NOT_FOUND, None)"
  "clock ref_ext registered_world = 100"
  using ref_read [OF registered_sample_fits(1), of registered_world 2]
    ref_read [OF registered_sample_fits(2), of registered_world 2]
  by (simp_all add: registered_world_def registered_sample_record stored_default_def links_to_def stored_state_def)
    (simp_all add: ims_view_def read_mapping_def ref_contents_def clock_def ref_ext_def)

lemma sample_dereg_request: "dereg_request sample_reg_env (sample_put ''dereg-user'') ''sip:a''"
proof -
  have "wildcard_from_body ref_ext (rq_body (sample_put ''dereg-user'')) = ''''"
    by (simp add: wildcard_from_body_def sample_put_def body_reqtype [OF ref_json_contract] no_nul_def)
  then show ?thesis
    using sample_types(3)
    by (simp add: dereg_request_def sample_reg_env_def) (simp add: sample_put_def path_id_def)
qed


end
