(* ===== verification/Options.thy ===== *)
theory Options
  imports Prelude
begin

text \<open>
  The command line of \<open>src/main.cpp\<close>: \<open>struct options\<close>, the tables of options, \<open>init_logging_options\<close>
  and \<open>init_options\<close>, on top of glibc's \<open>getopt_long\<close> and \<open>atoi\<close>. Boost's and cpp-common's functions are the
  fields of \<open>startup_lib\<close>. The results: which command lines are rejected, and the ranges of the
  values of the others.
\<close>

section \<open>The command line\<close>

datatype has_arg = no_argument | required_argument

datatype OptionTypes =
    SCHEME_UNKNOWN | SCHEME_DIGEST | SCHEME_AKAV1 | SCHEME_AKAV2 | SAS_CONFIG | DIAMETER_TIMEOUT_MS
  | ALARMS_ENABLED | DNS_SERVER | TARGET_LATENCY_US | MAX_TOKENS | INIT_TOKEN_RATE | MIN_TOKEN_RATE
  | MAX_TOKEN_RATE | EXCEPTION_MAX_TTL | ASTAIRE_BLACKLIST_DURATION | HTTP_BLACKLIST_DURATION
  | DIAMETER_BLACKLIST_DURATION | DNS_TIMEOUT | FORCE_HSS_PEER | LOCAL_SITE_NAME | SAS_USE_SIGNALING_IF
  | REQUEST_SHARED_IFCS | PIDFILE | DAEMON | REG_MAX_EXPIRES | CASSANDRA_THREADS | RAM_RECORD_EVERYTHING

text \<open>The value of an option: a character, or a value above the characters.\<close>

datatype opt = Opt char | Typ OptionTypes

definition long_opt :: "(string \<times> has_arg \<times> opt) list" where
  "long_opt =
     [(''localhost'', required_argument, Opt CHR ''l''),
      (''home-domain'', required_argument, Opt CHR ''r''),
      (''diameter-conf'', required_argument, Opt CHR ''c''),
      (''dns-server'', required_argument, Typ DNS_SERVER),
      (''http'', required_argument, Opt CHR ''H''),
      (''http-threads'', required_argument, Opt CHR ''t''),
      (''cache-threads'', required_argument, Opt CHR ''u''),
      (''cassandra-threads'', required_argument, Typ CASSANDRA_THREADS),
      (''cassandra'', required_argument, Opt CHR ''S''),
      (''local-site-name'', required_argument, Typ LOCAL_SITE_NAME),
      (''impu-stores'', required_argument, Opt CHR ''M''),
      (''dest-realm'', required_argument, Opt CHR ''D''),
      (''dest-host'', required_argument, Opt CHR ''d''),
      (''hss-peer'', required_argument, Typ FORCE_HSS_PEER),
      (''max-peers'', required_argument, Opt CHR ''p''),
      (''server-name'', required_argument, Opt CHR ''s''),
      (''impu-cache-ttl'', required_argument, Opt CHR ''i''),
      (''hss-reregistration-time'', required_argument, Opt CHR ''I''),
      (''reg-max-expires'', required_argument, Typ REG_MAX_EXPIRES),
      (''sprout-http-name'', required_argument, Opt CHR ''j''),
      (''scheme-unknown'', required_argument, Typ SCHEME_UNKNOWN),
      (''scheme-digest'', required_argument, Typ SCHEME_DIGEST),
      (''scheme-akav1'', required_argument, Typ SCHEME_AKAV1),
      (''scheme-akav2'', required_argument, Typ SCHEME_AKAV2),
      (''access-log'', required_argument, Opt CHR ''a''),
      (''sas'', required_argument, Typ SAS_CONFIG),
      (''diameter-timeout-ms'', required_argument, Typ DIAMETER_TIMEOUT_MS),
      (''log-file'', required_argument, Opt CHR ''F''),
      (''log-level'', required_argument, Opt CHR ''L''),
      (''help'', no_argument, Opt CHR ''h''),
      (''target-latency-us'', required_argument, Typ TARGET_LATENCY_US),
      (''max-tokens'', required_argument, Typ MAX_TOKENS),
      (''init-token-rate'', required_argument, Typ INIT_TOKEN_RATE),
      (''min-token-rate'', required_argument, Typ MIN_TOKEN_RATE),
      (''max-token-rate'', required_argument, Typ MAX_TOKEN_RATE),
      (''exception-max-ttl'', required_argument, Typ EXCEPTION_MAX_TTL),
      (''astaire-blacklist-duration'', required_argument, Typ ASTAIRE_BLACKLIST_DURATION),
      (''http-blacklist-duration'', required_argument, Typ HTTP_BLACKLIST_DURATION),
      (''diameter-blacklist-duration'', required_argument, Typ DIAMETER_BLACKLIST_DURATION),
      (''dns-timeout'', required_argument, Typ DNS_TIMEOUT),
      (''pidfile'', required_argument, Typ PIDFILE),
      (''daemon'', no_argument, Typ DAEMON),
      (''sas-use-signaling-interface'', no_argument, Typ SAS_USE_SIGNALING_IF),
      (''request-shared-ifcs'', no_argument, Typ REQUEST_SHARED_IFCS),
      (''ram-record-everything'', no_argument, Typ RAM_RECORD_EVERYTHING)]"

definition options_description :: string where
  "options_description = ''l:r:c:H:t:u:S:D:d:p:s:i:I:a:F:L:h''"

text \<open>
  \<open>getopt_long\<close>, as the list of the results of its calls: the option and \<open>optarg\<close>, which is empty for an
  option without argument. A question mark is an unknown or ambiguous option, or a missing or
  unexpected argument. Long names may be shortened as long as one name only has the prefix.
  Other arguments are skipped, and \<open>--\<close> ends the options.
\<close>

fun short_opt :: "string \<Rightarrow> char \<Rightarrow> has_arg option" where
  "short_opt [] c = None"
| "short_opt [x] c = (if x = c \<and> c \<noteq> CHR '':'' then Some no_argument else None)"
| "short_opt (x # y # xs) c =
     (if x = c \<and> c \<noteq> CHR '':'' then Some (if y = CHR '':'' then required_argument else no_argument)
      else short_opt (y # xs) c)"

definition bad_opt :: "opt \<times> string" where
  "bad_opt = (Opt CHR ''?'', '''')"

fun getopt_short :: "string \<Rightarrow> string \<Rightarrow> string list \<Rightarrow> (opt \<times> string) list \<times> string list" where
  "getopt_short desc [] args = ([], args)"
| "getopt_short desc (c # cs) args =
     (case short_opt desc c of
        None \<Rightarrow> let (rs, rest) = getopt_short desc cs args in (bad_opt # rs, rest)
      | Some no_argument \<Rightarrow> let (rs, rest) = getopt_short desc cs args in ((Opt c, '''') # rs, rest)
      | Some required_argument \<Rightarrow>
          if cs \<noteq> [] then ([(Opt c, cs)], args)
          else case args of [] \<Rightarrow> ([bad_opt], []) | a # rest \<Rightarrow> ([(Opt c, a)], rest))"

definition find_long :: "(string \<times> has_arg \<times> opt) list \<Rightarrow> string \<Rightarrow> (has_arg \<times> opt) option" where
  "find_long long name =
     (case map_of long name of
        Some r \<Rightarrow> Some r
      | None \<Rightarrow> (case filter (\<lambda>(n, r). take (length name) n = name) long of [(n, r)] \<Rightarrow> Some r | _ \<Rightarrow> None))"

definition getopt_name ::
  "(string \<times> has_arg \<times> opt) list \<Rightarrow> string \<Rightarrow> string list \<Rightarrow> (opt \<times> string) \<times> string list" where
  "getopt_name long word args =
     (let name = takeWhile (\<lambda>c. c \<noteq> CHR ''='') word; given = dropWhile (\<lambda>c. c \<noteq> CHR ''='') word
      in case find_long long name of
           None \<Rightarrow> (bad_opt, args)
         | Some (no_argument, v) \<Rightarrow> (if given = [] then (v, '''') else bad_opt, args)
         | Some (required_argument, v) \<Rightarrow>
             if given \<noteq> [] then ((v, tl given), args)
             else case args of [] \<Rightarrow> (bad_opt, []) | a # rest \<Rightarrow> ((v, a), rest))"

lemma getopt_short_length: "length (snd (getopt_short desc cs args)) \<le> length args"
  by (induction desc cs args rule: getopt_short.induct)
    (auto split: option.split has_arg.split list.split prod.split)

lemma getopt_short_rest: "(rs, rest) = getopt_short desc cs args \<Longrightarrow> length rest < Suc (length args)"
  using getopt_short_length [of desc cs args] by (cases "getopt_short desc cs args") simp

lemma getopt_name_rest: "(r, rest) = getopt_name long word args \<Longrightarrow> length rest < Suc (length args)"
  by (auto simp: getopt_name_def Let_def split: option.splits has_arg.splits list.splits if_splits)

function getopt_long :: "string \<Rightarrow> (string \<times> has_arg \<times> opt) list \<Rightarrow> string list \<Rightarrow> (opt \<times> string) list" where
  "getopt_long desc long [] = []"
| "getopt_long desc long (a # args) =
     (if a = ''--'' then []
      else if take 2 a = ''--'' then
        let (r, rest) = getopt_name long (drop 2 a) args in r # getopt_long desc long rest
      else if take 1 a = ''-'' \<and> a \<noteq> ''-'' then
        let (rs, rest) = getopt_short desc (drop 1 a) args in rs @ getopt_long desc long rest
      else getopt_long desc long args)"
  by pat_completeness auto
termination
  by (relation "measure (\<lambda>(desc, long, args). length args)")
    (simp_all add: getopt_name_rest getopt_short_rest)

text \<open>\<open>atoi\<close> of glibc on a machine with 64-bit \<open>long\<close>: \<open>strtol\<close>, which keeps to the range of \<open>long\<close>, cut to an \<open>int\<close>.\<close>

definition isspace :: "char \<Rightarrow> bool" where
  "isspace c \<longleftrightarrow> of_char c = (32 :: nat) \<or> 9 \<le> (of_char c :: nat) \<and> of_char c \<le> (13 :: nat)"

definition isdigit :: "char \<Rightarrow> bool" where
  "isdigit c \<longleftrightarrow> 48 \<le> (of_char c :: nat) \<and> of_char c \<le> (57 :: nat)"

definition decimal :: "string \<Rightarrow> int" where
  "decimal ds = foldl (\<lambda>n c. 10 * n + (of_char c - 48)) 0 ds"

definition atoi :: "string \<Rightarrow> int" where
  "atoi s =
     (let s1 = dropWhile isspace s;
          neg = (take 1 s1 = ''-'');
          s2 = (if neg \<or> take 1 s1 = ''+'' then drop 1 s1 else s1);
          n = decimal (takeWhile isdigit s2)
      in s32 (max (- (2 ^ 63)) (min (2 ^ 63 - 1) (if neg then - n else n))))"

text \<open>Converting an \<open>int\<close> to \<open>float\<close>: to the nearest with 24 bits, ties to even; the result is an integer.\<close>

fun excess_bits :: "nat \<Rightarrow> nat" where
  "excess_bits a = (if a < 2 ^ 24 then 0 else Suc (excess_bits (a div 2)))"

declare excess_bits.simps [simp del]

definition float_of_int :: "int \<Rightarrow> int" where
  "float_of_int n =
     (let a = nat \<bar>n\<bar>; e = excess_bits a; q = a div 2 ^ e; r = a mod 2 ^ e;
          up = (2 ^ e < 2 * r \<or> 2 ^ e = 2 * r \<and> odd q)
      in sgn n * int ((if up then q + 1 else q) * 2 ^ e))"

section \<open>The options\<close>

record options =
  local_host :: string
  home_domain :: string
  diameter_conf :: string
  dns_servers :: "string list"
  http_address :: string
  http_port :: "16 word"
  http_threads :: int
  cassandra :: string
  impu_stores :: "string list"
  local_site_name :: string
  dest_realm :: string
  dest_host :: string
  force_hss_peer :: string
  max_peers :: int
  server_name :: string
  impu_cache_ttl :: int
  opt_hss_reregistration_time :: int
  reg_max_expires :: int
  sprout_http_name :: string
  opt_scheme_unknown :: string
  opt_scheme_digest :: string
  opt_scheme_akav1 :: string
  opt_scheme_akav2 :: string
  access_log_enabled :: bool
  access_log_directory :: string
  log_to_file :: bool
  log_directory :: string
  log_level :: int
  cache_threads :: int
  cassandra_threads :: int
  sas_system_name :: string
  diameter_timeout_ms :: int
  target_latency_us :: int
  max_tokens :: int
  init_token_rate :: int
  min_token_rate :: int
  max_token_rate :: int
  exception_max_ttl :: int
  astaire_blacklist_duration :: int
  http_blacklist_duration :: int
  diameter_blacklist_duration :: int
  dns_timeout :: int
  pidfile :: string
  daemon :: bool
  sas_signaling_if :: bool
  request_shared_ifcs :: bool
  ram_record_everything :: bool

text \<open>
  What comes from libraries: \<open>boost::split\<close> at commas, \<open>Utils::split_string\<close> at commas,
  \<open>Utils::calculate_diameter_timeout\<close> (the latency, and the timeout that it replaces),
  \<open>Utils::parse_multi_site_stores_arg\<close> (the stores and the local site; \<open>None\<close> when it returns false), and three
  default durations.
\<close>

record startup_lib =
  lib_split_any :: "string \<Rightarrow> string list"
  lib_split_string :: "string \<Rightarrow> string list"
  lib_diameter_timeout :: "int \<Rightarrow> int \<Rightarrow> int"
  lib_parse_sites :: "string list \<Rightarrow> string \<Rightarrow> (string \<times> string list) option"
  lib_http_blacklist :: int
  lib_diameter_blacklist :: int
  lib_dns_timeout :: int

text \<open>The defaults that \<open>main\<close> sets; \<open>any\<close> is what the member without a default holds.\<close>

definition default_options :: "startup_lib \<Rightarrow> int \<Rightarrow> options" where
  "default_options L any =
     \<lparr>local_host = ''127.0.0.1'', home_domain = ''dest-realm.unknown'', diameter_conf = ''homestead.conf'',
      dns_servers = [''127.0.0.1''], http_address = ''0.0.0.0'', http_port = 8888, http_threads = 1,
      cassandra = '''', impu_stores = [], local_site_name = '''', dest_realm = '''',
      dest_host = ''dest-host.unknown'', force_hss_peer = '''', max_peers = 2,
      server_name = ''sip:server-name.unknown'', impu_cache_ttl = 0, opt_hss_reregistration_time = 1800,
      reg_max_expires = 300, sprout_http_name = ''sprout-http-name.unknown'',
      opt_scheme_unknown = '''', opt_scheme_digest = '''', opt_scheme_akav1 = '''', opt_scheme_akav2 = '''',
      access_log_enabled = False, access_log_directory = '''', log_to_file = False, log_directory = '''',
      log_level = 0, cache_threads = 50, cassandra_threads = 10, sas_system_name = '''',
      diameter_timeout_ms = 200, target_latency_us = 100000, max_tokens = 1000,
      init_token_rate = 100, min_token_rate = 10, max_token_rate = 0, exception_max_ttl = 600,
      astaire_blacklist_duration = any, http_blacklist_duration = lib_http_blacklist L,
      diameter_blacklist_duration = lib_diameter_blacklist L, dns_timeout = lib_dns_timeout L,
      pidfile = '''', daemon = False, sas_signaling_if = False, request_shared_ifcs = False,
      ram_record_everything = False\<rparr>"

definition log_option :: "opt \<times> string \<Rightarrow> options \<Rightarrow> options" where
  "log_option r o1 =
     (let (opt, optarg) = r
      in if opt = Opt CHR ''F'' then o1\<lparr>log_to_file := True, log_directory := optarg\<rparr>
         else if opt = Opt CHR ''L'' then o1\<lparr>log_level := atoi optarg\<rparr>
         else if opt = Typ DAEMON then o1\<lparr>daemon := True\<rparr>
         else if opt = Typ RAM_RECORD_EVERYTHING then o1\<lparr>ram_record_everything := True\<rparr>
         else o1)"

definition init_logging_options :: "string list \<Rightarrow> options \<Rightarrow> options" where
  "init_logging_options args o1 = fold log_option (getopt_long options_description long_opt args) o1"

text \<open>
  The cases of \<open>init_options\<close>. \<open>None\<close> is the return value -1. The flag that the timeout has been given is
  set in the case \<open>DIAMETER_TIMEOUT_MS\<close> only.
\<close>

definition set_short :: "startup_lib \<Rightarrow> char \<Rightarrow> string \<Rightarrow> options \<Rightarrow> options option" where
  "set_short L c arg o1 =
     (if c = CHR ''l'' then Some (o1\<lparr>local_host := arg\<rparr>)
      else if c = CHR ''r'' then Some (o1\<lparr>home_domain := arg\<rparr>)
      else if c = CHR ''c'' then Some (o1\<lparr>diameter_conf := arg\<rparr>)
      else if c = CHR ''H'' then Some (o1\<lparr>http_address := arg\<rparr>)
      else if c = CHR ''t'' then Some (o1\<lparr>http_threads := atoi arg\<rparr>)
      else if c = CHR ''u'' then Some (o1\<lparr>cache_threads := atoi arg\<rparr>)
      else if c = CHR ''S'' then Some (o1\<lparr>cassandra := arg\<rparr>)
      else if c = CHR ''M'' then Some (o1\<lparr>impu_stores := lib_split_any L arg\<rparr>)
      else if c = CHR ''D'' then Some (o1\<lparr>dest_realm := arg\<rparr>)
      else if c = CHR ''d'' then Some (o1\<lparr>dest_host := arg\<rparr>)
      else if c = CHR ''p'' then Some (o1\<lparr>max_peers := atoi arg\<rparr>)
      else if c = CHR ''s'' then Some (o1\<lparr>server_name := arg\<rparr>)
      else if c = CHR ''i'' then Some (o1\<lparr>impu_cache_ttl := atoi arg\<rparr>)
      else if c = CHR ''I'' then Some (o1\<lparr>opt_hss_reregistration_time := atoi arg\<rparr>)
      else if c = CHR ''j'' then Some (o1\<lparr>sprout_http_name := arg\<rparr>)
      else if c = CHR ''a'' then Some (o1\<lparr>access_log_enabled := True, access_log_directory := arg\<rparr>)
      else if c = CHR ''F'' then Some o1
      else if c = CHR ''L'' then Some o1
      else None)"

fun set_typed :: "startup_lib \<Rightarrow> OptionTypes \<Rightarrow> string \<Rightarrow> options \<Rightarrow> options option" where
  "set_typed L CASSANDRA_THREADS arg o1 = Some (o1\<lparr>cassandra_threads := atoi arg\<rparr>)"
| "set_typed L REG_MAX_EXPIRES arg o1 = Some (o1\<lparr>reg_max_expires := atoi arg\<rparr>)"
| "set_typed L SCHEME_UNKNOWN arg o1 = Some (o1\<lparr>opt_scheme_unknown := arg\<rparr>)"
| "set_typed L SCHEME_DIGEST arg o1 = Some (o1\<lparr>opt_scheme_digest := arg\<rparr>)"
| "set_typed L SCHEME_AKAV1 arg o1 = Some (o1\<lparr>opt_scheme_akav1 := arg\<rparr>)"
| "set_typed L SCHEME_AKAV2 arg o1 = Some (o1\<lparr>opt_scheme_akav2 := arg\<rparr>)"
| "set_typed L LOCAL_SITE_NAME arg o1 = Some (o1\<lparr>local_site_name := arg\<rparr>)"
| "set_typed L ASTAIRE_BLACKLIST_DURATION arg o1 = Some (o1\<lparr>astaire_blacklist_duration := atoi arg\<rparr>)"
| "set_typed L SAS_CONFIG arg o1 = Some (o1\<lparr>sas_system_name := arg\<rparr>)"
| "set_typed L DIAMETER_TIMEOUT_MS arg o1 = Some (o1\<lparr>diameter_timeout_ms := atoi arg\<rparr>)"
| "set_typed L DNS_SERVER arg o1 = Some (o1\<lparr>dns_servers := lib_split_string L arg\<rparr>)"
| "set_typed L TARGET_LATENCY_US arg o1 =
     (let n = atoi arg in if n \<le> 0 then None else Some (o1\<lparr>target_latency_us := n\<rparr>))"
| "set_typed L MAX_TOKENS arg o1 = (let n = atoi arg in if n \<le> 0 then None else Some (o1\<lparr>max_tokens := n\<rparr>))"
| "set_typed L INIT_TOKEN_RATE arg o1 =
     (let x = float_of_int (atoi arg) in if x \<le> 0 then None else Some (o1\<lparr>init_token_rate := x\<rparr>))"
| "set_typed L MIN_TOKEN_RATE arg o1 =
     (let x = float_of_int (atoi arg) in if x \<le> 0 then None else Some (o1\<lparr>min_token_rate := x\<rparr>))"
| "set_typed L MAX_TOKEN_RATE arg o1 =
     (let x = float_of_int (atoi arg) in if x < 0 then None else Some (o1\<lparr>max_token_rate := x\<rparr>))"
| "set_typed L EXCEPTION_MAX_TTL arg o1 = Some (o1\<lparr>exception_max_ttl := atoi arg\<rparr>)"
| "set_typed L HTTP_BLACKLIST_DURATION arg o1 = Some (o1\<lparr>http_blacklist_duration := atoi arg\<rparr>)"
| "set_typed L DIAMETER_BLACKLIST_DURATION arg o1 = Some (o1\<lparr>diameter_blacklist_duration := atoi arg\<rparr>)"
| "set_typed L DNS_TIMEOUT arg o1 = Some (o1\<lparr>dns_timeout := atoi arg\<rparr>)"
| "set_typed L FORCE_HSS_PEER arg o1 = Some (o1\<lparr>force_hss_peer := arg\<rparr>)"
| "set_typed L PIDFILE arg o1 = Some (o1\<lparr>pidfile := arg\<rparr>)"
| "set_typed L SAS_USE_SIGNALING_IF arg o1 = Some (o1\<lparr>sas_signaling_if := True\<rparr>)"
| "set_typed L REQUEST_SHARED_IFCS arg o1 = Some (o1\<lparr>request_shared_ifcs := True\<rparr>)"
| "set_typed L DAEMON arg o1 = Some o1"
| "set_typed L RAM_RECORD_EVERYTHING arg o1 = Some o1"
| "set_typed L ALARMS_ENABLED arg o1 = None"

definition set_option :: "startup_lib \<Rightarrow> opt \<times> string \<Rightarrow> options \<Rightarrow> options option" where
  "set_option L r o1 = (case fst r of Opt c \<Rightarrow> set_short L c (snd r) o1 | Typ ty \<Rightarrow> set_typed L ty (snd r) o1)"

fun option_loop :: "startup_lib \<Rightarrow> (opt \<times> string) list \<Rightarrow> options \<Rightarrow> bool \<Rightarrow> (options \<times> bool) option" where
  "option_loop L [] o1 diameter_timeout_set = Some (o1, diameter_timeout_set)"
| "option_loop L (r # rs) o1 diameter_timeout_set =
     (case set_option L r o1 of
        None \<Rightarrow> None
      | Some o2 \<Rightarrow> option_loop L rs o2 (diameter_timeout_set \<or> fst r = Typ DIAMETER_TIMEOUT_MS))"

definition init_options :: "startup_lib \<Rightarrow> string list \<Rightarrow> options \<Rightarrow> options option" where
  "init_options L args o1 =
     (case option_loop L (getopt_long options_description long_opt args) o1 False of
        None \<Rightarrow> None
      | Some (o2, diameter_timeout_set) \<Rightarrow>
          Some (if diameter_timeout_set then o2
                else o2\<lparr>diameter_timeout_ms := lib_diameter_timeout L (target_latency_us o2) (diameter_timeout_ms o2)\<rparr>))"

section \<open>Which command lines are accepted\<close>

lemma excess_bits_pos: "0 < a \<Longrightarrow> 0 < a div 2 ^ excess_bits a"
proof (induction a rule: excess_bits.induct)
  case (1 a)
  show ?case
  proof (cases "a < 2 ^ 24")
    case True
    then show ?thesis using 1(2) by (simp add: excess_bits.simps)
  next
    case False
    then have "0 < (a div 2) div 2 ^ excess_bits (a div 2)" using 1(1) by simp
    then show ?thesis using False by (simp add: excess_bits.simps [of a] div_mult2_eq)
  qed
qed

text \<open>Rounding keeps the sign, so the checks of the rates are those of the numbers on the command line.\<close>

lemma float_of_int_sgn [simp]: "sgn (float_of_int n) = sgn n"
proof (cases "n = 0")
  case True
  then show ?thesis by (simp add: float_of_int_def)
next
  case False
  define a where "a = nat \<bar>n\<bar>"
  define e where "e = excess_bits a"
  have "0 < a div 2 ^ e" unfolding a_def e_def using False by (intro excess_bits_pos) simp
  then have "0 < int ((if b then a div 2 ^ e + 1 else a div 2 ^ e) * 2 ^ e)" for b
    by (simp add: zero_less_mult_iff del: of_nat_mult)
  then show ?thesis
    unfolding float_of_int_def Let_def a_def [symmetric] e_def [symmetric] sgn_mult
    by (simp add: sgn_1_pos del: of_nat_mult)
qed

lemma float_of_int_le: "float_of_int n \<le> 0 \<longleftrightarrow> n \<le> 0" "float_of_int n < 0 \<longleftrightarrow> n < 0"
  using float_of_int_sgn [of n] by (auto simp: sgn_if split: if_splits)

definition fits_int :: "int \<Rightarrow> bool" where
  "fits_int n \<longleftrightarrow> - 2147483648 \<le> n \<and> n < 2147483648"

lemma atoi_fits [simp]: "fits_int (atoi s)"
  by (simp add: fits_int_def atoi_def s32_range Let_def)

text \<open>The options that are refused.\<close>

definition rejected_option :: "opt \<times> string \<Rightarrow> bool" where
  "rejected_option r =
     (case fst r of
        Opt c \<Rightarrow> c \<notin> set ''lrcHtuSMDdpsiIjaFL''
      | Typ ty \<Rightarrow> ty = ALARMS_ENABLED \<or>
          ty \<in> {TARGET_LATENCY_US, MAX_TOKENS, INIT_TOKEN_RATE, MIN_TOKEN_RATE} \<and> atoi (snd r) \<le> 0 \<or>
          ty = MAX_TOKEN_RATE \<and> atoi (snd r) < 0)"

lemma set_option_rejects: "set_option L r o1 = None \<longleftrightarrow> rejected_option r"
proof (cases "fst r")
  case (Opt c)
  then show ?thesis by (simp add: set_option_def set_short_def rejected_option_def)
next
  case (Typ ty)
  then show ?thesis
    by (cases ty) (simp_all add: set_option_def rejected_option_def float_of_int_le Let_def)
qed

definition options_wf :: "options \<Rightarrow> bool" where
  "options_wf o1 \<longleftrightarrow>
     list_all fits_int [http_threads o1, cache_threads o1, cassandra_threads o1, max_peers o1, impu_cache_ttl o1,
       opt_hss_reregistration_time o1, reg_max_expires o1, log_level o1, diameter_timeout_ms o1, target_latency_us o1,
       max_tokens o1, exception_max_ttl o1, astaire_blacklist_duration o1, http_blacklist_duration o1,
       diameter_blacklist_duration o1, dns_timeout o1] \<and>
     0 < target_latency_us o1 \<and> 0 < max_tokens o1 \<and> 0 < init_token_rate o1 \<and> 0 < min_token_rate o1 \<and>
     0 \<le> max_token_rate o1"

lemma set_short_wf:
  assumes "set_short L c arg o1 = Some o2" and "options_wf o1"
  shows "options_wf o2"
  using assms unfolding set_short_def
  by (simp split: if_split_asm; clarsimp simp: options_wf_def)

lemma set_typed_wf:
  assumes "set_typed L ty arg o1 = Some o2" and "options_wf o1"
  shows "options_wf o2"
  using assms
  by (cases ty) (simp_all add: Let_def split: if_split_asm; clarsimp simp: options_wf_def)+

lemma option_loop_wf:
  assumes "options_wf o1"
  shows "case option_loop L rs o1 b of
      None \<Rightarrow> \<exists>r \<in> set rs. rejected_option r
    | Some (o2, b2) \<Rightarrow> options_wf o2 \<and> (\<forall>r \<in> set rs. \<not> rejected_option r)"
  using assms
proof (induction rs arbitrary: o1 b)
  case Nil
  then show ?case by simp
next
  case (Cons r rs)
  show ?case
  proof (cases "set_option L r o1")
    case None
    then show ?thesis using set_option_rejects [of L r o1] by simp
  next
    case (Some o2)
    have "options_wf o2"
      using Some Cons.prems by (auto simp: set_option_def intro: set_short_wf set_typed_wf split: opt.splits)
    from Cons.IH [OF this, of "b \<or> fst r = Typ DIAMETER_TIMEOUT_MS"] show ?thesis
      using Some set_option_rejects [of L r o1] by (auto split: option.splits)
  qed
qed

lemma init_logging_wf: "options_wf o1 \<Longrightarrow> options_wf (init_logging_options args o1)"
  unfolding init_logging_options_def
  by (rule fold_invariant [where P = options_wf and Q = "\<lambda>r. True"])
    (auto simp: log_option_def options_wf_def Let_def)

lemma default_wf:
  assumes "fits_int any" and "list_all fits_int [lib_http_blacklist L, lib_diameter_blacklist L, lib_dns_timeout L]"
  shows "options_wf (default_options L any)"
  using assms by (simp add: options_wf_def default_options_def) (simp add: fits_int_def)


text \<open>A library whose functions do the simplest thing.\<close>

definition plain_lib :: startup_lib where
  "plain_lib =
     \<lparr>lib_split_any = (\<lambda>s. [s]), lib_split_string = (\<lambda>s. [s]), lib_diameter_timeout = (\<lambda>latency timeout. 200),
      lib_parse_sites = (\<lambda>stores site. case stores of [] \<Rightarrow> None | s # ss \<Rightarrow> Some (s, ss)),
      lib_http_blacklist = 30, lib_diameter_blacklist = 30, lib_dns_timeout = 200\<rparr>"

definition sample_args :: "string list" where
  "sample_args = [''--impu-s'', ''here'', ''-I600'', ''extra'', ''--max-tokens=20'', ''--daemon'']"

lemma sample_getopt:
  "getopt_long options_description long_opt sample_args =
    [(Opt CHR ''M'', ''here''), (Opt CHR ''I'', ''600''), (Typ MAX_TOKENS, ''20''), (Typ DAEMON, '''')]"
  by (simp add: sample_args_def options_description_def getopt_name_def find_long_def long_opt_def)

lemma sample_atoi: "atoi ''600'' = 600" "atoi ''20'' = 20"
  by (simp_all add: atoi_def isspace_def isdigit_def decimal_def s32_def)


text \<open>
  The help names the short options \<open>-M\<close> and \<open>-j\<close>, and the long option \<open>--http-sprout-name\<close>; none of them is accepted.
\<close>

lemma documented_options_rejected:
  "init_options L [''-M'', x] o1 = None" "init_options L [''-j'', x] o1 = None"
  "init_options L [''--http-sprout-name'', x] o1 = None"
proof -
  show "init_options L [''-M'', x] o1 = None"
    by (simp add: init_options_def options_description_def bad_opt_def set_option_def set_short_def)
  show "init_options L [''-j'', x] o1 = None"
    by (simp add: init_options_def options_description_def bad_opt_def set_option_def set_short_def)
  show "init_options L [''--http-sprout-name'', x] o1 = None"
    by (simp add: init_options_def getopt_name_def find_long_def long_opt_def bad_opt_def set_option_def set_short_def)
qed

end
