(* ===== verification/Startup.thy ===== *)
theory Startup
  imports Options Reg_Data_Decisions
begin

text \<open>
  \<open>main\<close> of \<open>src/main.cpp\<close> and the thread pool of \<open>HssCacheProcessor\<close>: the configuration that the options give the
  handlers, the routes of the two HTTP stacks, and the order in which the parts of the process are started and
  stopped. The stacks, the pool and the Cassandra client belong to libraries: which of their
  calls fail is a parameter. The results: which requests reach which handler, that a record in the
  cache outlives the interval after which the HSS is asked again, and which parts of the process exist while
  requests can come in.
\<close>

section \<open>Configuration\<close>

definition hss_is_configured :: "options \<Rightarrow> bool" where
  "hss_is_configured o1 \<longleftrightarrow>
     \<not> (dest_realm o1 = '''' \<and> (dest_host o1 = '''' \<or> dest_host o1 = ''0.0.0.0''))"

text \<open>An overflow of the \<open>int\<close>s is undefined; the model wraps.\<close>

definition main_record_ttl :: "options \<Rightarrow> int" where
  "main_record_ttl o1 = max (s32 (2 * opt_hss_reregistration_time o1)) (s32 (reg_max_expires o1 + 10))"

definition impu_handler_config :: "options \<Rightarrow> reg_data_config" where
  "impu_handler_config o1 =
     \<lparr>hss_configured = hss_is_configured o1, hss_reregistration_time = opt_hss_reregistration_time o1,
      record_ttl = main_record_ttl o1, support_shared_ifcs = request_shared_ifcs o1\<rparr>"

definition impi_handler_config :: "options \<Rightarrow> impi_config" where
  "impi_handler_config o1 =
     \<lparr>cfg_scheme_unknown = opt_scheme_unknown o1,
      cfg_schemes = configure_auth_schemes (opt_scheme_digest o1) (opt_scheme_akav1 o1) (opt_scheme_akav2 o1)\<rparr>"

definition default_realm :: "options \<Rightarrow> string" where
  "default_realm o1 = (if dest_realm o1 = '''' then home_domain o1 else dest_realm o1)"

section \<open>Routes\<close>

datatype handler =
    Ping | Impi_digest | Impi_av | Impi_reg_status | Impu_loc_info | Impu_reg_data | Impu_read_reg_data

text \<open>
  The regular expressions that the routes use: an anchor at the start, literal characters, \<open>[^/]*\<close>,
  and possibly an anchor at the end.
\<close>

function match_here :: "string \<Rightarrow> string \<Rightarrow> bool" where
  "match_here [] s = True"
| "match_here (c # p) s =
     (if c = CHR ''$'' \<and> p = [] then s = []
      else if take 5 (c # p) = ''[^/]*'' then
        match_here (drop 4 p) s \<or>
        (case s of [] \<Rightarrow> False | a # s1 \<Rightarrow> if a = CHR ''/'' then False else match_here (c # p) s1)
      else case s of [] \<Rightarrow> False | a # s1 \<Rightarrow> if a = c then match_here p s1 else False)"
  by pat_completeness auto
termination by (relation "measure (\<lambda>(p, s). length p + length s)") auto

declare match_here.simps(2) [simp del]

lemma match_here_char:
  "c \<noteq> CHR ''$'' \<Longrightarrow> c \<noteq> CHR ''['' \<Longrightarrow> match_here (c # p) s \<longleftrightarrow> s \<noteq> [] \<and> hd s = c \<and> match_here p (tl s)"
  by (cases s) (auto simp: match_here.simps(2))

lemma match_here_segment:
  "match_here (''[^/]*'' @ p) s \<longleftrightarrow>
     match_here p s \<or> s \<noteq> [] \<and> hd s \<noteq> CHR ''/'' \<and> match_here (''[^/]*'' @ p) (tl s)"
  by (cases s) (simp_all add: match_here.simps(2) [of "CHR ''[''"])

definition regex_match :: "string \<Rightarrow> string \<Rightarrow> bool" where
  "regex_match pat path \<longleftrightarrow> take 1 pat = ''^'' \<and> match_here (drop 1 pat) path"

definition sig_routes :: "(string \<times> handler) list" where
  "sig_routes =
     [(''^/ping$'', Ping), (''^/impi/[^/]*/digest$'', Impi_digest), (''^/impi/[^/]*/av'', Impi_av),
      (''^/impi/[^/]*/registration-status$'', Impi_reg_status), (''^/impu/[^/]*/location$'', Impu_loc_info),
      (''^/impu/[^/]*/reg-data$'', Impu_reg_data)]"

definition mgmt_routes :: "(string \<times> handler) list" where
  "mgmt_routes = [(''^/ping$'', Ping), (''^/impu/[^/]*/reg-data$'', Impu_read_reg_data)]"

text \<open>The handler of the first route that matches.\<close>

definition dispatch :: "(string \<times> handler) list \<Rightarrow> string \<Rightarrow> handler option" where
  "dispatch routes path = map_option snd (find (\<lambda>(pat, h). regex_match pat path) routes)"

text \<open>The same without regular expressions: the prefix, the identity, and what follows.\<close>

definition after_id :: "string \<Rightarrow> string" where
  "after_id path = dropWhile (\<lambda>c. c \<noteq> CHR ''/'') (drop 6 path)"

definition sig_handler :: "string \<Rightarrow> handler option" where
  "sig_handler path =
     (if path = ''/ping'' then Some Ping
      else if take 6 path = ''/impi/'' then
        if after_id path = ''/digest'' then Some Impi_digest
        else if take 3 (after_id path) = ''/av'' then Some Impi_av
        else if after_id path = ''/registration-status'' then Some Impi_reg_status else None
      else if take 6 path = ''/impu/'' then
        if after_id path = ''/location'' then Some Impu_loc_info
        else if after_id path = ''/reg-data'' then Some Impu_reg_data else None
      else None)"

definition mgmt_handler :: "string \<Rightarrow> handler option" where
  "mgmt_handler path =
     (if path = ''/ping'' then Some Ping
      else if take 6 path = ''/impu/'' \<and> after_id path = ''/reg-data'' then Some Impu_read_reg_data else None)"

definition plain_chars :: "string \<Rightarrow> bool" where
  "plain_chars lit \<longleftrightarrow> CHR ''['' \<notin> set lit \<and> CHR ''$'' \<notin> set lit"

lemma match_plain:
  "plain_chars lit \<Longrightarrow> match_here (lit @ p) s \<longleftrightarrow> take (length lit) s = lit \<and> match_here p (drop (length lit) s)"
proof (induction lit arbitrary: s)
  case Nil
  then show ?case by simp
next
  case (Cons c lit)
  then have "plain_chars lit" "c \<noteq> CHR ''$''" "c \<noteq> CHR ''[''" by (auto simp: plain_chars_def)
  then show ?case using Cons.IH [of "tl s"] by (cases s) (auto simp: match_here_char)
qed

lemma match_end: "match_here ''$'' s \<longleftrightarrow> s = []"
  by (simp add: match_here.simps(2))

lemma match_segment:
  assumes "\<And>s. match_here p s \<Longrightarrow> take 1 s = ''/''"
  shows "match_here (''[^/]*'' @ p) s \<longleftrightarrow> match_here p (dropWhile (\<lambda>c. c \<noteq> CHR ''/'') s)"
proof (induction s)
  case Nil
  then show ?case using match_here_segment [of p "[]"] by simp
next
  case (Cons a s)
  have step: "match_here (''[^/]*'' @ p) (a # s) \<longleftrightarrow>
      match_here p (a # s) \<or> a \<noteq> CHR ''/'' \<and> match_here (''[^/]*'' @ p) s"
    using match_here_segment [of p "a # s"] by simp
  show ?case
  proof (cases "a = CHR ''/''")
    case True
    then show ?thesis unfolding step by simp
  next
    case False
    then have "\<not> match_here p (a # s)" using assms [of "a # s"] by auto
    then show ?thesis unfolding step using False Cons.IH by simp
  qed
qed

text \<open>A route with an identity: the prefix, the segment and the rest, up to the end of the path or not.\<close>

lemma route_match:
  assumes "plain_chars lit" and "plain_chars rest" and "take 1 rest = ''/''" and "length lit = 6"
  shows "regex_match (''^'' @ lit @ ''[^/]*'' @ rest @ ''$'') path \<longleftrightarrow> take 6 path = lit \<and> after_id path = rest"
    and "regex_match (''^'' @ lit @ ''[^/]*'' @ rest) path \<longleftrightarrow>
      take 6 path = lit \<and> take (length rest) (after_id path) = rest"
proof -
  have starts: "take 1 s = ''/''" if "match_here (rest @ p) s" for p s
    using that assms(3) match_plain [OF assms(2), of p s] by (cases rest; cases s) auto
  have seg: "match_here (''[^/]*'' @ rest @ p) s \<longleftrightarrow> match_here (rest @ p) (dropWhile (\<lambda>c. c \<noteq> CHR ''/'') s)" for p s
    by (rule match_segment) (rule starts)
  have pre: "regex_match (''^'' @ lit @ q) path \<longleftrightarrow> take 6 path = lit \<and> match_here q (drop 6 path)" for q
    using match_plain [OF assms(1), of q path] assms(4) by (simp add: regex_match_def)
  show "regex_match (''^'' @ lit @ ''[^/]*'' @ rest) path \<longleftrightarrow>
      take 6 path = lit \<and> take (length rest) (after_id path) = rest"
    unfolding pre using seg [of "[]"] match_plain [OF assms(2), of "[]"] by (simp only: append_Nil2 after_id_def match_here.simps(1) simp_thms)
  have whole: "take (length rest) s = rest \<and> drop (length rest) s = [] \<longleftrightarrow> s = rest" for s
    by (metis append_Nil2 append_take_drop_id drop_all order_refl take_all)
  show "regex_match (''^'' @ lit @ ''[^/]*'' @ rest @ ''$'') path \<longleftrightarrow> take 6 path = lit \<and> after_id path = rest"
    unfolding pre seg match_plain [OF assms(2)] match_end whole after_id_def ..
qed

lemma ping_match: "regex_match ''^/ping$'' path \<longleftrightarrow> path = ''/ping''"
proof -
  have "match_here (''/ping'' @ ''$'') path \<longleftrightarrow> take 5 path = ''/ping'' \<and> drop 5 path = []"
    by (subst match_plain) (simp_all add: plain_chars_def match_end eval_nat_numeral)
  also have "\<dots> \<longleftrightarrow> path = ''/ping''"
    using append_take_drop_id [of 5 path] by auto
  finally show ?thesis by (simp add: regex_match_def)
qed

lemma route_matches:
  "regex_match ''^/impi/[^/]*/digest$'' path \<longleftrightarrow> take 6 path = ''/impi/'' \<and> after_id path = ''/digest''"
  "regex_match ''^/impi/[^/]*/av'' path \<longleftrightarrow> take 6 path = ''/impi/'' \<and> take 3 (after_id path) = ''/av''"
  "regex_match ''^/impi/[^/]*/registration-status$'' path \<longleftrightarrow>
     take 6 path = ''/impi/'' \<and> after_id path = ''/registration-status''"
  "regex_match ''^/impu/[^/]*/location$'' path \<longleftrightarrow> take 6 path = ''/impu/'' \<and> after_id path = ''/location''"
  "regex_match ''^/impu/[^/]*/reg-data$'' path \<longleftrightarrow> take 6 path = ''/impu/'' \<and> after_id path = ''/reg-data''"
  using route_match [of "''/impi/''" "''/digest''" path] route_match [of "''/impi/''" "''/av''" path]
    route_match [of "''/impi/''" "''/registration-status''" path] route_match [of "''/impu/''" "''/location''" path]
    route_match [of "''/impu/''" "''/reg-data''" path]
  by (simp_all add: plain_chars_def numeral_3_eq_3)

lemma prefix_not_ping: "take 6 path = ''/impi/'' \<or> take 6 path = ''/impu/'' \<Longrightarrow> path \<noteq> ''/ping''"
  by auto

lemma dispatch_sig: "dispatch sig_routes path = sig_handler path"
  using prefix_not_ping [of path]
  by (auto simp: dispatch_def sig_routes_def sig_handler_def ping_match route_matches)

lemma dispatch_mgmt: "dispatch mgmt_routes path = mgmt_handler path"
  by (auto simp: dispatch_def mgmt_routes_def mgmt_handler_def ping_match route_matches)

lemma one_route:
  "length (filter (\<lambda>(pat, h). regex_match pat path) sig_routes) \<le> 1"
  "length (filter (\<lambda>(pat, h). regex_match pat path) mgmt_routes) \<le> 1"
  using prefix_not_ping [of path] by (auto simp: sig_routes_def mgmt_routes_def ping_match route_matches)

lemma routed_path:
  assumes "take 6 path \<in> {''/impi/'', ''/impu/''}"
  shows "6 \<le> length path" "path_id path = Some (takeWhile (\<lambda>c. c \<noteq> CHR ''/'') (drop 6 path))"
proof -
  have "length (take 6 path) = 6" using assms by (auto simp del: length_take)
  then show "6 \<le> length path" by simp
  then show "path_id path = Some (takeWhile (\<lambda>c. c \<noteq> CHR ''/'') (drop 6 path))" by (simp add: path_id_def)
qed


section \<open>The lifetime of a record\<close>

text \<open>
  C32: with an interval of at most thirty-four years, the lifetime of a record is at least twice the interval
  after which the HSS is asked again and ten seconds more than a registration lasts. So when a
  registration is answered without asking the HSS, the record stays in the cache for longer than another interval:
  a subscriber that registers once in an interval is asked about while its record is still there.
\<close>

theorem record_outlives_interval:
  assumes "0 \<le> opt_hss_reregistration_time o1" and "opt_hss_reregistration_time o1 < 2 ^ 30"
    and "0 \<le> reg_max_expires o1" and "reg_max_expires o1 < 2 ^ 31 - 10"
    and "e_cfg env = impu_handler_config o1"
    and "process_received_reg_data env t = (t1, as)" and "rt_irs t = Some irs"
    and "rq_method (rt_req t) = METHOD_PUT" and "rt_type t = TYPE_REG"
    and "0 \<le> m_ttl irs" and "m_ttl irs \<le> record_ttl (e_cfg env)" and "\<And>sar. SendSAR sar \<notin> set as"
  shows "record_ttl (e_cfg env) = max (2 * opt_hss_reregistration_time o1) (reg_max_expires o1 + 10) \<and>
    opt_hss_reregistration_time o1 < m_ttl irs"
proof -
  have ttl: "record_ttl (e_cfg env) = max (2 * opt_hss_reregistration_time o1) (reg_max_expires o1 + 10)"
    using assms(1-4) by (simp add: assms(5) impu_handler_config_def main_record_ttl_def s32_id)
  have "decide TYPE_REG (m_registration_state irs) (known_binding irs (rt_impi t)) (fresh_data (e_cfg env) (rt_req t) irs) = Answer"
    using decision_table [OF assms(6-8)] assms(9,12)
    by (auto simp: send_server_assignment_request_def split: verdict.splits if_splits)
  then have "fresh_data (e_cfg env) (rt_req t) irs" by (simp split: if_splits)
  moreover have "s32 (record_ttl (e_cfg env) - m_ttl irs) = record_ttl (e_cfg env) - m_ttl irs"
    using assms(1-4,10,11) ttl by (intro s32_id) auto
  ultimately have "record_ttl (e_cfg env) - m_ttl irs < opt_hss_reregistration_time o1"
    by (simp add: fresh_data_def assms(5) impu_handler_config_def)
  then show ?thesis using ttl by linarith
qed

text \<open>A registered set in the middle of its life, and the default configuration.\<close>

definition default_env :: "(ref_world, (string \<times> jvalue) list, ref_node) reg_env" where
  "default_env = sample_reg_env\<lparr>e_cfg := impu_handler_config (default_options plain_lib 0)\<rparr>"

definition cached_task :: reg_task where
  "cached_task = (sample_task ''reg'' TYPE_REG)\<lparr>rt_irs := Some (new_mirs 3000 REGISTERED)\<rparr>"

lemma default_config:
  "impu_handler_config (default_options plain_lib 0) =
     \<lparr>hss_configured = True, hss_reregistration_time = 1800, record_ttl = 3600, support_shared_ifcs = False\<rparr>"
  by (simp add: impu_handler_config_def default_options_def main_record_ttl_def hss_is_configured_def s32_def)

theorem record_outlives_interval_witness:
  "\<exists>t1 as. process_received_reg_data default_env cached_task = (t1, as) \<and> (\<forall>sar. SendSAR sar \<notin> set as) \<and>
     record_ttl (e_cfg default_env) = 3600 \<and> 1800 < m_ttl (new_mirs 3000 REGISTERED)"
proof -
  have time: "opt_hss_reregistration_time (default_options plain_lib 0) = 1800"
    "reg_max_expires (default_options plain_lib 0) = 300" by (simp_all add: default_options_def)
  have cfg: "e_cfg default_env = impu_handler_config (default_options plain_lib 0)" by (simp add: default_env_def)
  have task: "rt_irs cached_task = Some (new_mirs 3000 REGISTERED)" "rq_method (rt_req cached_task) = METHOD_PUT"
    "rt_type cached_task = TYPE_REG"
    by (simp_all add: cached_task_def sample_task_def sample_put_def new_reg_task_def)
  obtain t1 as where p: "process_received_reg_data default_env cached_task = (t1, as)" by fastforce
  have "fresh_data (e_cfg default_env) (rt_req cached_task) (new_mirs 3000 REGISTERED)"
    by (simp add: fresh_data_def cfg default_config cached_task_def sample_task_def sample_put_def new_reg_task_def
        new_mirs_def s32_def)
  then have "as = send_reply default_env t1 @ [DeleteTask]"
    using decision_table [OF p task(1,2)] task(3) by (simp add: known_binding_def new_mirs_def)
  moreover have "SendSAR sar \<notin> set (send_reply default_env t1)" for sar
    by (auto simp: send_reply_def rc_reply_def split: option.splits prod.splits if_splits)
  ultimately have none: "\<And>sar. SendSAR sar \<notin> set as" by simp
  have "record_ttl (e_cfg default_env) = max (2 * 1800) (300 + 10) \<and> 1800 < m_ttl (new_mirs 3000 REGISTERED)"
    unfolding time [symmetric]
    by (rule record_outlives_interval [OF _ _ _ _ cfg p task])
      (use none in \<open>simp_all add: time cfg default_config new_mirs_def\<close>)
  then show ?thesis using p none by simp
qed

end
