(* ===== verification/Lifecycle.thy ===== *)
theory Lifecycle
  imports Startup Hs_Prov
begin

text \<open>
  \<open>main\<close> of \<open>src/main.cpp\<close> from the parsed options to its end, as the list of the calls that take effect: the
  cache and its threads, the connection to the HSS or to Cassandra, the two HTTP stacks, and the shutdown. A call that
  throws or fails leaves its block or ends the process. The state that a request finds is folded over the
  calls: the thread pool of \<open>HssCacheProcessor\<close>, the objects of the Diameter handlers, and which stacks are running.
  The results: an HTTP request always finds what its handler uses; a Diameter request does not.
\<close>

section \<open>The calls of main\<close>

datatype listener = Http_sig | Http_mgmt | Diameter_stack

datatype cx_object = Cx_dict | Rtr_config | Ppr_config | Rtr_handler | Ppr_handler

datatype main_call =
    Lock_pidfile string
  | Create_cache string "string list" int | Start_threads int
  | Initialize listener | Configure_diameter string | New_cx cx_object | Advertize_cx
  | Register_cx cx_object | Register_fallback | Start listener
  | New_diameter_connection string string int | Configure_hss_tables | Configure_handler_tables
  | Configure_hsprov string | Configure_workers int | Connection_test | Start_hsprov | New_hsprov_connection string
  | Configure_hss_connection string
  | Bind_tcp string "16 word" | Bind_unix string | Register_route listener string handler
  | Start_realm_manager string string int
  | Stop listener | Wait_stopped listener | Stop_pool | Wait_pool | Stop_realm_manager | Delete_cx cx_object
  | Stop_hsprov | Wait_hsprov

text \<open>
  What the process finds outside: whether a host is an IPv6 address (\<open>inet_pton\<close>), whether the pid file can be locked, whether
  the pool starts, what Cassandra answers, and which calls of the stacks throw.
\<close>

record main_env =
  en_ipv6 :: "string \<Rightarrow> bool"
  en_pidfile :: "string \<Rightarrow> bool"
  en_pool :: "int \<Rightarrow> bool"
  en_cassandra :: "main_call \<Rightarrow> cass_result"
  en_throws :: "main_call \<Rightarrow> bool"

text \<open>A \<open>try\<close> block: the calls that return, and whether none throws.\<close>

fun try_calls :: "(main_call \<Rightarrow> bool) \<Rightarrow> main_call list \<Rightarrow> main_call list \<times> bool" where
  "try_calls throws [] = ([], True)"
| "try_calls throws (c # cs) =
     (if throws c then ([], False) else let (ds, ok) = try_calls throws cs in (c # ds, ok))"

text \<open>A part of \<open>main\<close> gives its calls and the exit code when it ends the process.\<close>

fun run_parts :: "(main_call list \<times> int option) list \<Rightarrow> main_call list \<times> int option" where
  "run_parts [] = ([], None)"
| "run_parts ((cs, Some code) # ps) = (cs, Some code)"
| "run_parts ((cs, None) # ps) = (let (ds, r) = run_parts ps in (cs @ ds, r))"

definition pidfile_part :: "main_env \<Rightarrow> options \<Rightarrow> main_call list \<times> int option" where
  "pidfile_part env o1 =
     (if pidfile o1 \<noteq> '''' then
        if en_pidfile env (pidfile o1) then ([Lock_pidfile (pidfile o1)], None) else ([], Some 2)
      else ([], None))"

definition create_memcached_cache :: "options \<Rightarrow> string \<Rightarrow> string list \<Rightarrow> main_call list \<times> int option" where
  "create_memcached_cache o1 location remotes =
     (if location \<noteq> '''' then
        ([Create_cache location remotes (s32 (cache_threads o1 * int (length remotes)))], None)
      else ([], Some 2))"

definition cache_threads_part :: "main_env \<Rightarrow> options \<Rightarrow> main_call list \<times> int option" where
  "cache_threads_part env o1 =
     ([Start_threads (cache_threads o1)], if en_pool env (cache_threads o1) then None else Some 2)"

definition diameter_calls :: "options \<Rightarrow> main_call list" where
  "diameter_calls o1 =
     [Initialize Diameter_stack, Configure_diameter (diameter_conf o1), New_cx Cx_dict, New_cx Rtr_config,
      New_cx Ppr_config, New_cx Rtr_handler, New_cx Ppr_handler, Advertize_cx, Register_cx Rtr_handler,
      Register_cx Ppr_handler, Register_fallback, Start Diameter_stack]"

definition diameter_connected :: "options \<Rightarrow> main_call list" where
  "diameter_connected o1 =
     [New_diameter_connection (default_realm o1) (if dest_host o1 = ''0.0.0.0'' then '''' else dest_host o1)
        (diameter_timeout_ms o1), Configure_hss_tables, Configure_handler_tables]"

definition diameter_part :: "main_env \<Rightarrow> options \<Rightarrow> main_call list \<times> int option" where
  "diameter_part env o1 =
     (let (cs, ok) = try_calls (en_throws env) (diameter_calls o1)
      in if ok then (cs @ diameter_connected o1, None) else (cs, Some 2))"

definition cassandra_host :: "main_env \<Rightarrow> options \<Rightarrow> string" where
  "cassandra_host env o1 =
     (if cassandra o1 = '''' then if en_ipv6 env (local_host o1) then ''[::1]'' else ''127.0.0.1''
      else cassandra o1)"

definition hsprov_part :: "main_env \<Rightarrow> options \<Rightarrow> main_call list \<times> int option" where
  "hsprov_part env o1 =
     (let cs = [Configure_hsprov (cassandra_host env o1), Configure_workers (cassandra_threads o1), Connection_test]
      in if en_cassandra env Connection_test = CASS_OK then
           if en_cassandra env Start_hsprov = CASS_OK then
             (cs @ [Start_hsprov, New_hsprov_connection (server_name o1)], None)
           else (cs @ [Start_hsprov], Some 2)
         else (cs, Some 2))"

definition sig_calls :: "options \<Rightarrow> main_call list" where
  "sig_calls o1 =
     [Initialize Http_sig, Bind_tcp (http_address o1) (http_port o1)] @
     map (\<lambda>(pat, h). Register_route Http_sig pat h) sig_routes @ [Start Http_sig]"

definition sig_part :: "main_env \<Rightarrow> options \<Rightarrow> main_call list \<times> int option" where
  "sig_part env o1 =
     (let (cs, ok) = try_calls (en_throws env) (sig_calls o1)
      in (Configure_hss_connection (server_name o1) # cs, if ok then None else Some 2))"

definition HTTP_MGMT_SOCKET_PATH :: string where
  "HTTP_MGMT_SOCKET_PATH = ''/tmp/homestead-http-mgmt-socket''"

definition mgmt_calls :: "main_call list" where
  "mgmt_calls =
     [Initialize Http_mgmt, Bind_unix HTTP_MGMT_SOCKET_PATH] @
     map (\<lambda>(pat, h). Register_route Http_mgmt pat h) mgmt_routes @ [Start Http_mgmt]"

definition mgmt_part :: "main_env \<Rightarrow> main_call list \<times> int option" where
  "mgmt_part env =
     (let (cs, ok) = try_calls (en_throws env) mgmt_calls in (cs, if ok then None else Some 3))"

definition realm_calls :: "options \<Rightarrow> main_call list" where
  "realm_calls o1 =
     (if hss_is_configured o1 then
        if force_hss_peer o1 = '''' then [Start_realm_manager (dest_realm o1) (dest_host o1) (max_peers o1)]
        else [Start_realm_manager '''' (force_hss_peer o1) (max_peers o1)]
      else [])"

definition start_up :: "main_env \<Rightarrow> options \<Rightarrow> string \<Rightarrow> string list \<Rightarrow> main_call list \<times> int option" where
  "start_up env o1 location remotes =
     run_parts
       [pidfile_part env o1, create_memcached_cache o1 location remotes, cache_threads_part env o1,
        if hss_is_configured o1 then diameter_part env o1 else hsprov_part env o1,
        sig_part env o1, mgmt_part env, (realm_calls o1, None)]"

text \<open>After the signal: an exception while stopping a stack is only logged.\<close>

definition stop_stack :: "main_env \<Rightarrow> listener \<Rightarrow> main_call list" where
  "stop_stack env l = fst (try_calls (en_throws env) [Stop l, Wait_stopped l])"

definition shut_down :: "main_env \<Rightarrow> options \<Rightarrow> main_call list" where
  "shut_down env o1 =
     stop_stack env Http_sig @ stop_stack env Http_mgmt @ [Stop_pool, Wait_pool] @
     (if hss_is_configured o1 then
        [Stop_realm_manager, Delete_cx Cx_dict, Delete_cx Ppr_config, Delete_cx Rtr_config,
         Delete_cx Ppr_handler, Delete_cx Rtr_handler] @ stop_stack env Diameter_stack
      else [Stop_hsprov, Wait_hsprov])"

text \<open>The whole of \<open>main\<close>: the calls and the exit code. \<open>init_logging_options\<close> never fails.\<close>

definition homestead_main :: "startup_lib \<Rightarrow> main_env \<Rightarrow> int \<Rightarrow> string list \<Rightarrow> main_call list \<times> int" where
  "homestead_main L env any args =
     (case init_options L args (init_logging_options args (default_options L any)) of
        None \<Rightarrow> ([], 1)
      | Some o1 \<Rightarrow>
          (case lib_parse_sites L (impu_stores o1) (local_site_name o1) of
             None \<Rightarrow> ([], 1)
           | Some (location, remotes) \<Rightarrow>
               (case start_up env o1 location remotes of
                  (cs, Some code) \<Rightarrow> (cs, code)
                | (cs, None) \<Rightarrow> (cs @ shut_down env o1, 0))))"

section \<open>What a request finds\<close>

text \<open>
  The thread pool of the cache processor, whether the handlers have an HSS connection and the Diameter handlers their
  counters, the objects of the Diameter handlers, and the stacks that take requests.
\<close>

record process =
  pr_thread_pool :: "int option"
  pr_hss :: bool
  pr_tables :: bool
  pr_objects :: "cx_object list"
  pr_running :: "listener list"

definition new_process :: process where
  "new_process = \<lparr>pr_thread_pool = None, pr_hss = False, pr_tables = False, pr_objects = [], pr_running = []\<rparr>"

text \<open>\<open>start_threads\<close> keeps the new pool even when it does not start; \<open>stop\<close> leaves the pointer.\<close>

definition start_threads :: "int \<Rightarrow> process \<Rightarrow> process" where
  "start_threads num_threads s = s\<lparr>pr_thread_pool := Some num_threads\<rparr>"

definition wait_stopped :: "process \<Rightarrow> process" where
  "wait_stopped s = (if pr_thread_pool s \<noteq> None then s\<lparr>pr_thread_pool := None\<rparr> else s)"

fun effect :: "main_call \<Rightarrow> process \<Rightarrow> process" where
  "effect (Start_threads n) s = start_threads n s"
| "effect Wait_pool s = wait_stopped s"
| "effect (Configure_hss_connection name) s = s\<lparr>pr_hss := True\<rparr>"
| "effect Configure_handler_tables s = s\<lparr>pr_tables := True\<rparr>"
| "effect (New_cx x) s = s\<lparr>pr_objects := x # pr_objects s\<rparr>"
| "effect (Delete_cx x) s = s\<lparr>pr_objects := removeAll x (pr_objects s)\<rparr>"
| "effect (Start l) s = s\<lparr>pr_running := l # pr_running s\<rparr>"
| "effect (Wait_stopped l) s = s\<lparr>pr_running := removeAll l (pr_running s)\<rparr>"
| "effect _ s = s"

text \<open>
  What the handlers of a stack use: \<open>add_work\<close> follows the pointer to the pool, and the Diameter handlers follow the
  pointers to their configuration, to the dictionary and to the counters.
\<close>

fun ready :: "listener \<Rightarrow> process \<Rightarrow> bool" where
  "ready Http_sig s \<longleftrightarrow> pr_thread_pool s \<noteq> None \<and> pr_hss s"
| "ready Http_mgmt s \<longleftrightarrow> pr_thread_pool s \<noteq> None"
| "ready Diameter_stack s \<longleftrightarrow> pr_thread_pool s \<noteq> None \<and> pr_tables s \<and>
     list_all (\<lambda>x. List.member (pr_objects s) x) [Cx_dict, Rtr_config, Ppr_config, Rtr_handler, Ppr_handler]"

text \<open>All states between the calls.\<close>

fun states :: "main_call list \<Rightarrow> process \<Rightarrow> process list" where
  "states [] s = [s]"
| "states (c # cs) s = s # states cs (effect c s)"

definition http_ready :: "process \<Rightarrow> bool" where
  "http_ready s \<longleftrightarrow> list_all (\<lambda>l. l = Diameter_stack \<or> ready l s) (pr_running s)"

lemma states_append: "states (cs @ ds) s = butlast (states cs s) @ states ds (fold effect cs s)"
proof (induction cs arbitrary: s)
  case Nil
  then show ?case by simp
next
  case (Cons c cs)
  have "states cs x \<noteq> []" for x by (cases cs) simp_all
  then show ?case using Cons.IH by simp
qed

lemma last_states: "last (states cs s) = fold effect cs s"
proof (induction cs arbitrary: s)
  case (Cons c cs)
  have "states cs x \<noteq> []" for x by (cases cs) simp_all
  then show ?case using Cons.IH by simp
qed simp

lemma set_states_append:
  "set (states (cs @ ds) s) = set (states cs s) \<union> set (states ds (fold effect cs s))"
proof -
  have ne: "states xs x \<noteq> []" for xs x by (cases xs) simp_all
  have "set (states cs s) = insert (fold effect cs s) (set (butlast (states cs s)))"
    using append_butlast_last_id [OF ne, of cs s] last_states [of cs s]
    by (metis Un_insert_right list.set(1) list.set(2) set_append sup_bot.right_neutral)
  moreover have "fold effect cs s \<in> set (states ds (fold effect cs s))" by (cases ds) simp_all
  ultimately show ?thesis by (auto simp: states_append)
qed

section \<open>Starting is a prefix of one sequence\<close>

text \<open>Whatever fails, the calls are an initial part of the calls of a start that succeeds.\<close>

definition start_calls :: "main_env \<Rightarrow> options \<Rightarrow> string \<Rightarrow> string list \<Rightarrow> main_call list" where
  "start_calls env o1 location remotes =
     (if pidfile o1 \<noteq> '''' then [Lock_pidfile (pidfile o1)] else []) @
     [Create_cache location remotes (s32 (cache_threads o1 * int (length remotes))), Start_threads (cache_threads o1)] @
     (if hss_is_configured o1 then diameter_calls o1 @ diameter_connected o1
      else [Configure_hsprov (cassandra_host env o1), Configure_workers (cassandra_threads o1), Connection_test,
        Start_hsprov, New_hsprov_connection (server_name o1)]) @
     [Configure_hss_connection (server_name o1)] @ sig_calls o1 @ mgmt_calls @ realm_calls o1"

lemma try_calls_ok: "try_calls throws cs = (ds, ok) \<Longrightarrow> if ok then ds = cs else \<exists>es. cs = ds @ es"
  by (induction throws cs arbitrary: ds ok rule: try_calls.induct) (auto split: if_splits prod.splits)

lemma run_parts_prefix:
  assumes "list_all2 (\<lambda>p cs. if snd p = None then fst p = cs else \<exists>es. cs = fst p @ es) ps css"
    and "run_parts ps = (cs, r)"
  shows "if r = None then cs = concat css else \<exists>es. concat css = cs @ es"
  using assms
proof (induction ps css arbitrary: cs r rule: list_all2_induct)
  case Nil
  then show ?case by simp
next
  case (Cons p ps ds dss)
  show ?case
  proof (cases p)
    case (Pair as r1)
    then show ?thesis using Cons by (cases r1) (auto split: prod.splits if_splits)
  qed
qed

lemma start_up_prefix:
  assumes "start_up env o1 location remotes = (cs, r)"
  shows "if r = None then cs = start_calls env o1 location remotes
    else \<exists>es. start_calls env o1 location remotes = cs @ es"
proof -
  let ?css = "[if pidfile o1 \<noteq> '''' then [Lock_pidfile (pidfile o1)] else [],
     [Create_cache location remotes (s32 (cache_threads o1 * int (length remotes)))], [Start_threads (cache_threads o1)],
     if hss_is_configured o1 then diameter_calls o1 @ diameter_connected o1
      else [Configure_hsprov (cassandra_host env o1), Configure_workers (cassandra_threads o1), Connection_test,
        Start_hsprov, New_hsprov_connection (server_name o1)],
     Configure_hss_connection (server_name o1) # sig_calls o1, mgmt_calls, realm_calls o1]"
  obtain d ok where d: "try_calls (en_throws env) (diameter_calls o1) = (d, ok)" by fastforce
  obtain h ok' where h: "try_calls (en_throws env) (sig_calls o1) = (h, ok')" by fastforce
  obtain m ok'' where m: "try_calls (en_throws env) mgmt_calls = (m, ok'')" by fastforce
  note ok = try_calls_ok [OF d] try_calls_ok [OF h] try_calls_ok [OF m]
  have "list_all2 (\<lambda>p cs. if snd p = None then fst p = cs else \<exists>es. cs = fst p @ es)
     [pidfile_part env o1, create_memcached_cache o1 location remotes, cache_threads_part env o1,
        if hss_is_configured o1 then diameter_part env o1 else hsprov_part env o1,
        sig_part env o1, mgmt_part env, (realm_calls o1, None)] ?css"
    using ok
    by (auto simp: pidfile_part_def create_memcached_cache_def cache_threads_part_def diameter_part_def hsprov_part_def
        sig_part_def mgmt_part_def d h m Let_def split: if_splits)
  from run_parts_prefix [OF this assms [unfolded start_up_def]]
  have "if r = None then cs = concat ?css else \<exists>es. concat ?css = cs @ es" .
  moreover have "concat ?css = start_calls env o1 location remotes" by (simp add: start_calls_def)
  ultimately show ?thesis by (simp only:)
qed

section \<open>Requests and the life of the process\<close>

lemmas call_defs = start_calls_def diameter_calls_def diameter_connected_def sig_calls_def sig_routes_def
  mgmt_calls_def mgmt_routes_def realm_calls_def

definition started_process :: "options \<Rightarrow> process" where
  "started_process o1 =
     \<lparr>pr_thread_pool = Some (cache_threads o1), pr_hss = True, pr_tables = hss_is_configured o1,
      pr_objects = (if hss_is_configured o1 then [Ppr_handler, Rtr_handler, Ppr_config, Rtr_config, Cx_dict] else []),
      pr_running = [Http_mgmt, Http_sig] @ (if hss_is_configured o1 then [Diameter_stack] else [])\<rparr>"

lemma start_calls_end: "fold effect (start_calls env o1 location remotes) new_process = started_process o1"
  by (simp add: call_defs new_process_def start_threads_def started_process_def)

lemma start_calls_ready: "list_all http_ready (states (start_calls env o1 location remotes) new_process)"
  by (simp add: call_defs new_process_def start_threads_def http_ready_def)

lemma shut_down_ready:
  assumes "\<And>l. l \<noteq> Diameter_stack \<Longrightarrow> \<not> en_throws env (Stop l) \<and> \<not> en_throws env (Wait_stopped l)"
  shows "list_all http_ready (states (shut_down env o1) (started_process o1))"
  using assms
  by (simp add: shut_down_def stop_stack_def started_process_def wait_stopped_def http_ready_def)

text \<open>The last call of a \<open>try\<close> block returns exactly when no call throws.\<close>

lemma try_calls_last:
  "try_calls throws (cs @ [c]) = (ds, ok) \<Longrightarrow> c \<notin> set cs \<Longrightarrow> c \<in> set ds \<longleftrightarrow> ok"
proof (induction cs arbitrary: ds)
  case (Cons a cs)
  then show ?case by (auto split: if_splits prod.splits)
qed (auto split: if_splits)

lemma try_calls_subset: "try_calls throws cs = (ds, ok) \<Longrightarrow> set ds \<subseteq> set cs"
  using try_calls_ok [of throws cs ds ok] by (auto split: if_splits)

lemma start_up_code:
  assumes "start_up env o1 location remotes = (cs, r)"
  shows "r \<in> {None, Some 2, Some 3} \<and> (r = None \<longleftrightarrow> Start Http_mgmt \<in> set cs)"
proof -
  obtain d ok where d: "try_calls (en_throws env) (diameter_calls o1) = (d, ok)" by fastforce
  obtain h ok' where h: "try_calls (en_throws env) (sig_calls o1) = (h, ok')" by fastforce
  obtain m ok'' where m: "try_calls (en_throws env) mgmt_calls = (m, ok'')" by fastforce
  have notin: "Start Http_mgmt \<notin> set d" "Start Http_mgmt \<notin> set h"
    using try_calls_subset [OF d] try_calls_subset [OF h]
    by (auto simp: diameter_calls_def sig_calls_def sig_routes_def)
  have "Start Http_mgmt \<in> set m \<longleftrightarrow> ok''"
    using m try_calls_last [of "en_throws env" "butlast mgmt_calls" "Start Http_mgmt" m ok'']
    by (auto simp: mgmt_calls_def mgmt_routes_def)
  then show ?thesis
    using assms notin
    by (simp add: start_up_def pidfile_part_def create_memcached_cache_def cache_threads_part_def diameter_part_def
        hsprov_part_def sig_part_def mgmt_part_def d h m Let_def diameter_connected_def realm_calls_def
        split: if_split_asm) auto
qed


text \<open>A machine on which nothing fails.\<close>

definition quiet_env :: main_env where
  "quiet_env =
     \<lparr>en_ipv6 = (\<lambda>h. False), en_pidfile = (\<lambda>f. True), en_pool = (\<lambda>n. True),
      en_cassandra = (\<lambda>c. CASS_OK), en_throws = (\<lambda>c. False)\<rparr>"

lemma try_quiet [simp]: "try_calls (\<lambda>c. False) cs = (cs, True)"
  by (induction cs) simp_all

lemma quiet_start:
  assumes "location \<noteq> []"
  shows "start_up quiet_env o1 location remotes = (start_calls quiet_env o1 location remotes, None)"
  using assms
  by (simp add: quiet_env_def start_up_def pidfile_part_def create_memcached_cache_def cache_threads_part_def
      diameter_part_def hsprov_part_def sig_part_def mgmt_part_def start_calls_def cassandra_host_def)

lemma sample_options:
  "\<exists>o1. init_options plain_lib sample_args (init_logging_options sample_args (default_options plain_lib 0)) = Some o1 \<and>
     impu_stores o1 = [''here''] \<and> hss_is_configured o1 \<and> cache_threads o1 = 50"
  by (simp add: init_options_def init_logging_options_def sample_getopt log_option_def default_options_def
      set_option_def set_short_def sample_atoi plain_lib_def hss_is_configured_def)

lemma sample_main:
  "\<exists>o1. init_options plain_lib sample_args (init_logging_options sample_args (default_options plain_lib 0)) = Some o1 \<and>
     hss_is_configured o1 \<and>
     homestead_main plain_lib quiet_env 0 sample_args =
       (start_calls quiet_env o1 ''here'' [] @ shut_down quiet_env o1, 0)"
proof -
  obtain o1 where "init_options plain_lib sample_args (init_logging_options sample_args (default_options plain_lib 0)) = Some o1"
    "impu_stores o1 = [''here'']" "hss_is_configured o1"
    using sample_options by blast
  then show ?thesis by (simp add: homestead_main_def quiet_start) (simp add: plain_lib_def quiet_start)
qed


lemma hsprov_all_ready:
  assumes "\<And>l. l \<noteq> Diameter_stack \<Longrightarrow> \<not> en_throws env (Stop l) \<and> \<not> en_throws env (Wait_stopped l)"
    and "\<not> hss_is_configured o1"
  shows "list_all (\<lambda>s. list_all (\<lambda>l. ready l s) (pr_running s)) (states (start_calls env o1 location remotes) new_process)"
    and "list_all (\<lambda>s. list_all (\<lambda>l. ready l s) (pr_running s)) (states (shut_down env o1) (started_process o1))"
  using assms
  by (simp_all add: call_defs new_process_def start_threads_def shut_down_def stop_stack_def started_process_def
      wait_stopped_def)

lemma states_middle: "fold effect cs s \<in> set (states (cs @ ds) s)"
  unfolding set_states_append by (cases ds) simp_all

lemma diameter_windows:
  assumes "hss_is_configured o1"
  shows "\<exists>s \<in> set (states (start_calls env o1 location remotes) new_process).
      Diameter_stack \<in> set (pr_running s) \<and> \<not> pr_tables s"
    and "\<exists>s \<in> set (states (shut_down env o1) (started_process o1)).
      Diameter_stack \<in> set (pr_running s) \<and> pr_thread_pool s = None \<and> pr_objects s = []"
proof -
  show "\<exists>s \<in> set (states (start_calls env o1 location remotes) new_process).
      Diameter_stack \<in> set (pr_running s) \<and> \<not> pr_tables s"
    using assms by (simp add: call_defs new_process_def start_threads_def)
  let ?http = "stop_stack env Http_sig @ stop_stack env Http_mgmt"
  let ?before = "?http @ [Stop_pool, Wait_pool, Stop_realm_manager, Delete_cx Cx_dict, Delete_cx Ppr_config,
    Delete_cx Rtr_config, Delete_cx Ppr_handler, Delete_cx Rtr_handler]"
  have "\<exists>rs. fold effect ?http (started_process o1) = (started_process o1)\<lparr>pr_running := rs\<rparr> \<and> Diameter_stack \<in> set rs"
    using assms by (auto simp: stop_stack_def started_process_def)
  then obtain rs where rs: "fold effect ?http (started_process o1) = (started_process o1)\<lparr>pr_running := rs\<rparr>"
    "Diameter_stack \<in> set rs" by blast
  have "fold effect ?before (started_process o1) =
      (started_process o1)\<lparr>pr_running := rs, pr_thread_pool := None, pr_objects := []\<rparr>"
    using assms by (simp add: rs(1) [unfolded fold_append comp_def] wait_stopped_def) (simp add: started_process_def)
  moreover have "shut_down env o1 = ?before @ stop_stack env Diameter_stack"
    using assms by (simp add: shut_down_def)
  ultimately have "(started_process o1)\<lparr>pr_running := rs, pr_thread_pool := None, pr_objects := []\<rparr>
      \<in> set (states (shut_down env o1) (started_process o1))"
    using states_middle [of ?before "started_process o1" "stop_stack env Diameter_stack"] by (simp only:)
  then show "\<exists>s \<in> set (states (shut_down env o1) (started_process o1)).
      Diameter_stack \<in> set (pr_running s) \<and> pr_thread_pool s = None \<and> pr_objects s = []"
    by (rule rev_bexI) (simp add: rs(2))
qed

text \<open>
  C30: requests of the HSS are not protected like that. With an HSS, the Diameter stack is running before the
  counters that the answers increment have been set, and it is still running when the thread pool of the cache is gone
  and its handlers, their configuration and the dictionary have been deleted: a request in one of these moments follows
  a null or dangling pointer. Without an HSS there is no such moment.
\<close>

theorem diameter_requests_exposed:
  assumes "homestead_main L env any args = (calls, 0)"
    and "init_options L args (init_logging_options args (default_options L any)) = Some o1"
    and "\<And>l. l \<noteq> Diameter_stack \<Longrightarrow> \<not> en_throws env (Stop l) \<and> \<not> en_throws env (Wait_stopped l)"
  shows "if hss_is_configured o1
    then (\<exists>s \<in> set (states calls new_process). Diameter_stack \<in> set (pr_running s) \<and> \<not> pr_tables s) \<and>
      (\<exists>s \<in> set (states calls new_process).
         Diameter_stack \<in> set (pr_running s) \<and> pr_thread_pool s = None \<and> pr_objects s = [])
    else list_all (\<lambda>s. list_all (\<lambda>l. ready l s) (pr_running s)) (states calls new_process)"
proof -
  obtain location remotes cs r where o1: "start_up env o1 location remotes = (cs, r)"
    "(calls, 0) = (case r of Some code \<Rightarrow> (cs, code) | None \<Rightarrow> (cs @ shut_down env o1, 0))"
    using assms(1,2) by (auto simp: homestead_main_def split: option.splits prod.splits)
  have r: "r = None" using start_up_code [OF o1(1)] o1(2) by auto
  have cs: "cs = start_calls env o1 location remotes" "calls = cs @ shut_down env o1"
    using start_up_prefix [OF o1(1)] o1(2) r by auto
  have sets: "set (states calls new_process) =
      set (states (start_calls env o1 location remotes) new_process) \<union> set (states (shut_down env o1) (started_process o1))"
    using cs by (simp add: set_states_append start_calls_end)
  show ?thesis
  proof (cases "hss_is_configured o1")
    case True
    then show ?thesis
      unfolding sets bex_Un using diameter_windows(1) [OF True, of env location remotes] diameter_windows(2) [OF True, of env]
      by (simp only: if_True simp_thms)
  next
    case False
    then show ?thesis
      using hsprov_all_ready [OF assms(3) False] unfolding list_all_iff sets by auto
  qed
qed

theorem diameter_requests_exposed_witness:
  "\<exists>calls. homestead_main plain_lib quiet_env 0 sample_args = (calls, 0) \<and>
     (\<exists>s \<in> set (states calls new_process).
        Diameter_stack \<in> set (pr_running s) \<and> pr_thread_pool s = None \<and> pr_objects s = [])"
proof -
  obtain calls o1 where main: "homestead_main plain_lib quiet_env 0 sample_args = (calls, 0)"
    and o1: "init_options plain_lib sample_args (init_logging_options sample_args (default_options plain_lib 0)) = Some o1"
      "hss_is_configured o1"
    using sample_main by blast
  from diameter_requests_exposed [OF main o1(1)] main o1(2) show ?thesis by (simp add: quiet_env_def)
qed

end
