(* ===== verification/Spec2Isabelle.thy ===== *)
theory Spec2Isabelle
  imports Contention Registry Handler_Properties Cx_Task_Properties Service_Properties Deregistration Lifecycle
begin

text \<open>
  Homestead is the subscriber-data cache of an IMS core. Sprout asks it over HTTP for authentication
  vectors, for the server of a user, and to register and deregister users; Homestead asks the HSS
  over Diameter's Cx interface, or the Cassandra database of Homestead-Prov, and keeps the
  registration data in memcached, on the local site and on remote ones. The HSS sends requests of its own, to end
  registrations and to change profiles, which Homestead applies to the cache and passes to Sprout.
  This development models the program's own C++ code under \<open>src/src\<close> and \<open>src/include\<close> and proves
  what makes it correct.

  \<^bold>\<open>How the program is modelled.\<close> A class with state is a record, an enumeration or a class hierarchy a
  datatype, a method a function that returns the new state. A \<open>std::map\<close> is an association list
  ordered by its keys, a C++ \<open>int\<close> an integer that is cut to its width where it can overflow, a
  \<open>Store::Status\<close> a value, and a null pointer \<open>None\<close>. What is not in the repository is a parameter: the data
  store, the clock, LZ4 and rapidjson (record \<open>ext\<close> of External), rapidxml (\<open>xml_api\<close>), the
  Diameter stack (\<open>diameter_api\<close>), Cassandra, the HTTP client, \<open>url_unescape\<close>, and the libraries that
  \<open>main\<close> uses (\<open>startup_lib\<close>, \<open>main_env\<close>). Where a theorem relies on them it assumes a named contract
  (\<open>store_contract\<close>, \<open>json_contract\<close>, \<open>lz4_contract\<close>, \<open>diameter_contract\<close>) that states documented behaviour;
  Reference_Env and Cx_Messages have concrete functions that satisfy the contracts, and the witnesses run in
  them. The world \<open>'w\<close> that the store operations pass on is abstract, so other processes may change
  it between two operations.

  \<^bold>\<open>The theories.\<close>

  \<^item> Prelude: machine integers, C strings, ordered maps. External: the libraries. Reg_Data: the plain data of
    \<open>reg_state.h\<close>, \<open>charging_addresses.h\<close>, \<open>authvector.h\<close> and \<open>servercapabilities.h\<close>.

  \<^item> Varbyte, Impu_Record and Impu_Store: \<open>impu_store.cpp\<close>, the size prefix, the records and their JSON and
    LZ4 form, and the operations of \<open>ImpuStore\<close>. The locale \<open>impu_repository\<close> is what the cache relies on, a pair of
    tables with compare-and-swap; \<open>ims\<close> interprets it on \<open>ImpuStore\<close> over a store that keeps its contract.

  \<^item> Implicit_Reg_Set: \<open>MemcachedImplicitRegistrationSet\<close> of \<open>memcached_cache.cpp\<close>, which remembers what has been
    added, removed or left alone and merges itself with a stored record. Xml_Utils: \<open>homestead_xml_utils.cpp\<close>.

  \<^item> Base_Hss_Cache and Memcached_Cache: \<open>base_hss_cache.cpp\<close>, \<open>base_ims_subscription.h\<close>, the callbacks of
    \<open>hss_cache_processor.cpp\<close> and \<open>MemcachedCache\<close>, with its retry loops. Cache_Consistency proves in the locale
    \<open>impu_repository\<close> what putting and deleting a set does to the tables; Store_Properties states it for the program, Sites
    for all sites and for two writers, Contention for a store that other nodes write to, and Registry against an abstract registry.

  \<^item> Hss_Connection: the requests and answers of \<open>hss_connection.h\<close>, and the locale \<open>hss_connection\<close> of what the handlers
    rely on. Cx_Messages: \<open>cx.cpp\<close>. Diameter_Hss: \<open>diameter_hss_connection.cpp\<close>, interpretation \<open>dia\<close>. Hs_Prov:
    \<open>hsprov_store.cpp\<close> and \<open>hsprov_hss_connection.cpp\<close>, interpretation \<open>hsp\<close>.

  \<^item> Http_Handlers and Handler_Properties: the tasks of \<open>http_handlers.cpp\<close> that ask the HSS one question.
    Reg_Data_Task, Reg_Data_Machine and Reg_Data_Decisions: the registration task, its callbacks as a step
    relation, the invariant of its runs, its decision table, and the simulation for the members without a value.

  \<^item> Task_Machine: tasks driven by callbacks in general, the function \<open>serve\<close> that runs one to its end, and the locale
    \<open>answering_task\<close>. Sprout_Connection: \<open>sproutconnection.cpp\<close>. Diameter_Handlers and Cx_Task_Properties:
    \<open>diameter_handlers.cpp\<close>, interpretations \<open>rtr\<close> and \<open>ppr\<close> of \<open>answering_task\<close>.

  \<^item> Service, Service_Properties and Deregistration: the tasks together with the cache, from the arrival of a request to its
    end.

  \<^item> Options, Startup and Lifecycle: \<open>main.cpp\<close>, the command line, the configuration and the routes, and the order in
    which the parts are started and stopped.

  \<^bold>\<open>What is shown.\<close>

  \<^item> The stored data. A record is read back as it was written (C19) or not written at all (C36), and
    no stored bytes make the size prefix run out of the buffer (C35). Writing is a compare-and-swap (C21). Putting a set and
    deleting it leave the two tables consistent with it and touch nothing else (C4, C6), what was put is found under all of its
    identities (C5), a merge keeps what the caller has set (C20), and the tracking maps stay ordered (C22). One site is a
    registry of registration sets (C3, against the abstract registry of Registry), and remote sites are
    read only when the local one has nothing (\<open>get_impu_gr_spec\<close>).

  \<^item> Several nodes and sites. A put reaches every site (C7) and its set survives the loss of the local one (C8), two nodes that change the same set do not lose each other's
    additions (C9), and a put ends under bounded interference, with the changes of the caller in the set it leaves (C10).

  \<^item> The registration task. In every run it replies exactly once and deletes itself last (C12), does only what
    its request calls for (C14), decides by a table of four facts (C13), ends after a bounded number of callbacks (C15), and does
    not depend on members without a value (C29). Served by the cache and the HSS, it refines the machine (C11), a
    new registration ends up in the cache (C1), and a deregistration leaves nothing of the set there (C2).

  \<^item> The other tasks. One reply with the code for the result and safe casts (C37), one answer to each request of
    the HSS (C16), Sprout is told exactly the bindings that are gone (C17), and a push profile is applied as a whole or not at
    all (C18).

  \<^item> Messages and documents: what the HSS sends reaches the handler (\<open>sar_answer_delivered\<close>), messages are read as they were built
    (C38, C39, \<open>answers_roundtrip\<close>), outcomes are counted (\<open>outcome_counted\<close>), a read of Cassandra does
    not depend on the order of its columns (\<open>hsprov_sar_data\<close>), identities are read completely (C40), and the document for
    Sprout has the nodes it should (\<open>reg_data_document\<close>).

  \<^item> The process: a command line is rejected or has values in range (C34), requests are routed by their paths
    (C33), records outlive the interval after which the HSS is asked again (C32), and HTTP requests
    find what their handlers use (C31).

  \<^item> What goes wrong: a push profile that was not stored is reported as stored (C23), a
    termination reaches one set only (C24), removing a mapping and adding one can go on for ever (C25, C26), and so can a put over a record that
    cannot be decoded (C27), an HSS can keep a task for
    ever (C28), and requests of the HSS can come when what their handlers use is not there (C30).

  \<^bold>\<open>Loops.\<close> A loop of the code that ends by itself is a total function. The retry loops of the cache and \<open>serve\<close>
  may go on for ever, since another process can interfere each time: they are partial functions and \<open>None\<close> is not
  returning. C1, C2, C4, C5 and C6 prove that they
  return when nobody interferes, C10 that a put returns when others interfere a bounded number of times and no mapping is removed;
  C25, C26, C27 and C28 that they need not.
  There is no fuel. The only bounds are those of the code, such as the 128 KB of C36.

  \<^bold>\<open>Not modelled.\<close> Logging (\<open>homestead_pd_definitions.h\<close>, \<open>homesteadsasevent.h\<close>, the SAS events and markers in all files)
  and the stopwatches, which have no effect on the results except for the latency figures, which are modelled. The
  statistics manager, which only constructs accumulators of a library. The thread pools of libraries: the model runs the jobs
  of the remote reads in their order, and the interleaving of requests is what the abstract world allows between two
  operations of a store. In \<open>main.cpp\<close>, the help text, the signal handlers and the construction of objects that only
  libraries use. The example program under \<open>src/examples\<close>.
\<close>

end
